theory Spec2Isabelle
  imports Complex_Main
begin

section \<open>Vector kernel (UtilityFunctions.h, Constants.h)\<close>

text \<open>
  The C arrays \<^verbatim>\<open>fvec3\<close> are triples. The template parameter \<^verbatim>\<open>T\<close> of the
  vector kernel and of \<^verbatim>\<open>DistanceRandom<T>\<close> is \<^verbatim>\<open>float\<close>; a number is a real, and an
  operation is the exact one: rounding to the 24 bits of a \<^verbatim>\<open>float\<close> is not part of the
  model. The range of \<^verbatim>\<open>float\<close> is part of the model where a vector is normalised
  (\<^verbatim>\<open>normalize3\<close>, \<^verbatim>\<open>normalizeIfNeeded3\<close>): there the squared length
  \<^verbatim>\<open>a[0]*a[0] + a[1]*a[1] + a[2]*a[2]\<close> is computed by \<open>float_square_length3\<close>,
  which overflows to infinity and loses the bits below \<^verbatim>\<open>2^-149\<close> as single precision does.
\<close>

type_synonym fvec3 = "real \<times> real \<times> real"

definition fEpsilon :: real where
  \<comment> \<open>\<^verbatim>\<open>std::numeric_limits<float>::epsilon()\<close>\<close>
  "fEpsilon = 1 / 2 ^ 23"

definition M_PIf :: real where
  "M_PIf = 314159265358979323846 / 10 ^ 20"

fun dot3 :: "fvec3 \<Rightarrow> fvec3 \<Rightarrow> real" where
  "dot3 (a0, a1, a2) (b0, b1, b2) = a0 * b0 + a1 * b1 + a2 * b2"

fun length3 :: "fvec3 \<Rightarrow> real" where
  "length3 (a0, a1, a2) = sqrt (a0 * a0 + a1 * a1 + a2 * a2)"

fun distance3 :: "fvec3 \<Rightarrow> fvec3 \<Rightarrow> real" where
  "distance3 (a0, a1, a2) (b0, b1, b2) = length3 (a0 - b0, a1 - b1, a2 - b2)"

fun squareDistance3 :: "fvec3 \<Rightarrow> fvec3 \<Rightarrow> real" where
  "squareDistance3 (a0, a1, a2) (b0, b1, b2) =
     dot3 (a0 - b0, a1 - b1, a2 - b2) (a0 - b0, a1 - b1, a2 - b2)"

fun Scalef :: "real \<Rightarrow> fvec3 \<Rightarrow> fvec3" where
  \<comment> \<open>\<^verbatim>\<open>std::transform(v, v + 3, v, Scalef{k})\<close>\<close>
  "Scalef k (a0, a1, a2) = (a0 * k, a1 * k, a2 * k)"

subsection \<open>The range of single precision\<close>

definition FLT_MAX :: real where
  \<comment> \<open>\<^verbatim>\<open>std::numeric_limits<float>::max()\<close>\<close>
  "FLT_MAX = (2 - 1 / 2 ^ 23) * 2 ^ 127"

definition round_to_even :: "real \<Rightarrow> int" where
  \<comment> \<open>the nearest integer, the even one of two that are equally near\<close>
  "round_to_even x =
     (let f = \<lfloor>x\<rfloor> in
      if x - of_int f < 1 / 2 then f
      else if x - of_int f > 1 / 2 then f + 1
      else if even f then f else f + 1)"

definition FLT_MIN :: real where
  \<comment> \<open>\<^verbatim>\<open>std::numeric_limits<float>::min()\<close>, the smallest normal number\<close>
  "FLT_MIN = 1 / 2 ^ 126"

definition FLT_TRUE_MIN :: real where
  \<comment> \<open>\<^verbatim>\<open>std::numeric_limits<float>::denorm_min()\<close>, the spacing below \<^verbatim>\<open>FLT_MIN\<close>\<close>
  "FLT_TRUE_MIN = 1 / 2 ^ 149"

definition FLT_OVERFLOW :: real where
  \<comment> \<open>half a unit in the last place above \<^verbatim>\<open>FLT_MAX\<close>: from here on a result is rounded
      to infinity\<close>
  "FLT_OVERFLOW = 2 ^ 128 - 2 ^ 103"

definition float_result :: "real \<Rightarrow> real option" where
  \<comment> \<open>what an operation on \<^verbatim>\<open>float\<close> delivers when its exact result is \<open>x\<close>: an infinity
      (\<open>None\<close>) from \<open>FLT_OVERFLOW\<close> on; below \<open>FLT_MIN\<close> the nearest multiple of
      \<open>FLT_TRUE_MIN\<close>, which is zero up to half of it; and \<open>x\<close> itself in between\<close>
  "float_result x =
     (if \<bar>x\<bar> \<ge> FLT_OVERFLOW then None
      else if \<bar>x\<bar> < FLT_MIN
      then Some (of_int (round_to_even (x / FLT_TRUE_MIN)) * FLT_TRUE_MIN)
      else Some x)"

definition float_add :: "real option \<Rightarrow> real option \<Rightarrow> real option" where
  \<comment> \<open>the sum of two values that are not negative; with an infinite term it is infinite\<close>
  "float_add x y =
     (case x of None \<Rightarrow> None
      | Some u \<Rightarrow> (case y of None \<Rightarrow> None | Some v \<Rightarrow> float_result (u + v)))"

fun float_square_length3 :: "fvec3 \<Rightarrow> real option" where
  \<comment> \<open>\<^verbatim>\<open>a[0]*a[0] + a[1]*a[1] + a[2]*a[2]\<close>, the argument of \<^verbatim>\<open>std::sqrt\<close> in
      \<^verbatim>\<open>length3(a)\<close> and the value of \<^verbatim>\<open>dot3(a, a)\<close>\<close>
  "float_square_length3 (a0, a1, a2) =
     float_add (float_add (float_result (a0 * a0)) (float_result (a1 * a1)))
       (float_result (a2 * a2))"

definition float_length3 :: "fvec3 \<Rightarrow> real option" where
  \<comment> \<open>\<^verbatim>\<open>length3(a)\<close>; the square root of infinity is infinity\<close>
  "float_length3 a = map_option sqrt (float_square_length3 a)"

subsection \<open>Normalisation\<close>

fun normalize3 :: "fvec3 \<Rightarrow> fvec3" where
  \<comment> \<open>an infinite \<^verbatim>\<open>L\<close> is not zero, and \<^verbatim>\<open>1.0 / L\<close> is zero then\<close>
  "normalize3 (a0, a1, a2) =
     (case float_length3 (a0, a1, a2) of
        None \<Rightarrow> (let L = 0 in (a0 * L, a1 * L, a2 * L))
      | Some L \<Rightarrow>
          if L \<noteq> 0 then (let L = 1 / L in (a0 * L, a1 * L, a2 * L))
          else (1, 0, 0))"

fun normalizeIfNeeded3 :: "fvec3 \<Rightarrow> real \<Rightarrow> fvec3" where
  \<comment> \<open>an infinite \<^verbatim>\<open>sL\<close> fails both comparisons with \<^verbatim>\<open>one\<close>; its root is infinite\<close>
  "normalizeIfNeeded3 (a0, a1, a2) eps =
     (let one = 1 in
      case float_square_length3 (a0, a1, a2) of
        None \<Rightarrow> (let L = 0 in (a0 * L, a1 * L, a2 * L))
      | Some sL \<Rightarrow>
          if sL < one + eps \<and> sL > one - eps then (a0, a1, a2)
          else (let L = sqrt sL in
                if L \<noteq> 0 then (let L = one / L in (a0 * L, a1 * L, a2 * L))
                else (one, 0, 0)))"

definition normalizeIfNeeded3_default_eps :: real where
  \<comment> \<open>the default argument \<^verbatim>\<open>10.0 * std::numeric_limits<T>::epsilon()\<close>\<close>
  "normalizeIfNeeded3_default_eps = 10 * fEpsilon"

section \<open>Random sampler and point light (RandomSampler.h, RenderLightPoint.cpp)\<close>

text \<open>
  The state of the Mersenne twister is the sequence of numbers \<^verbatim>\<open>rand()\<close> will return
  next; a call consumes the head. \<^verbatim>\<open>uniformSphere\<close> is a rejection loop: it returns
  \<open>None\<close> when the sequence ends before a candidate is accepted, which stands for a loop
  that has not returned.
\<close>

fun uniformSphere :: "real list \<Rightarrow> (fvec3 \<times> real list) option" where
  "uniformSphere (x # y # z # rs) =
     (let sl = dot3 (x, y, z) (x, y, z) in
      if sl > 1 \<or> sl < fEpsilon then uniformSphere rs
      else Some (Scalef (1 / sqrt sl) (x, y, z), rs))"
| "uniformSphere _ = None"

record RenderLightPoint =
  m_position :: fvec3
  m_intensity :: fvec3
  m_fRange :: real
  m_fPower :: real
  m_iIndex :: int
  m_pSampler :: bool

definition RenderLightPoint_new :: RenderLightPoint where
  "RenderLightPoint_new =
     \<lparr>m_position = (0, 0, 0), m_intensity = (0, 0, 0), m_fRange = 0, m_fPower = 0,
      m_iIndex = 0, m_pSampler = False\<rparr>"

fun RenderLightPoint_set :: "fvec3 \<Rightarrow> fvec3 \<Rightarrow> real \<Rightarrow> RenderLightPoint \<Rightarrow> RenderLightPoint" where
  "RenderLightPoint_set lpos (i0, i1, i2) lrange L =
     L\<lparr>m_position := lpos, m_intensity := (i0, i1, i2), m_fRange := lrange,
       m_fPower := 2126 / 10000 * i0 + 7152 / 10000 * i1 + 722 / 10000 * i2\<rparr>"

record RandomRay =
  ray_O :: fvec3
  ray_R :: fvec3
  ray_pdf :: real
  ray_radiance :: fvec3

definition getRandomRay :: "RenderLightPoint \<Rightarrow> real list \<Rightarrow> (RandomRay \<times> real list) option" where
  "getRandomRay L rs =
     (case uniformSphere rs of
        None \<Rightarrow> None
      | Some (R, rs') \<Rightarrow>
          Some (\<lparr>ray_O = m_position L, ray_R = R, ray_pdf = 1 / (4 * M_PIf),
                 ray_radiance = m_intensity L\<rparr>, rs'))"

section \<open>Discrete sampler (DistanceRandom.h)\<close>

text \<open>
  \<^verbatim>\<open>m_distances\<close> holds the weights until \<^verbatim>\<open>calculate\<close> replaces them by their running
  sums. \<^verbatim>\<open>setCount\<close> allocates the array without initialising it; the model fills it
  with zeros, and every entry is overwritten by \<^verbatim>\<open>setDistance\<close> before it is read.
\<close>

record DistanceRandom =
  m_iN :: int
  m_maxD :: real
  m_distances :: "real list"

definition DistanceRandom_new :: DistanceRandom where
  "DistanceRandom_new = \<lparr>m_iN = 0, m_maxD = 0, m_distances = []\<rparr>"

definition setCount :: "int \<Rightarrow> DistanceRandom \<Rightarrow> DistanceRandom" where
  "setCount N dr =
     dr\<lparr>m_iN := N, m_distances := (if N \<le> 0 then [] else replicate (nat N) 0)\<rparr>"

definition setDistance :: "int \<Rightarrow> real \<Rightarrow> DistanceRandom \<Rightarrow> DistanceRandom" where
  "setDistance i d dr = dr\<lparr>m_distances := (m_distances dr)[nat i := d]\<rparr>"

fun partial_sum_from :: "real \<Rightarrow> real list \<Rightarrow> real list" where
  "partial_sum_from acc [] = []"
| "partial_sum_from acc (x # xs) = (acc + x) # partial_sum_from (acc + x) xs"

fun partial_sum :: "real list \<Rightarrow> real list" where
  \<comment> \<open>\<^verbatim>\<open>std::partial_sum(first, last, first)\<close>\<close>
  "partial_sum [] = []"
| "partial_sum (x # xs) = x # partial_sum_from x xs"

definition calculate :: "DistanceRandom \<Rightarrow> DistanceRandom" where
  "calculate dr =
     (let ds = partial_sum (take (nat (m_iN dr)) (m_distances dr)) @
               drop (nat (m_iN dr)) (m_distances dr)
      in dr\<lparr>m_distances := ds, m_maxD := ds ! nat (m_iN dr - 1)\<rparr>)"

function getValue_loop :: "real list \<Rightarrow> real \<Rightarrow> int \<Rightarrow> int \<Rightarrow> int" where
  "getValue_loop ds d L R =
     (if L < R then
        (let C = (L + R) div 2 in
         if d \<le> ds ! nat C then getValue_loop ds d L C
         else getValue_loop ds d (C + 1) R)
      else (L + R) div 2)"
  by pat_completeness auto
termination
  by (relation "measure (\<lambda>(ds, d, L, R). nat (R - L))") auto

declare getValue_loop.simps [simp del]

definition getValue :: "DistanceRandom \<Rightarrow> real \<Rightarrow> int" where
  "getValue dr d =
     (if m_iN dr \<le> 0 then - 1
      else if m_iN dr = 1 then 0
      else if d \<le> m_distances dr ! 0 then 0
      else if d \<ge> m_distances dr ! nat (m_iN dr - 2) then m_iN dr - 1
      else getValue_loop (m_distances dr) d 0 (m_iN dr - 1))"

definition getRandom :: "DistanceRandom \<Rightarrow> real \<Rightarrow> int" where
  "getRandom dr rndVal = getValue dr (rndVal * m_maxD dr)"

definition getPdf :: "DistanceRandom \<Rightarrow> int \<Rightarrow> real" where
  "getPdf dr sample =
     (if sample < 0 \<or> sample \<ge> m_iN dr then 0
      else (m_distances dr ! nat sample -
            (if sample > 0 then m_distances dr ! nat (sample - 1) else 0)) / m_maxD dr)"

section \<open>Scene model (RenderMesh, RenderMaterial, BitmapTexture, RenderScene)\<close>

text \<open>
  Arrays owned through pointers are lists, a pointer that may be null is an \<open>option\<close>.
  A null dereference, an access outside an array and a negative array length end the
  run; they are the values of type \<open>crash\<close>, as is the end of the finite sequence of
  random numbers a run of the model is given. The Embree library is outside the
  repository: a device is described by whether it hands out scenes, a scene by the
  geometries attached to it. The contents of the face, vertex and pixel buffers play no
  part in the operations below and are left out: a buffer is either allocated or not.
  The code inside \<^verbatim>\<open>#ifdef FC_VALIDATION\<close> is not part of the model.
\<close>

datatype crash = NullPointerDereference | OutOfBoundsAccess | BadArrayNewLength | RandomStreamEnd

definition at_index :: "'a list \<Rightarrow> int \<Rightarrow> crash + 'a" where
  \<comment> \<open>\<^verbatim>\<open>a[i]\<close> on an array of \<open>length a\<close> elements\<close>
  "at_index a i = (if 0 \<le> i \<and> i < int (length a) then Inr (a ! nat i) else Inl OutOfBoundsAccess)"

type_synonym fmat = "real list list"

datatype RTCGeometry =
    TriangleGeometry int int
  | InstanceGeometry int fmat

datatype RTCScene = RTCScene (geometries: "(int \<times> RTCGeometry) list") (committed: bool)

datatype RTCDevice = RTCDevice (rtcNewScene_ok: bool)

definition rtcNewScene :: "RTCDevice \<Rightarrow> RTCScene option" where
  "rtcNewScene dev = (if rtcNewScene_ok dev then Some (RTCScene [] False) else None)"

definition rtcAttachGeometryByID :: "RTCScene \<Rightarrow> RTCGeometry \<Rightarrow> int \<Rightarrow> RTCScene" where
  "rtcAttachGeometryByID sc g i = RTCScene (geometries sc @ [(i, g)]) (committed sc)"

definition rtcCommitScene :: "RTCScene \<Rightarrow> RTCScene" where
  "rtcCommitScene sc = RTCScene (geometries sc) True"

subsection \<open>RenderMesh\<close>

record RenderMesh =
  m_iId :: int
  m_iVN :: int
  m_iFN :: int
  m_pF :: bool
  m_pfV :: bool
  m_iStride :: int
  m_iVertexOffs :: int
  m_iNormalOffs :: int
  m_iTangentOffs :: int
  m_iTexOffs :: "int list"
  m_iTexChN :: int
  m_iFilledTexChN :: int
  m_iTexMap :: "int list"
  m_bVertexDef :: bool
  m_vNormalDef :: bool
  m_bTangentDef :: bool
  m_bTexDef :: "bool list"
  m_iMatId :: int
  mesh_embreeScene :: "RTCScene option"

definition m_iMaxTexChannels :: int where
  "m_iMaxTexChannels = 8"

definition RenderMesh_reset :: RenderMesh where
  "RenderMesh_reset =
     \<lparr>m_iId = - 1, m_iVN = 0, m_iFN = 0, m_pF = False, m_pfV = False, m_iStride = 0,
      m_iVertexOffs = 0, m_iNormalOffs = 0, m_iTangentOffs = 0,
      m_iTexOffs = replicate 8 0, m_iTexChN = 0, m_iFilledTexChN = 0,
      m_iTexMap = replicate 8 (- 1), m_bVertexDef = False, m_vNormalDef = False,
      m_bTangentDef = False, m_bTexDef = replicate 8 False, m_iMatId = - 1,
      mesh_embreeScene = None\<rparr>"

definition RenderMesh_free :: "RenderMesh \<Rightarrow> RenderMesh" where
  \<comment> \<open>releases the buffers and the Embree scene, then \<^verbatim>\<open>reset()\<close>\<close>
  "RenderMesh_free m = RenderMesh_reset"

definition RenderMesh_allocate ::
  "int \<Rightarrow> int \<Rightarrow> int \<Rightarrow> int \<Rightarrow> int \<Rightarrow> RenderMesh \<Rightarrow> crash + RenderMesh" where
  "RenderMesh_allocate index vertN facesN texChannelsN matIndex m0 =
     (let m = RenderMesh_free m0;
          texChN = (if texChannelsN < m_iMaxTexChannels then texChannelsN else m_iMaxTexChannels);
          stride = 10 + texChN * 2
      in if facesN < 0 \<or> vertN * stride < 0 then Inl BadArrayNewLength
         else Inr (m\<lparr>m_iId := index, m_iVN := vertN, m_iFN := facesN, m_iTexChN := texChN,
                      m_iStride := stride, m_pF := True, m_pfV := True,
                      m_iVertexOffs := 0, m_iNormalOffs := 3, m_iTangentOffs := 6,
                      m_iTexOffs := map (\<lambda>i. if int i < texChN then 10 + int i * 2
                                              else m_iTexOffs m ! i) [0..<8],
                      m_iMatId := matIndex\<rparr>))"

definition setVertices :: "RenderMesh \<Rightarrow> RenderMesh" where
  "setVertices m = m\<lparr>m_bVertexDef := True\<rparr>"

definition setNormals :: "RenderMesh \<Rightarrow> RenderMesh" where
  "setNormals m = m\<lparr>m_vNormalDef := True\<rparr>"

definition setTangents :: "RenderMesh \<Rightarrow> RenderMesh" where
  "setTangents m = m\<lparr>m_bTangentDef := True\<rparr>"

definition setTextureCoordinates :: "int \<Rightarrow> RenderMesh \<Rightarrow> RenderMesh" where
  "setTextureCoordinates chid m =
     (if chid \<ge> m_iMaxTexChannels then m
      else
        (let m1 = (if m_iTexMap m ! nat chid = - 1
                   then m\<lparr>m_iTexMap := (m_iTexMap m)[nat chid := m_iFilledTexChN m],
                          m_iFilledTexChN := m_iFilledTexChN m + 1\<rparr>
                   else m);
             c = m_iTexMap m1 ! nat chid
         in m1\<lparr>m_bTexDef := (m_bTexDef m1)[nat c := True]\<rparr>))"

definition isValid :: "RenderMesh \<Rightarrow> bool" where
  "isValid m \<longleftrightarrow> m_iVN m > 0 \<and> m_iFN m > 0 \<and> m_pfV m \<and> m_pF m \<and> m_bVertexDef m"

definition computeNormals :: "RenderMesh \<Rightarrow> RenderMesh" where
  \<comment> \<open>fills the normals of the vertex buffer; the face indices are taken to lie inside
      the vertex buffer, here and in \<^verbatim>\<open>computeTangents\<close>\<close>
  "computeNormals m = m\<lparr>m_vNormalDef := True\<rparr>"

definition computeTangents_channel :: "int \<Rightarrow> RenderMesh \<Rightarrow> crash + RenderMesh" where
  \<comment> \<open>\<^verbatim>\<open>computeTangents(int tid)\<close>, which reads \<^verbatim>\<open>m_iTexOffs[tid]\<close>\<close>
  "computeTangents_channel tid m =
     (case at_index (m_iTexOffs m) tid of
        Inl e \<Rightarrow> Inl e
      | Inr k \<Rightarrow> Inr (m\<lparr>m_bTangentDef := True\<rparr>))"

definition computeTangents :: "RenderMesh \<Rightarrow> RenderMesh" where
  \<comment> \<open>\<^verbatim>\<open>computeTangents()\<close>\<close>
  "computeTangents m = m\<lparr>m_bTangentDef := True\<rparr>"

definition commitMesh :: "int \<Rightarrow> RenderMesh \<Rightarrow> crash + bool \<times> RenderMesh" where
  "commitMesh normalTexCh m =
     (if \<not> isValid m then Inr (False, RenderMesh_free m)
      else
        (let m1 = (if \<not> m_vNormalDef m then computeNormals m else m) in
         if \<not> m_bTangentDef m1 then
           (case (if normalTexCh \<ge> 0 then
                    (case at_index (m_iTexMap m1) normalTexCh of
                       Inl e \<Rightarrow> Inl e
                     | Inr c \<Rightarrow> Inr (if c \<ge> 0 then c else - 1))
                  else Inr (- 1)) of
              Inl e \<Rightarrow> Inl e
            | Inr ch \<Rightarrow>
                (if ch \<ge> 0 then
                   (case at_index (m_bTexDef m1) ch of
                      Inl e \<Rightarrow> Inl e
                    | Inr d \<Rightarrow>
                        (if d then
                           (case computeTangents_channel ch m1 of
                              Inl e \<Rightarrow> Inl e
                            | Inr m2 \<Rightarrow> Inr (True, m2))
                         else Inr (True, computeTangents m1)))
                 else Inr (True, computeTangents m1)))
         else Inr (True, m1)))"

subsection \<open>RenderInstance\<close>

record RenderInstance =
  m_iInstId :: int
  m_iMeshId :: int
  m_transformation :: fmat
  m_normMatrix :: fmat

definition RenderInstance_new :: RenderInstance where
  \<comment> \<open>\<^verbatim>\<open>new RenderInstance[n]\<close> leaves the fields indeterminate; the model fixes zeros\<close>
  "RenderInstance_new =
     \<lparr>m_iInstId = 0, m_iMeshId = 0, m_transformation = replicate 4 (replicate 4 0),
      m_normMatrix = replicate 3 (replicate 3 0)\<rparr>"

definition detMatrix3 :: "fmat \<Rightarrow> real" where
  "detMatrix3 M =
     M!0!0 * M!1!1 * M!2!2 + M!0!1 * M!1!2 * M!2!0 + M!0!2 * M!1!0 * M!2!1 -
     M!0!2 * M!1!1 * M!2!0 - M!0!1 * M!1!0 * M!2!2 - M!0!0 * M!1!2 * M!2!1"

definition inverseMatrix3 :: "fmat \<Rightarrow> fmat" where
  "inverseMatrix3 M =
     (let k = 1 / detMatrix3 M in
      [[k * (M!1!1 * M!2!2 - M!1!2 * M!2!1), k * (- (M!0!1) * M!2!2 + M!0!2 * M!2!1),
        k * (M!0!1 * M!1!2 - M!0!2 * M!1!1)],
       [k * (- (M!1!0) * M!2!2 + M!1!2 * M!2!0), k * (M!0!0 * M!2!2 - M!0!2 * M!2!0),
        k * (- (M!0!0) * M!1!2 + M!0!2 * M!1!0)],
       [k * (M!1!0 * M!2!1 - M!1!1 * M!2!0), k * (- (M!0!0) * M!2!1 + M!0!1 * M!2!0),
        k * (M!0!0 * M!1!1 - M!0!1 * M!1!0)]])"

definition computeNormalMatrix :: "RenderInstance \<Rightarrow> RenderInstance" where
  "computeNormalMatrix ri =
     (let T = m_transformation ri;
          TM = map (\<lambda>i. map (\<lambda>j. T ! j ! i) [0..<3]) [0..<3]
      in ri\<lparr>m_normMatrix := inverseMatrix3 TM\<rparr>)"

subsection \<open>RenderMaterial and BitmapTexture\<close>

datatype MaterialKind =
    DiffuseColorMaterial "real \<times> real \<times> real \<times> real"
  | PhysicallyBasedMaterial int
  | OpenMaterial

record RenderMaterial =
  mat_kind :: MaterialKind
  mat_pTextures :: bool
  mat_iTexturesN :: int
  mat_pSampler :: bool

definition RenderMaterial_new :: "MaterialKind \<Rightarrow> RenderMaterial" where
  "RenderMaterial_new k =
     \<lparr>mat_kind = k, mat_pTextures = False, mat_iTexturesN = 0, mat_pSampler = False\<rparr>"

definition BDPT_MISSING_MATERIAL_COLOR :: "real \<times> real \<times> real \<times> real" where
  "BDPT_MISSING_MATERIAL_COLOR = (1000, 0, 1000, 1)"

fun getNormalTextureChannel :: "RenderMaterial \<Rightarrow> int" where
  \<comment> \<open>the base class answers \<open>-1\<close>; the physically based material asks its asset, whose
      answer is the argument of the constructor here\<close>
  "getNormalTextureChannel rm =
     (case mat_kind rm of PhysicallyBasedMaterial ch \<Rightarrow> ch | _ \<Rightarrow> - 1)"

definition setTextures :: "bool \<Rightarrow> int \<Rightarrow> RenderMaterial \<Rightarrow> RenderMaterial" where
  "setTextures tex texN rm = rm\<lparr>mat_pTextures := tex, mat_iTexturesN := texN\<rparr>"

definition setRandomSampler :: "RenderMaterial \<Rightarrow> RenderMaterial" where
  "setRandomSampler rm = rm\<lparr>mat_pSampler := True\<rparr>"

record BitmapTexture =
  m_pImage :: bool
  m_iWidth :: int
  m_iHeight :: int

definition BitmapTexture_new :: BitmapTexture where
  "BitmapTexture_new = \<lparr>m_pImage = False, m_iWidth = 0, m_iHeight = 0\<rparr>"

definition BitmapTexture_set ::
  "int \<Rightarrow> int \<Rightarrow> bool \<Rightarrow> bool \<Rightarrow> BitmapTexture \<Rightarrow> crash + BitmapTexture" where
  \<comment> \<open>\<open>img\<close> tells whether the caller's pixel pointer is non-null\<close>
  "BitmapTexture_set w h img copy t =
     (if copy then
        (if w * h < 0 then Inl BadArrayNewLength
         else if \<not> img \<and> w * h > 0 then Inl NullPointerDereference
         else Inr (t\<lparr>m_iWidth := w, m_iHeight := h, m_pImage := True\<rparr>))
      else Inr (t\<lparr>m_iWidth := w, m_iHeight := h, m_pImage := img\<rparr>))"

subsection \<open>RenderScene\<close>

datatype Background = HDRBackground string

record RenderScene =
  m_embreeDevice :: "RTCDevice option"
  m_embreeScene :: "RTCScene option"
  m_embreeErrors :: "string list"
  m_pMeshes :: "RenderMesh list"
  m_iMeshesN :: int
  m_pInstances :: "RenderInstance list"
  m_iInstancesN :: int
  m_ppMaterials :: "RenderMaterial option list"
  m_iMaterialsN :: int
  m_ppLights :: "RenderLightPoint option list"
  m_iLightsN :: int
  m_lightsSampler :: DistanceRandom
  m_pBackground :: "Background option"
  m_pTextures :: "BitmapTexture list"
  m_iTexturesN :: int
  m_bTraceReady :: bool

definition RenderScene_new :: "RTCDevice option \<Rightarrow> RenderScene" where
  \<comment> \<open>the constructor; the argument is what \<^verbatim>\<open>rtcNewDevice\<close> returned\<close>
  "RenderScene_new dev =
     \<lparr>m_embreeDevice = dev, m_embreeScene = None, m_embreeErrors = [],
      m_pMeshes = [], m_iMeshesN = 0, m_pInstances = [], m_iInstancesN = 0,
      m_ppMaterials = [], m_iMaterialsN = 0, m_ppLights = [], m_iLightsN = 0,
      m_lightsSampler = DistanceRandom_new, m_pBackground = None,
      m_pTextures = [], m_iTexturesN = 0, m_bTraceReady = False\<rparr>"

definition free :: "RenderScene \<Rightarrow> RenderScene" where
  "free s =
     s\<lparr>m_pMeshes := [], m_iMeshesN := 0, m_embreeScene := None,
       m_pInstances := [], m_iInstancesN := 0,
       m_ppMaterials := [], m_iMaterialsN := 0,
       m_pTextures := [], m_iTexturesN := 0,
       m_ppLights := [], m_iLightsN := 0,
       m_lightsSampler := setCount 0 (m_lightsSampler s),
       m_pBackground := None, m_embreeErrors := [], m_bTraceReady := False\<rparr>"

definition allocate ::
  "int \<Rightarrow> int \<Rightarrow> int \<Rightarrow> int \<Rightarrow> int \<Rightarrow> RenderScene \<Rightarrow> crash + RenderScene" where
  "allocate meshN instN matN textN ligN s0 =
     (let s1 = free s0;
          s2 = s1\<lparr>m_iMeshesN := meshN,
                  m_pMeshes := (if meshN > 0 then replicate (nat meshN) RenderMesh_reset
                                else m_pMeshes s1)\<rparr>;
          s3 = s2\<lparr>m_iInstancesN := instN,
                  m_pInstances := (if instN > 0 then replicate (nat instN) RenderInstance_new
                                   else m_pInstances s2)\<rparr>;
          materialsN = matN + 1
      in if materialsN + 1 < 0 then Inl BadArrayNewLength
         else
           (let mats = replicate (nat (materialsN + 1)) None in
            if materialsN - 1 < 0 \<or> materialsN - 1 \<ge> int (length mats)
            then Inl OutOfBoundsAccess
            else
              (let s4 = s3\<lparr>m_iMaterialsN := materialsN,
                           m_ppMaterials := mats[nat (materialsN - 1) :=
                             Some (RenderMaterial_new
                                     (DiffuseColorMaterial BDPT_MISSING_MATERIAL_COLOR))]\<rparr>;
                   s5 = s4\<lparr>m_iLightsN := ligN,
                           m_ppLights := (if ligN > 0 then replicate (nat ligN) None
                                          else m_ppLights s4)\<rparr>;
                   s6 = s5\<lparr>m_iTexturesN := textN,
                           m_pTextures := (if textN > 0 then replicate (nat textN) BitmapTexture_new
                                           else m_pTextures s5)\<rparr>
               in Inr s6)))"

subsection \<open>Loops\<close>

text \<open>
  \<^verbatim>\<open>for (int i = a; i < n; ++i) body\<close> on a state, stopping at the first crash.
\<close>

function for_loop :: "int \<Rightarrow> int \<Rightarrow> (int \<Rightarrow> 's \<Rightarrow> crash + 's) \<Rightarrow> 's \<Rightarrow> crash + 's" where
  "for_loop i n body s =
     (if i < n then
        (case body i s of Inl e \<Rightarrow> Inl e | Inr s' \<Rightarrow> for_loop (i + 1) n body s')
      else Inr s)"
  by pat_completeness auto
termination
  by (relation "measure (\<lambda>(i, n, body, s). nat (n - i))") auto

declare for_loop.simps [simp del]

subsection \<open>Setters\<close>

definition setMesh_texBody :: "bool list \<Rightarrow> int \<Rightarrow> RenderMesh \<Rightarrow> crash + RenderMesh" where
  "setMesh_texBody tex i m =
     (case at_index tex i of
        Inl e \<Rightarrow> Inl e
      | Inr t \<Rightarrow> Inr (if t then setTextureCoordinates i m else m))"

definition setMesh_countBody :: "bool list \<Rightarrow> int \<Rightarrow> int \<Rightarrow> crash + int" where
  "setMesh_countBody tex i utexN =
     (case at_index tex i of
        Inl e \<Rightarrow> Inl e
      | Inr t \<Rightarrow> Inr (utexN + (if t then 1 else 0)))"

text \<open>
  The pointer arguments \<^verbatim>\<open>vert\<close>, \<^verbatim>\<open>norm\<close> (here \<open>nrm\<close>), \<^verbatim>\<open>tans\<close> and the entries of
  \<^verbatim>\<open>tex\<close> are given by whether they are non-null.
\<close>

definition setMesh ::
  "int \<Rightarrow> int \<Rightarrow> int \<Rightarrow> int \<Rightarrow> int \<Rightarrow> bool \<Rightarrow> bool \<Rightarrow> bool \<Rightarrow> bool list \<Rightarrow>
   RenderScene \<Rightarrow> crash + RenderScene" where
  "setMesh meshId vertN facesN texN matId vert nrm tans tex s =
     (if meshId < 0 \<or> meshId \<ge> m_iMeshesN s then Inr s
      else
        (case at_index (m_pMeshes s) meshId of
           Inl e \<Rightarrow> Inl e
         | Inr m \<Rightarrow>
             (case for_loop 0 texN (setMesh_countBody tex) 0 of
                Inl e \<Rightarrow> Inl e
              | Inr utexN \<Rightarrow>
                  (case RenderMesh_allocate meshId vertN facesN utexN matId m of
                     Inl e \<Rightarrow> Inl e
                   | Inr m1 \<Rightarrow>
                       (let m2 = (if vert then setVertices m1 else m1);
                            m3 = (if nrm then setNormals m2 else m2);
                            m4 = (if tans then setTangents m3 else m3)
                        in case for_loop 0 texN (setMesh_texBody tex) m4 of
                             Inl e \<Rightarrow> Inl e
                           | Inr m5 \<Rightarrow>
                               Inr (s\<lparr>m_pMeshes := (m_pMeshes s)[nat meshId := m5]\<rparr>))))))"

definition setInstance :: "int \<Rightarrow> fmat \<Rightarrow> int \<Rightarrow> RenderScene \<Rightarrow> crash + RenderScene" where
  "setInstance instId transf meshId s =
     (if instId < 0 \<or> instId \<ge> m_iInstancesN s then Inr s
      else
        (case at_index (m_pInstances s) instId of
           Inl e \<Rightarrow> Inl e
         | Inr ri \<Rightarrow>
             Inr (s\<lparr>m_pInstances := (m_pInstances s)[nat instId :=
                      computeNormalMatrix
                        (ri\<lparr>m_iInstId := instId, m_iMeshId := meshId,
                            m_transformation := transf\<rparr>)]\<rparr>)))"

definition setMaterial :: "int \<Rightarrow> RenderMaterial option \<Rightarrow> RenderScene \<Rightarrow> crash + RenderScene" where
  "setMaterial matId newMaterial s =
     (if matId < 0 \<or> matId \<ge> m_iMaterialsN s - 1 then Inr s
      else
        (case at_index (m_ppMaterials s) matId of
           Inl e \<Rightarrow> Inl e
         | Inr _ \<Rightarrow> Inr (s\<lparr>m_ppMaterials := (m_ppMaterials s)[nat matId := newMaterial]\<rparr>)))"

definition setLight :: "int \<Rightarrow> RenderLightPoint option \<Rightarrow> RenderScene \<Rightarrow> crash + RenderScene" where
  "setLight lightId newLight s =
     (if lightId < 0 \<or> lightId \<ge> m_iLightsN s then Inr s
      else
        (case at_index (m_ppLights s) lightId of
           Inl e \<Rightarrow> Inl e
         | Inr _ \<Rightarrow> Inr (s\<lparr>m_ppLights := (m_ppLights s)[nat lightId := newLight]\<rparr>)))"

definition setTexture ::
  "int \<Rightarrow> int \<Rightarrow> int \<Rightarrow> bool \<Rightarrow> bool \<Rightarrow> RenderScene \<Rightarrow> crash + RenderScene" where
  "setTexture texId tw th data copy s =
     (if texId < 0 \<or> texId \<ge> m_iTexturesN s then Inr s
      else
        (case at_index (m_pTextures s) texId of
           Inl e \<Rightarrow> Inl e
         | Inr t \<Rightarrow>
             (case BitmapTexture_set tw th data copy t of
                Inl e \<Rightarrow> Inl e
              | Inr t' \<Rightarrow> Inr (s\<lparr>m_pTextures := (m_pTextures s)[nat texId := t']\<rparr>))))"

definition setBackground :: "Background option \<Rightarrow> RenderScene \<Rightarrow> RenderScene" where
  "setBackground b s = s\<lparr>m_pBackground := b\<rparr>"

subsection \<open>commitScene and buildEmbreeScene\<close>

definition digit_char :: "nat \<Rightarrow> char" where
  "digit_char d = ''0123456789'' ! d"

fun nat_to_string :: "nat \<Rightarrow> string" where
  "nat_to_string n =
     (if n < 10 then [digit_char n] else nat_to_string (n div 10) @ [digit_char (n mod 10)])"

declare nat_to_string.simps [simp del]

definition to_string :: "int \<Rightarrow> string" where
  \<comment> \<open>\<^verbatim>\<open>std::to_string(int)\<close>\<close>
  "to_string i = (if i < 0 then CHR ''-'' # nat_to_string (nat (- i)) else nat_to_string (nat i))"

definition push_back :: "string list option \<Rightarrow> string \<Rightarrow> string list option" where
  \<comment> \<open>\<^verbatim>\<open>if (log) log->push_back(msg)\<close>\<close>
  "push_back lg msg = (case lg of None \<Rightarrow> None | Some l \<Rightarrow> Some (l @ [msg]))"

definition commitScene_meshBody ::
  "int \<Rightarrow> RenderScene \<times> string list option \<Rightarrow> crash + RenderScene \<times> string list option" where
  "commitScene_meshBody i st =
     (let s = fst st; lg = snd st in
      case at_index (m_pMeshes s) i of
        Inl e \<Rightarrow> Inl e
      | Inr m \<Rightarrow>
          (case (if m_iMatId m \<ge> 0 \<and> m_iMatId m < m_iMaterialsN s then
                   (case at_index (m_ppMaterials s) (m_iMatId m) of
                      Inl e \<Rightarrow> Inl e
                    | Inr (Some rm) \<Rightarrow> Inr (getNormalTextureChannel rm, m, lg)
                    | Inr None \<Rightarrow>
                        Inr (- 1, m\<lparr>m_iMatId := m_iMaterialsN s - 1\<rparr>,
                             push_back lg (to_string i @ '' mesh refers to undefined material'' @
                                            to_string (m_iMatId m))))
                 else Inr (- 1, m\<lparr>m_iMatId := m_iMaterialsN s - 1\<rparr>, lg)) of
             Inl e \<Rightarrow> Inl e
           | Inr (normChId, m1, log1) \<Rightarrow>
               (case commitMesh normChId m1 of
                  Inl e \<Rightarrow> Inl e
                | Inr (ok, m2) \<Rightarrow>
                    (let log2 = (if \<not> ok
                                 then push_back log1 (to_string i @ '' mesh is inconsistent'')
                                 else log1)
                     in Inr (s\<lparr>m_pMeshes := (m_pMeshes s)[nat i := m2]\<rparr>, log2)))))"

definition commitScene_instBody :: "int \<Rightarrow> RenderScene \<times> int \<Rightarrow> crash + RenderScene \<times> int" where
  "commitScene_instBody i st =
     (let s = fst st; falseInst = snd st in
      case at_index (m_pInstances s) i of
        Inl e \<Rightarrow> Inl e
      | Inr ri \<Rightarrow>
          (if m_iMeshId ri < 0 \<or> m_iMeshId ri \<ge> m_iMeshesN s then
             Inr (s\<lparr>m_pInstances := (m_pInstances s)[nat i := ri\<lparr>m_iMeshId := - 1\<rparr>]\<rparr>,
                  falseInst + 1)
           else
             (case at_index (m_pMeshes s) (m_iMeshId ri) of
                Inl e \<Rightarrow> Inl e
              | Inr m \<Rightarrow>
                  (if \<not> isValid m then
                     Inr (s\<lparr>m_pInstances := (m_pInstances s)[nat i := ri\<lparr>m_iMeshId := - 1\<rparr>]\<rparr>,
                          falseInst + 1)
                   else Inr (s, falseInst)))))"

definition commitScene_matBody :: "int \<Rightarrow> RenderScene \<Rightarrow> crash + RenderScene" where
  "commitScene_matBody i s =
     (case at_index (m_ppMaterials s) i of
        Inl e \<Rightarrow> Inl e
      | Inr None \<Rightarrow> Inl NullPointerDereference
      | Inr (Some rm) \<Rightarrow>
          Inr (s\<lparr>m_ppMaterials := (m_ppMaterials s)[nat i :=
                   Some (setRandomSampler
                           (setTextures (m_pTextures s \<noteq> []) (m_iTexturesN s) rm))]\<rparr>))"

definition commitScene_lightBody :: "int \<Rightarrow> RenderScene \<Rightarrow> crash + RenderScene" where
  "commitScene_lightBody i s =
     (case at_index (m_ppLights s) i of
        Inl e \<Rightarrow> Inl e
      | Inr None \<Rightarrow> Inl NullPointerDereference
      | Inr (Some l) \<Rightarrow>
          (let l' = l\<lparr>m_iIndex := i, m_pSampler := True\<rparr> in
           if i < int (length (m_distances (m_lightsSampler s))) then
             Inr (s\<lparr>m_ppLights := (m_ppLights s)[nat i := Some l'],
                    m_lightsSampler := setDistance i (m_fPower l') (m_lightsSampler s)\<rparr>)
           else Inl OutOfBoundsAccess))"

definition buildEmbreeScene_meshBody :: "RTCDevice \<Rightarrow> int \<Rightarrow> RenderScene \<Rightarrow> crash + RenderScene" where
  "buildEmbreeScene_meshBody dev i s =
     (case at_index (m_pMeshes s) i of
        Inl e \<Rightarrow> Inl e
      | Inr m \<Rightarrow>
          (if \<not> isValid m then Inr s
           else
             (case rtcNewScene dev of
                None \<Rightarrow> Inl NullPointerDereference
              | Some msc \<Rightarrow>
                  (let embreeMesh = TriangleGeometry (m_iFN m) (m_iVN m);
                       msc' = rtcCommitScene (rtcAttachGeometryByID msc embreeMesh i)
                   in Inr (s\<lparr>m_pMeshes := (m_pMeshes s)[nat i :=
                                m\<lparr>mesh_embreeScene := Some msc'\<rparr>]\<rparr>)))))"

definition buildEmbreeScene_instBody :: "int \<Rightarrow> RenderScene \<times> RTCScene \<Rightarrow> crash + RenderScene \<times> RTCScene" where
  "buildEmbreeScene_instBody i st =
     (let s = fst st; sc = snd st in
      case at_index (m_pInstances s) i of
        Inl e \<Rightarrow> Inl e
      | Inr ri \<Rightarrow>
          (if m_iMeshId ri < 0 then Inr (s, sc)
           else
             (case at_index (m_pMeshes s) (m_iMeshId ri) of
                Inl e \<Rightarrow> Inl e
              | Inr m \<Rightarrow>
                  (if mesh_embreeScene m = None then Inr (s, sc)
                   else
                     Inr (s, rtcAttachGeometryByID sc
                               (InstanceGeometry (m_iMeshId ri) (m_transformation ri)) i)))))"

definition buildEmbreeScene ::
  "RenderScene \<Rightarrow> string list option \<Rightarrow> crash + bool \<times> RenderScene \<times> string list option" where
  "buildEmbreeScene s lg =
     (case m_embreeDevice s of
        None \<Rightarrow> Inr (False, s, push_back lg ''Embree devide is not initialized'')
      | Some dev \<Rightarrow>
          (case rtcNewScene dev of
             None \<Rightarrow>
               Inr (False, s\<lparr>m_embreeScene := None\<rparr>, push_back lg ''Can not create embree scene'')
           | Some sc \<Rightarrow>
               (case for_loop 0 (m_iMeshesN s) (buildEmbreeScene_meshBody dev)
                       (s\<lparr>m_embreeScene := Some sc\<rparr>) of
                  Inl e \<Rightarrow> Inl e
                | Inr s1 \<Rightarrow>
                    (case for_loop 0 (m_iInstancesN s1) buildEmbreeScene_instBody (s1, sc) of
                       Inl e \<Rightarrow> Inl e
                     | Inr (s2, sc2) \<Rightarrow>
                         Inr (True,
                              s2\<lparr>m_embreeScene := Some (rtcCommitScene sc2),
                                 m_bTraceReady := True\<rparr>,
                              lg)))))"

definition commitScene ::
  "RenderScene \<Rightarrow> string list option \<Rightarrow> crash + bool \<times> RenderScene \<times> string list option" where
  "commitScene s lg =
     (if m_bTraceReady s then Inr (True, s, lg)
      else
        (case for_loop 0 (m_iMeshesN s) commitScene_meshBody (s, lg) of
           Inl e \<Rightarrow> Inl e
         | Inr (s1, log1) \<Rightarrow>
             (case for_loop 0 (m_iInstancesN s1) commitScene_instBody (s1, 0) of
                Inl e \<Rightarrow> Inl e
              | Inr (s2, falseInst) \<Rightarrow>
                  (let log2 = (if falseInst \<noteq> 0
                               then push_back log1 (to_string falseInst @ '' from '' @
                                      to_string (m_iInstancesN s2) @ '' instances are invalid'')
                               else log1)
                   in if falseInst = m_iInstancesN s2 then Inr (False, s2, log2)
                      else
                        (case for_loop 0 (m_iMaterialsN s2) commitScene_matBody s2 of
                           Inl e \<Rightarrow> Inl e
                         | Inr s3 \<Rightarrow>
                             (case for_loop 0 (m_iLightsN s3) commitScene_lightBody
                                     (s3\<lparr>m_lightsSampler :=
                                           setCount (m_iLightsN s3) (m_lightsSampler s3)\<rparr>) of
                                Inl e \<Rightarrow> Inl e
                              | Inr s4 \<Rightarrow>
                                  buildEmbreeScene
                                    (if m_iLightsN s4 > 0
                                     then s4\<lparr>m_lightsSampler := calculate (m_lightsSampler s4)\<rparr>
                                     else s4)
                                    log2))))))"

subsection \<open>sampleLight\<close>

fun rand :: "real list \<Rightarrow> (real \<times> real list) option" where
  "rand [] = None"
| "rand (r # rs) = Some (r, rs)"

definition sampleLight ::
  "RenderScene \<Rightarrow> real list \<Rightarrow> ((RenderLightPoint option \<times> real) \<times> real list) option" where
  "sampleLight s rs =
     (case rand rs of
        None \<Rightarrow> None
      | Some (r, rs') \<Rightarrow>
          (let i = getRandom (m_lightsSampler s) r;
               pdf = getPdf (m_lightsSampler s) i
           in Some ((if i \<ge> 0 then m_ppLights s ! nat i else None, pdf), rs')))"

subsection \<open>The cumulative distribution of the light powers\<close>

text \<open>
  \<open>light_cdf ls k\<close> is the sum \<open>p\<^sub>0 + \<dots> + p\<^sub>k\<close> of the powers of the lights \<open>ls\<close>, the
  value the specification calls \<open>CDF[k]\<close>; \<open>light_cdf_before ls k\<close> is \<open>CDF[k-1]\<close>, with
  \<open>CDF[-1] = 0\<close>.
\<close>

definition light_cdf :: "RenderLightPoint list \<Rightarrow> nat \<Rightarrow> real" where
  "light_cdf ls k = sum_list (map m_fPower (take (Suc k) ls))"

definition light_cdf_before :: "RenderLightPoint list \<Rightarrow> nat \<Rightarrow> real" where
  "light_cdf_before ls k = (if k = 0 then 0 else light_cdf ls (k - 1))"

definition total_power :: "RenderLightPoint list \<Rightarrow> real" where
  "total_power ls = sum_list (map m_fPower ls)"

definition committed_light :: "RenderLightPoint list \<Rightarrow> nat \<Rightarrow> RenderLightPoint" where
  \<comment> \<open>light \<open>k\<close> as commitScene leaves it: index and sampler set\<close>
  "committed_light ls k = (ls ! k)\<lparr>m_iIndex := int k, m_pSampler := True\<rparr>"

subsection \<open>Building a scene step by step\<close>

definition and_then :: "crash + 'a \<Rightarrow> ('a \<Rightarrow> crash + 'b) \<Rightarrow> crash + 'b" where
  "and_then r f = (case r of Inl e \<Rightarrow> Inl e | Inr x \<Rightarrow> f x)"

definition identity4 :: fmat where
  "identity4 = [[1, 0, 0, 0], [0, 1, 0, 0], [0, 0, 1, 0], [0, 0, 0, 1]]"

definition grey_light :: "real \<Rightarrow> RenderLightPoint" where
  \<comment> \<open>a point light at the origin with intensity \<open>(p, p, p)\<close>, hence power \<open>p\<close>\<close>
  "grey_light p = RenderLightPoint_set (0, 0, 0) (p, p, p) 100 RenderLightPoint_new"

definition one_triangle_scene :: "int \<Rightarrow> int \<Rightarrow> int \<Rightarrow> crash + RenderScene" where
  \<comment> \<open>one mesh of one triangle with material index \<open>matId\<close>, one instance of it,
      \<open>matN\<close> material slots and \<open>ligN\<close> light slots, on a working Embree device\<close>
  "one_triangle_scene matN ligN matId =
     and_then
       (and_then (allocate 1 1 matN 0 ligN (RenderScene_new (Some (RTCDevice True))))
          (setMesh 0 3 1 0 matId True False False []))
       (setInstance 0 identity4 0)"

definition three_lights :: "RenderLightPoint list" where
  "three_lights = [grey_light 1, grey_light 1, grey_light 2]"

definition three_lights_scene :: "crash + RenderScene" where
  "three_lights_scene =
     and_then
       (and_then
          (and_then (one_triangle_scene 0 3 (- 1)) (setLight 0 (Some (grey_light 1))))
          (setLight 1 (Some (grey_light 1))))
       (setLight 2 (Some (grey_light 2)))"

definition commit_nolog :: "crash + RenderScene \<Rightarrow> crash + bool \<times> RenderScene \<times> string list option" where
  \<comment> \<open>\<^verbatim>\<open>commitScene()\<close> with the default argument \<^verbatim>\<open>log = nullptr\<close>\<close>
  "commit_nolog r = and_then r (\<lambda>s. commitScene s None)"

definition commit_log :: "crash + RenderScene \<Rightarrow> crash + bool \<times> RenderScene \<times> string list option" where
  \<comment> \<open>\<^verbatim>\<open>commitScene(&log)\<close> with an empty list \<^verbatim>\<open>log\<close>\<close>
  "commit_log r = and_then r (\<lambda>s. commitScene s (Some []))"

definition commit_ok :: "crash + bool \<times> RenderScene \<times> string list option \<Rightarrow> bool" where
  \<comment> \<open>the call returned, and returned \<^verbatim>\<open>true\<close>\<close>
  "commit_ok r = (case r of Inl e \<Rightarrow> False | Inr x \<Rightarrow> fst x)"

definition commit_failed :: "crash + bool \<times> RenderScene \<times> string list option \<Rightarrow> bool" where
  \<comment> \<open>the call returned, and returned \<^verbatim>\<open>false\<close>\<close>
  "commit_failed r = (case r of Inl e \<Rightarrow> False | Inr x \<Rightarrow> \<not> fst x)"

definition commit_scene :: "crash + bool \<times> RenderScene \<times> string list option \<Rightarrow> RenderScene" where
  "commit_scene r = fst (snd (projr r))"

definition commit_log_of :: "crash + bool \<times> RenderScene \<times> string list option \<Rightarrow> string list option" where
  "commit_log_of r = snd (snd (projr r))"

definition null_material_scene :: "crash + RenderScene" where
  \<comment> \<open>one valid triangle mesh whose material index 0 is in range with nothing set in
      slot 0, and one instance that refers to the mesh index 5, which does not exist\<close>
  "null_material_scene =
     and_then
       (and_then (allocate 1 1 1 0 0 (RenderScene_new (Some (RTCDevice True))))
          (setMesh 0 3 1 0 0 True False False []))
       (setInstance 0 identity4 5)"

definition commit_again ::
  "crash + bool \<times> RenderScene \<times> string list option \<Rightarrow> crash + bool \<times> RenderScene \<times> string list option" where
  \<comment> \<open>a second \<^verbatim>\<open>commitScene(&log)\<close> on the scene and the log the first call left\<close>
  "commit_again r = and_then r (\<lambda>res. commitScene (fst (snd res)) (snd (snd res)))"


definition two_mesh_scene :: "crash + RenderScene" where
  \<comment> \<open>two meshes and no material: mesh 0 is a triangle with the material index 5, mesh 1
      is never set and stays as the constructor left it; one instance of mesh 0\<close>
  "two_mesh_scene =
     and_then
       (and_then (allocate 2 1 0 0 0 (RenderScene_new (Some (RTCDevice True))))
          (setMesh 0 3 1 0 5 True False False []))
       (setInstance 0 identity4 0)"

definition null_slot_scene :: "crash + RenderScene" where
  \<comment> \<open>one triangle whose material index 0 is in range with nothing set in slot 0, and
      one instance of it\<close>
  "null_slot_scene =
     and_then
       (and_then (allocate 1 1 1 0 0 (RenderScene_new (Some (RTCDevice True))))
          (setMesh 0 3 1 0 0 True False False []))
       (setInstance 0 identity4 0)"
subsection \<open>Sequences of public operations\<close>

datatype SceneOp =
    SetMesh int int int int int bool bool bool "bool list"
  | SetInstance int fmat int
  | SetMaterial int "RenderMaterial option"
  | SetLight int "RenderLightPoint option"
  | SetTexture int int int bool bool
  | SetBackground "Background option"
  | CommitScene "string list option"

fun apply_op :: "SceneOp \<Rightarrow> RenderScene \<Rightarrow> crash + RenderScene" where
  "apply_op (SetMesh meshId vertN facesN texN matId vert nrm tans tex) s =
     setMesh meshId vertN facesN texN matId vert nrm tans tex s"
| "apply_op (SetInstance instId transf meshId) s = setInstance instId transf meshId s"
| "apply_op (SetMaterial matId newMaterial) s = setMaterial matId newMaterial s"
| "apply_op (SetLight lightId newLight) s = setLight lightId newLight s"
| "apply_op (SetTexture texId tw th data copy) s = setTexture texId tw th data copy s"
| "apply_op (SetBackground b) s = Inr (setBackground b s)"
| "apply_op (CommitScene lg) s =
     (case commitScene s lg of Inl e \<Rightarrow> Inl e | Inr res \<Rightarrow> Inr (fst (snd res)))"

fun apply_ops :: "SceneOp list \<Rightarrow> RenderScene \<Rightarrow> crash + RenderScene" where
  "apply_ops [] s = Inr s"
| "apply_ops (x # xs) s = (case apply_op x s of Inl e \<Rightarrow> Inl e | Inr s' \<Rightarrow> apply_ops xs s')"

definition missing_material_at :: "RenderScene \<Rightarrow> int \<Rightarrow> bool" where
  \<comment> \<open>slot \<open>i\<close> of the material array holds a diffuse material of the missing-material colour\<close>
  "missing_material_at s i \<longleftrightarrow>
     (case at_index (m_ppMaterials s) i of
        Inr (Some rm) \<Rightarrow> mat_kind rm = DiffuseColorMaterial BDPT_MISSING_MATERIAL_COLOR
      | _ \<Rightarrow> False)"

definition example_ops :: "SceneOp list" where
  \<comment> \<open>what main.cpp does for one material, one light, one triangle and one instance,
      preceded by an attempt to overwrite the reserved slot\<close>
  "example_ops =
     [SetMaterial 1 None,
      SetMaterial 0 (Some (RenderMaterial_new OpenMaterial)),
      SetLight 0 (Some (grey_light 1)),
      SetMesh 0 3 1 0 0 True False False [],
      SetInstance 0 identity4 0,
      CommitScene None]"

subsection \<open>Material references of meshes, and what commitScene logs about them\<close>

definition material_in_range :: "RenderScene \<Rightarrow> RenderMesh \<Rightarrow> bool" where
  "material_in_range s m \<longleftrightarrow> 0 \<le> m_iMatId m \<and> m_iMatId m < m_iMaterialsN s"

definition material_null :: "RenderScene \<Rightarrow> RenderMesh \<Rightarrow> bool" where
  \<comment> \<open>an index in range whose slot holds no material\<close>
  "material_null s m \<longleftrightarrow>
     material_in_range s m \<and> at_index (m_ppMaterials s) (m_iMatId m) = Inr None"

definition material_unresolved :: "RenderScene \<Rightarrow> RenderMesh \<Rightarrow> bool" where
  "material_unresolved s m \<longleftrightarrow> material_null s m \<or> \<not> material_in_range s m"

definition undefined_material_message :: "nat \<Rightarrow> RenderMesh \<Rightarrow> string" where
  "undefined_material_message i m =
     to_string (int i) @ '' mesh refers to undefined material'' @ to_string (m_iMatId m)"

definition mesh_messages :: "RenderScene \<Rightarrow> nat \<Rightarrow> string list" where
  \<comment> \<open>the entries the first loop of commitScene appends for mesh \<open>i\<close>\<close>
  "mesh_messages s i =
     (let m = m_pMeshes s ! i in
      (if material_null s m then [undefined_material_message i m] else []) @
      (if isValid m then [] else [to_string (int i) @ '' mesh is inconsistent'']))"

definition mesh_committed :: "RenderScene \<Rightarrow> RenderMesh \<Rightarrow> RenderMesh" where
  \<comment> \<open>mesh \<open>m\<close> after its turn in the first loop of commitScene\<close>
  "mesh_committed s m =
     (if isValid m then
        (if material_unresolved s m then m\<lparr>m_iMatId := m_iMaterialsN s - 1\<rparr> else m)
          \<lparr>m_vNormalDef := True, m_bTangentDef := True\<rparr>
      else RenderMesh_reset)"

definition push_all :: "string list option \<Rightarrow> string list \<Rightarrow> string list option" where
  "push_all lg msgs = (case lg of None \<Rightarrow> None | Some l \<Rightarrow> Some (l @ msgs))"

definition instances_message :: "int \<Rightarrow> int \<Rightarrow> string" where
  "instances_message falseInst n =
     to_string falseInst @ '' from '' @ to_string n @ '' instances are invalid''"

subsection \<open>Scenes on which the loops of commitScene have nothing left to do\<close>

definition mesh_settled :: "RenderScene \<Rightarrow> RenderMesh \<Rightarrow> bool" where
  \<comment> \<open>a released mesh, or a valid one with normals and tangents whose material index
      is resolved or is the index of the missing-material slot\<close>
  "mesh_settled s m \<longleftrightarrow>
     m = RenderMesh_reset \<or>
     (isValid m \<and> m_vNormalDef m \<and> m_bTangentDef m \<and>
      (if material_in_range s m then
         (case at_index (m_ppMaterials s) (m_iMatId m) of
            Inl e \<Rightarrow> False
          | Inr None \<Rightarrow> m_iMatId m = m_iMaterialsN s - 1
          | Inr (Some rm) \<Rightarrow> True)
       else m_iMatId m = m_iMaterialsN s - 1))"

definition inst_settled :: "RenderScene \<Rightarrow> RenderInstance \<Rightarrow> bool" where
  \<comment> \<open>an instance marked invalid, or one of a valid mesh\<close>
  "inst_settled s ri \<longleftrightarrow>
     m_iMeshId ri = - 1 \<or>
     (0 \<le> m_iMeshId ri \<and> m_iMeshId ri < m_iMeshesN s \<and>
      (case at_index (m_pMeshes s) (m_iMeshId ri) of Inl e \<Rightarrow> False | Inr m \<Rightarrow> isValid m))"

definition invalid_instances :: "RenderScene \<Rightarrow> int \<Rightarrow> int" where
  \<comment> \<open>the number of instances marked invalid among the first \<open>j\<close>\<close>
  "invalid_instances s j =
     int (length (filter (\<lambda>ri. m_iMeshId ri = - 1) (take (nat j) (m_pInstances s))))"

definition mat_settled :: "RenderScene \<Rightarrow> RenderMaterial \<Rightarrow> bool" where
  \<comment> \<open>a material that has the textures and the sampler of the scene\<close>
  "mat_settled s rm \<longleftrightarrow>
     mat_pTextures rm = (m_pTextures s \<noteq> []) \<and> mat_iTexturesN rm = m_iTexturesN s \<and>
     mat_pSampler rm"

definition light_settled :: "int \<Rightarrow> RenderLightPoint \<Rightarrow> bool" where
  \<comment> \<open>a light that has its index and the sampler of the scene\<close>
  "light_settled i l \<longleftrightarrow> m_iIndex l = i \<and> m_pSampler l"

definition light_powers :: "RenderScene \<Rightarrow> real list" where
  \<comment> \<open>the powers of the lights, the weights \<^verbatim>\<open>commitScene\<close> hands to the sampler\<close>
  "light_powers s =
     map (\<lambda>k. case m_ppLights s ! k of None \<Rightarrow> 0 | Some l \<Rightarrow> m_fPower l)
       [0..<nat (m_iLightsN s)]"

section \<open>Bidirectional path tracer (BDPTRenderer.h, BDPTRenderer.cpp)\<close>

text \<open>
  What the renderer calls outside its own file is a parameter, collected in a record:
  the Embree intersection query, the interpolation of a mesh at a hit
  (\<^verbatim>\<open>RenderMesh::computeSurfacePoint\<close>), the virtual functions of the material found
  through the mesh of a surface point, and the radiance of the background. A traced ray
  is the Embree structure \<^verbatim>\<open>RTCRayHit\<close> without its unused fields (time, mask, id); an
  invalid geometry or instance id is \<open>None\<close>. The random numbers a material draws come
  from the same sequence as those of the scene's sampler.
\<close>

record RTCHit =
  hit_t :: real
  hit_geomID :: nat
  hit_instID :: nat
  hit_primID :: nat
  hit_u :: real
  hit_v :: real

record RTCRayHit =
  org :: fvec3
  dir :: fvec3
  tnear :: real
  tfar :: real
  geomID :: "nat option"
  instID :: "nat option"
  primID :: nat
  rh_u :: real
  rh_v :: real

record SurfacePoint =
  sp_pInst :: "nat option"
  sp_pMesh :: "nat option"
  sp_iFaceId :: int
  sp_position :: fvec3
  sp_normal :: fvec3
  sp_tangent :: "real \<times> real \<times> real \<times> real"
  sp_binormal :: fvec3
  sp_bary :: fvec3
  sp_bIsTexNorm :: bool

definition SurfacePoint_new :: SurfacePoint where
  \<comment> \<open>the default position is infinite in the source; it is never read before it is set\<close>
  "SurfacePoint_new =
     \<lparr>sp_pInst = None, sp_pMesh = None, sp_iFaceId = - 1, sp_position = (0, 0, 0),
      sp_normal = (0, 0, 0), sp_tangent = (0, 0, 0, 0), sp_binormal = (0, 0, 0),
      sp_bary = (0, 0, 0), sp_bIsTexNorm = False\<rparr>"

record BDPTPathPart =
  m_outRay :: fvec3
  m_surfPoint :: SurfacePoint
  m_outRad :: fvec3
  m_outFactor :: fvec3

definition BDPTPathPart_new :: BDPTPathPart where
  "BDPTPathPart_new =
     \<lparr>m_outRay = (0, 0, 0), m_surfPoint = SurfacePoint_new, m_outRad = (0, 0, 0),
      m_outFactor = (0, 0, 0)\<rparr>"

record TraceEnv =
  env_embree :: "fvec3 \<Rightarrow> fvec3 \<Rightarrow> real \<Rightarrow> real \<Rightarrow> RTCHit option"
  env_meshSurfacePoint :: "SurfacePoint \<Rightarrow> SurfacePoint"
  env_isMasked :: "SurfacePoint \<Rightarrow> bool"
  env_modifyFrame :: "SurfacePoint \<Rightarrow> SurfacePoint"
  env_getRayAndBrdf ::
    "fvec3 \<Rightarrow> SurfacePoint \<Rightarrow> bool \<Rightarrow> real list \<Rightarrow> (fvec3 \<times> fvec3 \<times> fvec3) \<times> real list"
  env_getBrdf :: "fvec3 \<Rightarrow> SurfacePoint \<Rightarrow> fvec3 \<Rightarrow> fvec3"
  env_background :: "fvec3 \<Rightarrow> fvec3"

record RendererParameters =
  cameraBouncesN :: int
  lightBouncesN :: int
  maxPathLength :: int
  rayCutPixValue :: real
  lightScaleValue :: real
  lightMinDistance :: real
  lightDistanceAttenuation :: int

definition RendererParameters_default :: RendererParameters where
  "RendererParameters_default =
     \<lparr>cameraBouncesN = 10, lightBouncesN = 10, maxPathLength = 8, rayCutPixValue = 2 / 1000,
      lightScaleValue = 100, lightMinDistance = 1 / 100, lightDistanceAttenuation = 1\<rparr>"

definition m_fEpsAcc :: real where
  "m_fEpsAcc = 3"

fun maxAbsInVector :: "fvec3 \<Rightarrow> real \<Rightarrow> real" where
  "maxAbsInVector (v0, v1, v2) th =
     (let va0 = \<bar>v0\<bar>; va1 = \<bar>v1\<bar>; va2 = \<bar>v2\<bar>;
          mv = (if va0 > va1 \<and> va0 > va2 then va0 else if va1 > va2 then va1 else va2)
      in if mv < th then th else mv)"

fun along :: "fvec3 \<Rightarrow> real \<Rightarrow> fvec3 \<Rightarrow> fvec3" where
  \<comment> \<open>\<^verbatim>\<open>o + t * d\<close>, component by component\<close>
  "along (o0, o1, o2) t (d0, d1, d2) = (o0 + t * d0, o1 + t * d1, o2 + t * d2)"

definition shiftRayAlongDirection :: "RTCRayHit \<Rightarrow> real \<Rightarrow> RTCRayHit" where
  "shiftRayAlongDirection ray epsScale =
     (let v = maxAbsInVector (org ray) 1;
          delta = epsScale * fEpsilon * v
      in ray\<lparr>org := along (org ray) delta (dir ray)\<rparr>)"

fun intensity :: "fvec3 \<Rightarrow> real" where
  "intensity (r0, r1, r2) = 299 / 1000 * r0 + 587 / 1000 * r1 + 114 / 1000 * r2"

definition setRay :: "fvec3 \<Rightarrow> fvec3 \<Rightarrow> RTCRayHit \<Rightarrow> real \<Rightarrow> RTCRayHit" where
  "setRay O' R rh epsShift =
     (let rh1 = shiftRayAlongDirection (rh\<lparr>org := O', dir := R\<rparr>) (m_fEpsAcc * epsShift)
      in rh1\<lparr>instID := None, geomID := None, tfar := FLT_MAX\<rparr>)"

definition RTCRayHit_zero :: RTCRayHit where
  \<comment> \<open>\<^verbatim>\<open>RTCRayHit rhit {}\<close>\<close>
  "RTCRayHit_zero =
     \<lparr>org = (0, 0, 0), dir = (0, 0, 0), tnear = 0, tfar = 0, geomID = Some 0,
      instID = Some 0, primID = 0, rh_u = 0, rh_v = 0\<rparr>"

definition rtcIntersect1 :: "TraceEnv \<Rightarrow> RTCRayHit \<Rightarrow> RTCRayHit" where
  \<comment> \<open>Embree updates the structure when it finds a hit and leaves it as it is otherwise\<close>
  "rtcIntersect1 env rhit =
     (case env_embree env (org rhit) (dir rhit) (tnear rhit) (tfar rhit) of
        None \<Rightarrow> rhit
      | Some h \<Rightarrow>
          rhit\<lparr>tfar := hit_t h, geomID := Some (hit_geomID h), instID := Some (hit_instID h),
               primID := hit_primID h, rh_u := hit_u h, rh_v := hit_v h\<rparr>)"

definition computeSurfacePoint :: "TraceEnv \<Rightarrow> RTCRayHit \<Rightarrow> SurfacePoint \<Rightarrow> SurfacePoint" where
  "computeSurfacePoint env hit sp =
     env_meshSurfacePoint env
       (sp\<lparr>sp_pMesh := geomID hit, sp_pInst := instID hit, sp_iFaceId := int (primID hit),
           sp_bary := (1 - rh_u hit - rh_v hit, rh_u hit, rh_v hit)\<rparr>)"

definition masked_margin :: "RTCRayHit \<Rightarrow> real" where
  \<comment> \<open>the \<^verbatim>\<open>delta\<close> of \<^verbatim>\<open>sceneIntersect\<close> behind a masked hit held in \<open>r1\<close>:
      \<^verbatim>\<open>org = ray.org + ray.tfar * ray.dir; v = maxAbsInVector(org);\<close>
      \<^verbatim>\<open>v = v > ray.tfar ? v : ray.tfar; delta = m_fEpsAcc * fEpsilon * v\<close>\<close>
  "masked_margin r1 =
     (let org' = along (org r1) (tfar r1) (dir r1);
          v = maxAbsInVector org' 1;
          v = (if v > tfar r1 then v else tfar r1)
      in m_fEpsAcc * fEpsilon * v)"

text \<open>
  \<^verbatim>\<open>sceneIntersect\<close>: the counter \<^verbatim>\<open>itr\<close> runs from \<^verbatim>\<open>maxItr = 10\<close> down to 0. The last
  component of the result lists the ray structures handed to \<^verbatim>\<open>rtcIntersect1\<close>, in
  order; the source does not keep this list.
\<close>

fun sceneIntersect_loop ::
  "TraceEnv \<Rightarrow> real \<Rightarrow> nat \<Rightarrow> RTCRayHit \<Rightarrow> SurfacePoint \<Rightarrow> RTCRayHit list \<Rightarrow>
   bool \<times> RTCRayHit \<times> SurfacePoint \<times> RTCRayHit list" where
  "sceneIntersect_loop env t1 0 rhit sp qs = (False, rhit, sp, qs)"
| "sceneIntersect_loop env t1 (Suc itr) rhit sp qs =
     (let r1 = rtcIntersect1 env rhit;
          qs1 = qs @ [rhit]
      in if geomID r1 = None then (False, r1, sp, qs1)
         else
           (let sp1 = computeSurfacePoint env r1 sp in
            if \<not> env_isMasked env sp1 then (True, r1, sp1, qs1)
            else
              (let delta = masked_margin r1;
                   r2 = r1\<lparr>tnear := tfar r1 + delta\<rparr>;
                   r3 = r2\<lparr>tfar := t1\<rparr>
               in if tfar r3 \<le> tnear r3 then (False, r3, sp1, qs1)
                  else sceneIntersect_loop env t1 itr r3 sp1 qs1)))"

definition maxItr :: nat where
  "maxItr = 10"

definition sceneIntersect ::
  "TraceEnv \<Rightarrow> RTCRayHit \<Rightarrow> SurfacePoint \<Rightarrow> bool \<times> RTCRayHit \<times> SurfacePoint \<times> RTCRayHit list" where
  "sceneIntersect env rhit sp = sceneIntersect_loop env (tfar rhit) maxItr rhit sp []"

definition computeLightAttenuation :: "RendererParameters \<Rightarrow> real \<Rightarrow> real \<Rightarrow> real" where
  "computeLightAttenuation params d attD =
     (if attD \<ge> FLT_MAX then
        (let d = (if d < lightMinDistance params then lightMinDistance params else d) in
         if lightDistanceAttenuation params = 1 then 1 / d
         else if lightDistanceAttenuation params = 2 then 1 / (d * d)
         else 1)
      else
        (let rD = max (1 - d / attD) 0 in
         if lightDistanceAttenuation params = 1 then rD
         else if lightDistanceAttenuation params = 2 then sqrt rD
         else if d < attD then 1 else 0))"

subsection \<open>Queries of one sceneIntersect call\<close>

definition advanced_past :: "TraceEnv \<Rightarrow> real \<Rightarrow> RTCRayHit \<Rightarrow> RTCRayHit \<Rightarrow> bool" where
  \<comment> \<open>query \<open>q'\<close> is query \<open>q\<close> after its hit, with \<open>tnear\<close> set to the hit distance plus
      the margin and \<open>tfar\<close> set back to the far end \<open>t1\<close> of the ray\<close>
  "advanced_past env t1 q q' \<longleftrightarrow>
     (let r1 = rtcIntersect1 env q
      in q' = r1\<lparr>tnear := tfar r1 + masked_margin r1, tfar := t1\<rparr> \<and>
         tfar r1 < tnear q')"

fun chained :: "TraceEnv \<Rightarrow> real \<Rightarrow> RTCRayHit list \<Rightarrow> bool" where
  "chained env t1 (q # q' # qs) \<longleftrightarrow> advanced_past env t1 q q' \<and> chained env t1 (q' # qs)"
| "chained env t1 qs \<longleftrightarrow> True"

definition two_sheets :: TraceEnv where
  \<comment> \<open>along any ray: a sheet of mesh 0 at distance 1, whose material is masked, and a
      sheet of mesh 1 at distance 2; materials reflect straight back, black background\<close>
  "two_sheets =
     \<lparr>env_embree = (\<lambda>org dir tnear tfar.
        if tnear \<le> 1 \<and> 1 \<le> tfar
        then Some \<lparr>hit_t = 1, hit_geomID = 0, hit_instID = 0, hit_primID = 0, hit_u = 0, hit_v = 0\<rparr>
        else if tnear \<le> 2 \<and> 2 \<le> tfar
        then Some \<lparr>hit_t = 2, hit_geomID = 1, hit_instID = 1, hit_primID = 0, hit_u = 0, hit_v = 0\<rparr>
        else None),
      env_meshSurfacePoint = (\<lambda>sp. sp),
      env_isMasked = (\<lambda>sp. sp_pMesh sp = Some 0),
      env_modifyFrame = (\<lambda>sp. sp),
      env_getRayAndBrdf = (\<lambda>inV sp invd rs. ((inV, (1, 1, 1), (0, 0, 0)), rs)),
      env_getBrdf = (\<lambda>inV sp outV. (1, 1, 1)),
      env_background = (\<lambda>d. (0, 0, 0))\<rparr>"

definition unit_ray :: RTCRayHit where
  \<comment> \<open>a ray from the origin along z as \<^verbatim>\<open>setRay\<close> leaves it, up to the shift of the origin\<close>
  "unit_ray = RTCRayHit_zero\<lparr>dir := (0, 0, 1), geomID := None, instID := None, tfar := FLT_MAX\<rparr>"

definition two_bounces :: RendererParameters where
  "two_bounces = RendererParameters_default\<lparr>cameraBouncesN := 2, lightBouncesN := 2\<rparr>"


definition minus_one_bounce :: RendererParameters where
  \<comment> \<open>the parameters after the command line option \<^verbatim>\<open>-B -1\<close>\<close>
  "minus_one_bounce = RendererParameters_default\<lparr>cameraBouncesN := - 1\<rparr>"
subsection \<open>computePath\<close>

fun times3 :: "fvec3 \<Rightarrow> fvec3 \<Rightarrow> fvec3" where
  "times3 (a0, a1, a2) (b0, b1, b2) = (a0 * b0, a1 * b1, a2 * b2)"

fun plus3 :: "fvec3 \<Rightarrow> fvec3 \<Rightarrow> fvec3" where
  "plus3 (a0, a1, a2) (b0, b1, b2) = (a0 + b0, a1 + b1, a2 + b2)"

fun minus3 :: "fvec3 \<Rightarrow> fvec3 \<Rightarrow> fvec3" where
  "minus3 (a0, a1, a2) (b0, b1, b2) = (a0 - b0, a1 - b1, a2 - b2)"

fun negate3 :: "fvec3 \<Rightarrow> fvec3" where
  "negate3 (a0, a1, a2) = (- a0, - a1, - a2)"

text \<open>
  The state of the loop of \<^verbatim>\<open>computePath\<close>: the path buffer \<open>P\<close>, the ray structure
  (which the loop reuses from one segment to the next), the radiance \<open>Rad\<close>, the
  attenuation term, the count \<open>n\<close> and the random numbers left. One pass through the
  body either leaves the loop by \<^verbatim>\<open>break\<close> (\<open>Inl\<close>: with \<open>sceneExit\<close> set when the scene
  is left, without it when the intensity of a light path falls below the cut-off) or
  goes on with the next \<open>i\<close> (\<open>Inr\<close>).
\<close>

type_synonym path_state = "BDPTPathPart list \<times> RTCRayHit \<times> fvec3 \<times> real \<times> int \<times> real list"

type_synonym path_result = "bool \<times> BDPTPathPart list \<times> fvec3 \<times> int \<times> real list"

definition computePath_body ::
  "TraceEnv \<Rightarrow> RendererParameters \<Rightarrow> bool \<Rightarrow> real \<Rightarrow> int \<Rightarrow> path_state \<Rightarrow>
   crash + (path_result + path_state)" where
  "computePath_body env params invd attD i st =
     (case st of (P, rhit, Rad, rDterm, n, rs) \<Rightarrow>
        (case at_index P (i - 1) of
           Inl e \<Rightarrow> Inl e
         | Inr prev \<Rightarrow>
             (case at_index P i of
                Inl e \<Rightarrow> Inl e
              | Inr cur \<Rightarrow>
                  (let rhit1 = setRay (sp_position (m_surfPoint prev)) (m_outRay prev) rhit 1;
                       res = sceneIntersect env rhit1 (m_surfPoint cur);
                       rhit2 = fst (snd res);
                       sp = fst (snd (snd res))
                   in if \<not> fst res
                      then Inr (Inl (True, P[nat i := cur\<lparr>m_surfPoint := sp\<rparr>], Rad, n, rs))
                      else
                        (let sp' = env_modifyFrame env sp;
                             sampled = env_getRayAndBrdf env (m_outRay prev) sp' invd rs;
                             outRay = fst (fst sampled);
                             brdf = fst (snd (fst sampled));
                             erad = snd (snd (fst sampled));
                             rs' = snd sampled;
                             ct = \<bar>if invd then dot3 outRay (sp_normal sp')
                                   else dot3 (m_outRay prev) (sp_normal sp')\<bar>;
                             factor = times3 (times3 (m_outFactor prev) brdf) (ct, ct, ct)
                         in if invd then
                              Inr (Inr (P[nat i := \<lparr>m_outRay = outRay, m_surfPoint = sp',
                                                     m_outRad = (0, 0, 0), m_outFactor = factor\<rparr>],
                                        rhit2, plus3 Rad (times3 factor erad), rDterm, n + 1, rs'))
                            else
                              (let rDterm' =
                                     (if i = 1
                                      then computeLightAttenuation params
                                             (distance3 (sp_position sp')
                                                (sp_position (m_surfPoint prev))) attD
                                      else rDterm);
                                   outRad = times3 (times3 factor Rad) (rDterm', rDterm', rDterm');
                                   P' = P[nat i := \<lparr>m_outRay = outRay, m_surfPoint = sp',
                                                     m_outRad = outRad, m_outFactor = factor\<rparr>];
                                   curInt = intensity outRad
                               in if curInt < rayCutPixValue params
                                  then Inr (Inl (False, P', Rad, n, rs'))
                                  else Inr (Inr (P', rhit2, Rad, rDterm', n + 1, rs'))))))))"

function computePath_loop ::
  "TraceEnv \<Rightarrow> RendererParameters \<Rightarrow> bool \<Rightarrow> real \<Rightarrow> int \<Rightarrow> int \<Rightarrow> path_state \<Rightarrow>
   crash + path_result" where
  "computePath_loop env params invd attD max_n i st =
     (if i < max_n then
        (case computePath_body env params invd attD i st of
           Inl e \<Rightarrow> Inl e
         | Inr (Inl res) \<Rightarrow> Inr res
         | Inr (Inr st') \<Rightarrow> computePath_loop env params invd attD max_n (i + 1) st')
      else (case st of (P, rhit, Rad, rDterm, n, rs) \<Rightarrow> Inr (False, P, Rad, n, rs)))"
  by pat_completeness auto
termination
  by (relation "measure (\<lambda>(env, params, invd, attD, max_n, i, st). nat (max_n - i))") auto

declare computePath_loop.simps [simp del]

definition computePath ::
  "TraceEnv \<Rightarrow> RendererParameters \<Rightarrow> BDPTPathPart list \<Rightarrow> int \<Rightarrow> fvec3 \<Rightarrow> fvec3 \<Rightarrow> fvec3 \<Rightarrow>
   bool \<Rightarrow> real \<Rightarrow> real list \<Rightarrow> crash + path_result" where
  \<comment> \<open>the result is \<open>(sceneExit, P, Rad, n, rs)\<close>\<close>
  "computePath env params P max_n O' R Rad invd attD rs =
     (case at_index P 0 of
        Inl e \<Rightarrow> Inl e
      | Inr p0 \<Rightarrow>
          (let rhit = RTCRayHit_zero\<lparr>tnear := 0\<rparr>;
               P0 = P[0 := \<lparr>m_outRay = R,
                             m_surfPoint = (m_surfPoint p0)\<lparr>sp_pInst := None, sp_position := O'\<rparr>,
                             m_outRad = Rad, m_outFactor = (1, 1, 1)\<rparr>]
           in computePath_loop env params invd attD max_n 1 (P0, rhit, Rad, 1, 1, rs)))"

definition allocatePathBufs :: "int \<Rightarrow> int \<Rightarrow> crash + BDPTPathPart list \<times> BDPTPathPart list" where
  \<comment> \<open>the camera and the light buffer of one thread\<close>
  "allocatePathBufs cpn lpn =
     (if cpn + lpn < 0 then Inl BadArrayNewLength
      else Inr (replicate (nat cpn) BDPTPathPart_new, replicate (nat lpn) BDPTPathPart_new))"

subsection \<open>isConnected, tryComputeLightPath and computePaths\<close>

fun divide3 :: "fvec3 \<Rightarrow> real \<Rightarrow> fvec3" where
  "divide3 (a0, a1, a2) len = (a0 / len, a1 / len, a2 / len)"

fun increaseRadiance :: "fvec3 \<Rightarrow> fvec3 \<Rightarrow> real \<Rightarrow> fvec3" where
  \<comment> \<open>\<^verbatim>\<open>rad[i] = linearFunction(rad_inc[i], rad[i], kf) = rad_inc[i] * kf + rad[i]\<close>\<close>
  "increaseRadiance (r0, r1, r2) (i0, i1, i2) kf = (i0 * kf + r0, i1 * kf + r1, i2 * kf + r2)"

definition isConnected :: "TraceEnv \<Rightarrow> fvec3 \<Rightarrow> fvec3 \<Rightarrow> bool" where
  "isConnected env A B =
     (let dir0 = minus3 B A;
          len = length3 dir0;
          maxsz = maxAbsInVector A 1;
          safeD = 2 * m_fEpsAcc * fEpsilon * maxsz
      in if len \<le> safeD then True
         else
           (let dir1 = divide3 dir0 len;
                rhit = RTCRayHit_zero\<lparr>tnear := safeD\<rparr>;
                rhit1 = setRay A dir1 rhit 0;
                rhit2 = rhit1\<lparr>tfar := len + (if 1 / 10 * len > safeD then 1 / 10 * len else safeD)\<rparr>;
                res = sceneIntersect env rhit2 SurfacePoint_new
            in if \<not> fst res then True
               else
                 (let sp = fst (snd (snd res));
                      sd = squareDistance3 (sp_position sp) B;
                      maxsz = maxAbsInVector B 1;
                      safeD = 10 * fEpsilon * maxsz
                  in if sd \<le> safeD * safeD then True else False)))"

definition getRadianceAlongRay :: "RenderLightPoint \<Rightarrow> fvec3 \<Rightarrow> real \<times> fvec3" where
  \<comment> \<open>the pdf and the radiance\<close>
  "getRadianceAlongRay L R = (1 / (4 * M_PIf), m_intensity L)"

definition getAttenuationDistance :: "RenderLightPoint \<Rightarrow> real" where
  "getAttenuationDistance L = m_fRange L"

definition tryComputeLightPath ::
  "RenderScene \<Rightarrow> TraceEnv \<Rightarrow> RendererParameters \<Rightarrow> BDPTPathPart list \<Rightarrow> int \<Rightarrow> real list \<Rightarrow>
   crash + RenderLightPoint option \<times> int \<times> BDPTPathPart list \<times> real list" where
  \<comment> \<open>the result is the light, \<open>len\<close>, the light buffer and the random numbers left\<close>
  "tryComputeLightPath scene env params LP len rs =
     (case sampleLight scene rs of
        None \<Rightarrow> Inl RandomStreamEnd
      | Some sampled \<Rightarrow>
          (case fst (fst sampled) of
             None \<Rightarrow> Inr (None, len, LP, snd sampled)
           | Some L \<Rightarrow>
               (case getRandomRay L (snd sampled) of
                  None \<Rightarrow> Inl RandomStreamEnd
                | Some drawn \<Rightarrow>
                    (let ray = fst drawn;
                         radiance = Scalef (lightScaleValue params) (ray_radiance ray)
                     in case computePath env params LP (lightBouncesN params + 1)
                               (ray_O ray) (ray_R ray) radiance False
                               (getAttenuationDistance L) (snd drawn) of
                          Inl e \<Rightarrow> Inl e
                        | Inr res \<Rightarrow>
                            Inr (Some L, fst (snd (snd (snd res))), fst (snd res),
                                 snd (snd (snd (snd res))))))))"

text \<open>
  The loops that connect the light path with the camera path. The state of the inner
  loop is the pixel radiance, the vector \<^verbatim>\<open>lRad\<close> and, kept by the model only, the list
  of the terms \<^verbatim>\<open>lcRad\<close> that have been added to the radiance.
\<close>

definition connect_body ::
  "TraceEnv \<Rightarrow> RendererParameters \<Rightarrow> RenderLightPoint \<Rightarrow> BDPTPathPart list \<Rightarrow> int \<Rightarrow> fvec3 \<Rightarrow>
   int \<Rightarrow> fvec3 \<times> fvec3 \<times> fvec3 list \<Rightarrow> crash + fvec3 \<times> fvec3 \<times> fvec3 list" where
  "connect_body env params lpsource CP i lPos j st =
     (case st of (radiance, lRad, added) \<Rightarrow>
        (case at_index CP j of
           Inl e \<Rightarrow> Inl e
         | Inr cpj \<Rightarrow>
             (case at_index CP (j - 1) of
                Inl e \<Rightarrow> Inl e
              | Inr cpj1 \<Rightarrow>
                  (let cPos = sp_position (m_surfPoint cpj);
                       LC_dir = normalize3 (minus3 cPos lPos);
                       lRad1 =
                         (if i = 0 then
                            (let lr = snd (getRadianceAlongRay lpsource LC_dir);
                                 lsc = computeLightAttenuation params (distance3 cPos lPos)
                                         (getAttenuationDistance lpsource)
                             in Scalef (lightScaleValue params * lsc) lr)
                          else lRad);
                       c = \<bar>dot3 LC_dir (sp_normal (m_surfPoint cpj))\<bar>;
                       lcRad = times3 (Scalef c lRad1) (m_outFactor cpj1)
                   in if intensity lcRad < rayCutPixValue params then Inr (radiance, lRad1, added)
                      else
                        (let outV = negate3 (m_outRay cpj1);
                             brdf = Scalef c (env_getBrdf env LC_dir (m_surfPoint cpj) outV);
                             lcRad = times3 (times3 brdf (m_outFactor cpj1)) lRad1
                         in if intensity lcRad < rayCutPixValue params
                            then Inr (radiance, lRad1, added)
                            else if \<not> isConnected env lPos cPos then Inr (radiance, lRad1, added)
                            else Inr (increaseRadiance radiance lcRad 1, lRad1, added @ [lcRad]))))))"

function connect_inner ::
  "TraceEnv \<Rightarrow> RendererParameters \<Rightarrow> RenderLightPoint \<Rightarrow> BDPTPathPart list \<Rightarrow> int \<Rightarrow> int \<Rightarrow>
   fvec3 \<Rightarrow> int \<Rightarrow> fvec3 \<times> fvec3 \<times> fvec3 list \<Rightarrow> crash + fvec3 \<times> fvec3 \<times> fvec3 list" where
  "connect_inner env params lpsource CP cp_len i lPos j st =
     (if j < cp_len \<and> i + j \<le> maxPathLength params then
        (case connect_body env params lpsource CP i lPos j st of
           Inl e \<Rightarrow> Inl e
         | Inr st' \<Rightarrow> connect_inner env params lpsource CP cp_len i lPos (j + 1) st')
      else Inr st)"
  by pat_completeness auto
termination
  by (relation "measure (\<lambda>(env, params, lpsource, CP, cp_len, i, lPos, j, st). nat (cp_len - j))")
    auto

declare connect_inner.simps [simp del]

definition connect_outer_body ::
  "TraceEnv \<Rightarrow> RendererParameters \<Rightarrow> RenderLightPoint \<Rightarrow> BDPTPathPart list \<Rightarrow> int \<Rightarrow>
   BDPTPathPart list \<Rightarrow> int \<Rightarrow> fvec3 \<times> fvec3 list \<Rightarrow> crash + fvec3 \<times> fvec3 list" where
  "connect_outer_body env params lpsource CP cp_len LP i st =
     (case at_index LP i of
        Inl e \<Rightarrow> Inl e
      | Inr lpi \<Rightarrow>
          (case connect_inner env params lpsource CP cp_len i (sp_position (m_surfPoint lpi)) 1
                  (fst st, m_outRad lpi, snd st) of
             Inl e \<Rightarrow> Inl e
           | Inr st' \<Rightarrow> Inr (fst st', snd (snd st'))))"

record PathsResult =
  res_radiance :: fvec3
  res_camRay_O :: fvec3
  res_camRay_R :: fvec3
  res_totalPN :: int
  res_emitted :: fvec3
  res_background :: "fvec3 option"
  res_connections :: "fvec3 list"
  res_CP :: "BDPTPathPart list"
  res_LP :: "BDPTPathPart list"
  res_rs :: "real list"

text \<open>
  \<^verbatim>\<open>computePaths\<close> for one thread. Besides the radiance and the ray handed back to the
  sensor, the result records the divisor \<^verbatim>\<open>totalPN\<close> and the three kinds of terms the
  radiance is the sum of: what the camera path collected from emissive surfaces, the
  background term if there is one, and the connection terms.
\<close>

definition computePaths ::
  "RenderScene \<Rightarrow> TraceEnv \<Rightarrow> RendererParameters \<Rightarrow> fvec3 \<Rightarrow> fvec3 \<Rightarrow>
   BDPTPathPart list \<Rightarrow> BDPTPathPart list \<Rightarrow> real list \<Rightarrow> crash + PathsResult" where
  "computePaths scene env params O' R CP LP rs =
     (case (if m_iLightsN scene > 0 then tryComputeLightPath scene env params LP 0 rs
            else Inr (None, 0, LP, rs)) of
        Inl e \<Rightarrow> Inl e
      | Inr lightPath \<Rightarrow>
          (let lpsource = fst lightPath;
               lp_len = fst (snd lightPath);
               LP1 = fst (snd (snd lightPath));
               rs1 = snd (snd (snd lightPath))
           in case computePath env params CP (cameraBouncesN params + 1) O' R (0, 0, 0) True
                     FLT_MAX rs1 of
                Inl e \<Rightarrow> Inl e
              | Inr camPath \<Rightarrow>
                  (let cp_exit = fst camPath;
                       CP1 = fst (snd camPath);
                       radiance1 = fst (snd (snd camPath));
                       cp_len = fst (snd (snd (snd camPath)));
                       rs2 = snd (snd (snd (snd camPath)))
                   in case (if cp_len = 1 then Inr (plus3 O' R)
                            else (case at_index CP1 1 of
                                    Inl e \<Rightarrow> Inl e
                                  | Inr p \<Rightarrow> Inr (sp_position (m_surfPoint p)))) of
                        Inl e \<Rightarrow> Inl e
                      | Inr camO \<Rightarrow>
                          (case (if cp_exit \<and> m_pBackground scene \<noteq> None \<and>
                                    cp_len \<le> maxPathLength params
                                 then (case at_index CP1 (cp_len - 1) of
                                         Inl e \<Rightarrow> Inl e
                                       | Inr p \<Rightarrow>
                                           (let bgRad = times3 (env_background env (m_outRay p))
                                                          (m_outFactor p)
                                            in Inr (increaseRadiance radiance1 bgRad 1, 1,
                                                    Some bgRad)))
                                 else if intensity radiance1 > fEpsilon
                                 then Inr (radiance1, 1, None)
                                 else Inr (radiance1, 0, None)) of
                             Inl e \<Rightarrow> Inl e
                           | Inr counted \<Rightarrow>
                               (let radiance2 = fst counted;
                                    totalPN = fst (snd counted) :: int;
                                    bg = snd (snd counted)
                                in case (case lpsource of
                                           None \<Rightarrow> Inr (radiance2, [])
                                         | Some L \<Rightarrow>
                                             for_loop 0 lp_len
                                               (connect_outer_body env params L CP1 cp_len LP1)
                                               (radiance2, [])) of
                                     Inl e \<Rightarrow> Inl e
                                   | Inr conn \<Rightarrow>
                                       (let scale = (if totalPN \<noteq> 0 then 1 / real_of_int totalPN
                                                     else 1)
                                        in Inr \<lparr>res_radiance = Scalef scale (fst conn),
                                                res_camRay_O = camO,
                                                res_camRay_R = negate3 R,
                                                res_totalPN = totalPN,
                                                res_emitted = radiance1,
                                                res_background = bg,
                                                res_connections = snd conn,
                                                res_CP = CP1, res_LP = LP1,
                                                res_rs = rs2\<rparr>))))))"

subsection \<open>The average the specification describes\<close>

fun sum3 :: "fvec3 list \<Rightarrow> fvec3" where
  "sum3 [] = (0, 0, 0)"
| "sum3 (x # xs) = plus3 x (sum3 xs)"

definition contributing_terms :: "PathsResult \<Rightarrow> fvec3 list" where
  \<comment> \<open>the background hit, the emissive surfaces hit by the camera path, and every
      accepted connection of a light vertex with a camera vertex\<close>
  "contributing_terms res =
     (case res_background res of None \<Rightarrow> [] | Some bg \<Rightarrow> [bg]) @
     (if intensity (res_emitted res) > fEpsilon then [res_emitted res] else []) @
     res_connections res"

definition averaged_radiance :: "PathsResult \<Rightarrow> fvec3" where
  \<comment> \<open>the sum of the contributing terms divided by their number\<close>
  "averaged_radiance res =
     (if contributing_terms res = [] then (0, 0, 0)
      else Scalef (1 / real (length (contributing_terms res))) (sum3 (contributing_terms res)))"

subsection \<open>A triangle under a lamp\<close>

definition lamp :: RenderLightPoint where
  \<comment> \<open>a point light of power 1 and range 4, two units above the triangle\<close>
  "lamp = RenderLightPoint_set (1 / 4, 1 / 4, 2) (1, 1, 1) 4 RenderLightPoint_new"

definition lit_scene :: "crash + RenderScene" where
  \<comment> \<open>one mesh of one triangle, the light \<open>lamp\<close> and a background\<close>
  "lit_scene =
     and_then (and_then (one_triangle_scene 0 1 (- 1)) (setLight 0 (Some lamp)))
       (\<lambda>s. Inr (setBackground (Some (HDRBackground ''sky'')) s))"

definition floor_env :: TraceEnv where
  \<comment> \<open>the triangle with the corners \<open>(0, 0, 0)\<close>, \<open>(1, 0, 0)\<close> and \<open>(0, 1, 0)\<close> seen from
      above; its material reflects a ray straight back with the value one half and emits
      nothing, and the background has radiance one in every direction\<close>
  "floor_env =
     \<lparr>env_embree = (\<lambda>org dir tnear tfar.
        case org of (ox, oy, oz) \<Rightarrow>
        case dir of (dx, dy, dz) \<Rightarrow>
          if dz < 0 \<and> oz > 0 \<and> tnear \<le> oz / (- dz) \<and> oz / (- dz) \<le> tfar \<and>
             0 \<le> ox + oz / (- dz) * dx \<and> 0 \<le> oy + oz / (- dz) * dy \<and>
             ox + oz / (- dz) * dx + (oy + oz / (- dz) * dy) \<le> 1
          then Some \<lparr>hit_t = oz / (- dz), hit_geomID = 0, hit_instID = 0, hit_primID = 0,
                     hit_u = ox + oz / (- dz) * dx, hit_v = oy + oz / (- dz) * dy\<rparr>
          else None),
      env_meshSurfacePoint = (\<lambda>sp.
        sp\<lparr>sp_position := (fst (snd (sp_bary sp)), snd (snd (sp_bary sp)), 0),
           sp_normal := (0, 0, 1)\<rparr>),
      env_isMasked = (\<lambda>sp. False),
      env_modifyFrame = (\<lambda>sp. sp),
      env_getRayAndBrdf = (\<lambda>inV sp invd rs. ((negate3 inV, (1 / 2, 1 / 2, 1 / 2), (0, 0, 0)), rs)),
      env_getBrdf = (\<lambda>inV sp outV. (1 / 2, 1 / 2, 1 / 2)),
      env_background = (\<lambda>d. (1, 1, 1))\<rparr>"

definition lamp_committed :: RenderLightPoint where
  \<comment> \<open>the light as \<^verbatim>\<open>commitScene\<close> leaves it, with its index and the sampler of the scene\<close>
  "lamp_committed = lamp\<lparr>m_iIndex := 0, m_pSampler := True\<rparr>"

definition light_vertex :: BDPTPathPart where
  "light_vertex =
     \<lparr>m_outRay = (0, 3 / 5, 4 / 5), m_surfPoint = SurfacePoint_new\<lparr>sp_position := (1 / 4, 1 / 4, 2)\<rparr>,
      m_outRad = (100, 100, 100), m_outFactor = (1, 1, 1)\<rparr>"

definition camera_vertices :: "BDPTPathPart list" where
  "camera_vertices =
     [\<lparr>m_outRay = (0, 0, - 1), m_surfPoint = SurfacePoint_new\<lparr>sp_position := (1 / 4, 1 / 4, 1)\<rparr>,
       m_outRad = (0, 0, 0), m_outFactor = (1, 1, 1)\<rparr>,
      \<lparr>m_outRay = (0, 0, 1),
       m_surfPoint =
         \<lparr>sp_pInst = Some 0, sp_pMesh = Some 0, sp_iFaceId = 0, sp_position = (1 / 4, 1 / 4, 0),
          sp_normal = (0, 0, 1), sp_tangent = (0, 0, 0, 0), sp_binormal = (0, 0, 0),
          sp_bary = (1 / 2, 1 / 4, 1 / 4), sp_bIsTexNorm = False\<rparr>,
       m_outRad = (0, 0, 0), m_outFactor = (1 / 2, 1 / 2, 1 / 2)\<rparr>,
      BDPTPathPart_new]"

section \<open>Properties of the vector kernel\<close>

lemma length3_eq_0_iff: "length3 a = 0 \<longleftrightarrow> a = (0, 0, 0)"
proof (cases a)
  case (fields a0 a1 a2)
  have "a0 * a0 + a1 * a1 + a2 * a2 = 0 \<longleftrightarrow> a0 = 0 \<and> a1 = 0 \<and> a2 = 0"
  proof
    assume h: "a0 * a0 + a1 * a1 + a2 * a2 = 0"
    have "0 \<le> a0 * a0" "0 \<le> a1 * a1" "0 \<le> a2 * a2" by simp_all
    with h have "a0 * a0 = 0" "a1 * a1 = 0" "a2 * a2 = 0" by linarith+
    then show "a0 = 0 \<and> a1 = 0 \<and> a2 = 0" by simp
  qed simp
  with fields show ?thesis by simp
qed

lemma length3_Scalef_unit:
  assumes "0 < a0 * a0 + a1 * a1 + a2 * a2"
  shows "length3 (Scalef (1 / sqrt (a0 * a0 + a1 * a1 + a2 * a2)) (a0, a1, a2)) = 1"
proof -
  define s where "s = a0 * a0 + a1 * a1 + a2 * a2"
  define k where "k = 1 / sqrt s"
  have spos: "0 < s" using assms by (simp add: s_def)
  have kk: "k * k = 1 / s"
    using spos by (simp add: k_def)
  have "a0 * k * (a0 * k) + a1 * k * (a1 * k) + a2 * k * (a2 * k) = s * (k * k)"
    by (simp add: s_def algebra_simps)
  also have "\<dots> = 1" using spos kk by simp
  finally show ?thesis by (simp add: s_def [symmetric] k_def [symmetric])
qed

subsection \<open>Results of float operations\<close>

lemma FLT_TRUE_MIN_pos: "0 < FLT_TRUE_MIN"
  by (simp add: FLT_TRUE_MIN_def)

lemma round_to_even_error: "\<bar>of_int (round_to_even x) - x\<bar> \<le> 1 / 2"
proof -
  have "of_int \<lfloor>x\<rfloor> \<le> x" "x < of_int \<lfloor>x\<rfloor> + 1" by linarith+
  then show ?thesis
    by (auto simp add: round_to_even_def Let_def)
qed

lemma round_to_even_nonneg: "0 \<le> x \<Longrightarrow> 0 \<le> round_to_even x"
  by (auto simp add: round_to_even_def Let_def)

lemma float_result_error:
  assumes "float_result x = Some y"
  shows "\<bar>y - x\<bar> \<le> FLT_TRUE_MIN / 2"
proof (cases "\<bar>x\<bar> < FLT_MIN")
  case True
  define r where "r = round_to_even (x / FLT_TRUE_MIN)"
  from True assms have y: "y = of_int r * FLT_TRUE_MIN"
    by (auto simp add: float_result_def r_def split: if_splits)
  have "\<bar>of_int r - x / FLT_TRUE_MIN\<bar> \<le> 1 / 2"
    unfolding r_def by (rule round_to_even_error)
  then have "\<bar>of_int r - x / FLT_TRUE_MIN\<bar> * FLT_TRUE_MIN \<le> (1 / 2) * FLT_TRUE_MIN"
    using FLT_TRUE_MIN_pos by (intro mult_right_mono) simp_all
  moreover have "y - x = (of_int r - x / FLT_TRUE_MIN) * FLT_TRUE_MIN"
    using FLT_TRUE_MIN_pos by (simp add: y field_simps)
  then have "\<bar>y - x\<bar> = \<bar>of_int r - x / FLT_TRUE_MIN\<bar> * FLT_TRUE_MIN"
    using FLT_TRUE_MIN_pos by (simp add: abs_mult)
  ultimately show ?thesis by simp
next
  case False
  with assms have "y = x" by (auto simp add: float_result_def split: if_splits)
  then show ?thesis using FLT_TRUE_MIN_pos by simp
qed

lemma float_result_finite:
  assumes "\<bar>x\<bar> < FLT_OVERFLOW"
  shows "\<exists>y. float_result x = Some y"
proof -
  have "float_result x \<noteq> None"
    using assms by (simp add: float_result_def)
  then show ?thesis by (cases "float_result x") simp_all
qed

lemma float_result_nonneg:
  assumes "float_result x = Some y" and "0 \<le> x"
  shows "0 \<le> y"
proof (cases "\<bar>x\<bar> < FLT_MIN")
  case True
  with assms have y: "y = of_int (round_to_even (x / FLT_TRUE_MIN)) * FLT_TRUE_MIN"
    by (auto simp add: float_result_def split: if_splits)
  have "0 \<le> round_to_even (x / FLT_TRUE_MIN)"
    using assms(2) FLT_TRUE_MIN_pos by (intro round_to_even_nonneg) simp
  then show ?thesis using FLT_TRUE_MIN_pos by (simp add: y)
next
  case False
  with assms show ?thesis by (auto simp add: float_result_def split: if_splits)
qed

lemma float_result_0 [simp]: "float_result 0 = Some 0"
  by (simp add: float_result_def round_to_even_def FLT_OVERFLOW_def FLT_MIN_def)

lemma float_result_normal:
  "FLT_MIN \<le> \<bar>x\<bar> \<Longrightarrow> \<bar>x\<bar> < FLT_OVERFLOW \<Longrightarrow> float_result x = Some x"
  by (simp add: float_result_def)

lemma float_add_error:
  assumes x: "0 \<le> x" "\<bar>x - u\<bar> \<le> d" and y: "0 \<le> y" "\<bar>y - v\<bar> \<le> e"
    and fin: "u + v + d + e < FLT_OVERFLOW"
  shows "\<exists>z. float_add (Some x) (Some y) = Some z \<and> 0 \<le> z \<and>
             \<bar>z - (u + v)\<bar> \<le> d + e + FLT_TRUE_MIN / 2"
proof -
  have "\<bar>x + y\<bar> < FLT_OVERFLOW" using x y fin by linarith
  from float_result_finite [OF this] obtain z where z: "float_result (x + y) = Some z" ..
  from float_result_error [OF z] have "\<bar>z - (x + y)\<bar> \<le> FLT_TRUE_MIN / 2" .
  then have "\<bar>z - (u + v)\<bar> \<le> d + e + FLT_TRUE_MIN / 2" using x y by linarith
  moreover have "0 \<le> z" using float_result_nonneg [OF z] x y by simp
  ultimately show ?thesis by (simp add: float_add_def z)
qed

lemma FLT_MAX_OVERFLOW: "FLT_MAX + 3 * FLT_TRUE_MIN < FLT_OVERFLOW"
  by (simp add: FLT_MAX_def FLT_OVERFLOW_def FLT_TRUE_MIN_def)

lemma float_square_length3_error:
  assumes "dot3 a a \<le> FLT_MAX"
  shows "\<exists>s. float_square_length3 a = Some s \<and> 0 \<le> s \<and>
             \<bar>s - dot3 a a\<bar> \<le> 5 * (FLT_TRUE_MIN / 2)"
proof -
  obtain a0 a1 a2 where a: "a = (a0, a1, a2)" by (cases a)
  define h where "h = FLT_TRUE_MIN / 2"
  have h: "0 < h" using FLT_TRUE_MIN_pos by (simp add: h_def)
  have sq: "0 \<le> a0 * a0" "0 \<le> a1 * a1" "0 \<le> a2 * a2" by simp_all
  have le: "a0 * a0 + a1 * a1 + a2 * a2 \<le> FLT_MAX" using assms by (simp add: a)
  have ov: "FLT_MAX + 6 * h < FLT_OVERFLOW" using FLT_MAX_OVERFLOW by (simp add: h_def)
  have p: "\<exists>p. float_result (x * x) = Some p \<and> 0 \<le> p \<and> \<bar>p - x * x\<bar> \<le> h"
    if "x * x \<le> FLT_MAX" for x :: real
  proof -
    have "\<bar>x * x\<bar> < FLT_OVERFLOW" using that ov h by simp
    from float_result_finite [OF this] obtain p where p: "float_result (x * x) = Some p" ..
    from float_result_error [OF p] float_result_nonneg [OF p] show ?thesis
      by (simp add: p h_def)
  qed
  from p [of a0] sq le obtain p0 where p0: "float_result (a0 * a0) = Some p0" "0 \<le> p0"
    "\<bar>p0 - a0 * a0\<bar> \<le> h" by force
  from p [of a1] sq le obtain p1 where p1: "float_result (a1 * a1) = Some p1" "0 \<le> p1"
    "\<bar>p1 - a1 * a1\<bar> \<le> h" by force
  from p [of a2] sq le obtain p2 where p2: "float_result (a2 * a2) = Some p2" "0 \<le> p2"
    "\<bar>p2 - a2 * a2\<bar> \<le> h" by force
  have "a0 * a0 + a1 * a1 + h + h < FLT_OVERFLOW" using le sq ov h by linarith
  from float_add_error [OF p0(2,3) p1(2,3) this]
  obtain s01 where s01: "float_add (Some p0) (Some p1) = Some s01" "0 \<le> s01"
    "\<bar>s01 - (a0 * a0 + a1 * a1)\<bar> \<le> 3 * h" by (auto simp add: h_def)
  have "a0 * a0 + a1 * a1 + a2 * a2 + 3 * h + h < FLT_OVERFLOW" using le ov h by linarith
  from float_add_error [OF s01(2,3) p2(2,3) this]
  obtain s where s: "float_add (Some s01) (Some p2) = Some s" "0 \<le> s"
    "\<bar>s - (a0 * a0 + a1 * a1 + a2 * a2)\<bar> \<le> 5 * h" by (auto simp add: h_def)
  show ?thesis
    using s by (simp add: a p0 p1 p2 s01 h_def)
qed

lemma dot3_self_nonneg: "0 \<le> dot3 a a"
  by (cases a) simp

lemma length3_dot3: "length3 a = sqrt (dot3 a a)"
  by (cases a) simp

lemma dot3_Scalef: "dot3 (Scalef k a) (Scalef k a) = dot3 a a * (k * k)"
  by (cases a) (simp add: algebra_simps)

lemma normalize3_float_length3:
  "float_length3 a = Some L \<Longrightarrow> L \<noteq> 0 \<Longrightarrow> normalize3 a = Scalef (1 / L) a"
  by (cases a) (simp add: Let_def)

lemma near_one:
  fixes q :: real
  assumes "0 \<le> q" and "\<bar>q * q - 1\<bar> \<le> e"
  shows "\<bar>q - 1\<bar> \<le> e"
proof -
  have "\<bar>q - 1\<bar> * 1 \<le> \<bar>q - 1\<bar> * (q + 1)"
    using assms(1) by (intro mult_left_mono) simp_all
  also have "\<dots> = \<bar>(q - 1) * (q + 1)\<bar>"
    using assms(1) by (simp add: abs_mult)
  also have "(q - 1) * (q + 1) = q * q - 1" by (simp add: algebra_simps)
  finally show ?thesis using assms(2) by simp
qed

lemma float_result_overflow: "FLT_OVERFLOW \<le> \<bar>x\<bar> \<Longrightarrow> float_result x = None"
  by (simp add: float_result_def)

lemma float_add_simps [simp]:
  "float_add (Some u) (Some v) = float_result (u + v)"
  "float_add None y = None"
  "float_add x None = None"
  by (simp_all add: float_add_def split: option.splits)

lemma float_square_length3_big: "float_square_length3 (2 ^ 70, 0, 0) = None"
proof -
  have "float_result (2 ^ 70 * 2 ^ 70) = None"
    by (rule float_result_overflow) (simp add: FLT_OVERFLOW_def)
  then show ?thesis by simp
qed

lemma float_square_length3_tiny: "float_square_length3 (0, 1 / 2 ^ 80, 0) = Some 0"
proof -
  have "round_to_even (1 / 2048) = 0"
    by (simp add: round_to_even_def)
  moreover have "(1 / 2 ^ 80 * (1 / 2 ^ 80)) / FLT_TRUE_MIN = (1 / 2048 :: real)"
    by (simp add: FLT_TRUE_MIN_def)
  moreover have "\<bar>1 / 2 ^ 80 * (1 / 2 ^ 80) :: real\<bar> < FLT_MIN"
    "\<not> FLT_OVERFLOW \<le> \<bar>1 / 2 ^ 80 * (1 / 2 ^ 80) :: real\<bar>"
    by (simp_all add: FLT_MIN_def FLT_OVERFLOW_def)
  ultimately have "float_result (1 / 2 ^ 80 * (1 / 2 ^ 80)) = Some 0"
    by (simp only: float_result_def if_True if_False) simp
  then show ?thesis by simp
qed

lemma float_square_length3_subnormal:
  "float_square_length3 (0, 7 / 2 ^ 77, 0) = Some (1 / 2 ^ 148)"
proof -
  have r: "round_to_even (49 / 32) = 2" "round_to_even 2 = 2"
    by (simp_all add: round_to_even_def)
  have q: "(7 / 2 ^ 77 * (7 / 2 ^ 77)) / FLT_TRUE_MIN = (49 / 32 :: real)"
    "(1 / 2 ^ 148) / FLT_TRUE_MIN = (2 :: real)" "2 * FLT_TRUE_MIN = 1 / 2 ^ 148"
    by (simp_all add: FLT_TRUE_MIN_def)
  have b: "\<bar>7 / 2 ^ 77 * (7 / 2 ^ 77) :: real\<bar> < FLT_MIN"
    "\<not> FLT_OVERFLOW \<le> \<bar>7 / 2 ^ 77 * (7 / 2 ^ 77) :: real\<bar>"
    "\<bar>1 / 2 ^ 148 :: real\<bar> < FLT_MIN" "\<not> FLT_OVERFLOW \<le> \<bar>1 / 2 ^ 148 :: real\<bar>"
    by (simp_all add: FLT_MIN_def FLT_OVERFLOW_def)
  have p: "float_result (7 / 2 ^ 77 * (7 / 2 ^ 77)) = Some (1 / 2 ^ 148)"
    using r q b(1,2) by (simp only: float_result_def if_True if_False) simp
  have s: "float_result (1 / 2 ^ 148) = Some (1 / 2 ^ 148)"
    using r q b(3,4) by (simp only: float_result_def if_True if_False) simp
  show ?thesis
    by (simp only: float_square_length3.simps mult_zero_left float_result_0 float_add_simps
        add_0 add_0_right p s)
qed

lemma float_square_length3_25: "float_square_length3 (3, 0, 4) = Some 25"
proof -
  have "float_result x = Some x" if "x = 9 \<or> x = 16 \<or> x = 25" for x :: real
    using that by (intro float_result_normal) (auto simp add: FLT_MIN_def FLT_OVERFLOW_def)
  then show ?thesis by simp
qed

lemma sq74: "sqrt (1 / 2 ^ 148) = 1 / 2 ^ 74"
  by (rule real_sqrt_unique) (simp_all add: power_divide)


lemma normalize3_in_range:
  assumes lo: "FLT_MIN \<le> dot3 a a" and hi: "dot3 a a \<le> FLT_MAX"
  shows "(\<exists>L. float_length3 a = Some L \<and> 0 < L \<and>
              \<bar>L * L - dot3 a a\<bar> \<le> 5 * (FLT_TRUE_MIN / 2) \<and>
              normalize3 a = Scalef (1 / L) a) \<and>
         \<bar>length3 (normalize3 a) - 1\<bar> \<le> 1 / 10 ^ 5"
proof -
  define s where "s = dot3 a a"
  define h where "h = FLT_TRUE_MIN / 2"
  from float_square_length3_error [OF hi] obtain s' where
    s': "float_square_length3 a = Some s'" "0 \<le> s'" "\<bar>s' - s\<bar> \<le> 5 * h"
    by (auto simp add: s_def h_def)
  have num: "5 * h * (1 + 1 / 10 ^ 5) \<le> (1 / 10 ^ 5) * FLT_MIN"
    by (simp add: h_def FLT_TRUE_MIN_def FLT_MIN_def)
  have hpos: "0 < h" using FLT_TRUE_MIN_pos by (simp add: h_def)
  have "5 * h < FLT_MIN" using num hpos by (simp add: FLT_MIN_def h_def FLT_TRUE_MIN_def)
  then have s'pos: "0 < s'" using s'(3) lo unfolding s_def by linarith
  define L where "L = sqrt s'"
  have L: "0 < L" "L * L = s'" using s'pos by (simp_all add: L_def)
  have fl: "float_length3 a = Some L" by (simp add: float_length3_def s' L_def)
  have n: "normalize3 a = Scalef (1 / L) a"
    using normalize3_float_length3 [OF fl] L by simp
  define q where "q = length3 (normalize3 a)"
  have q0: "0 \<le> q" by (simp add: q_def length3_dot3 dot3_self_nonneg)
  have "dot3 (normalize3 a) (normalize3 a) = s * (1 / L * (1 / L))"
    by (simp add: n dot3_Scalef s_def)
  also have "\<dots> = s / s'" using L by (simp add: field_simps)
  finally have d: "dot3 (normalize3 a) (normalize3 a) = s / s'" .
  have "0 \<le> s" using lo by (simp add: s_def FLT_MIN_def)
  then have qq: "q * q = s / s'"
    using s'pos by (simp add: q_def length3_dot3 d)
  have "s' \<ge> FLT_MIN - 5 * h" using s'(3) lo unfolding s_def by linarith
  then have "(1 / 10 ^ 5) * s' \<ge> (1 / 10 ^ 5) * (FLT_MIN - 5 * h)"
    by (intro mult_left_mono) simp_all
  then have "5 * h \<le> (1 / 10 ^ 5) * s'" using num by (simp add: algebra_simps)
  then have "\<bar>s - s'\<bar> \<le> (1 / 10 ^ 5) * s'" using s'(3) by linarith
  then have "\<bar>s - s'\<bar> / s' \<le> 1 / 10 ^ 5"
    using s'pos by (simp add: field_simps)
  moreover have "q * q - 1 = (s - s') / s'"
    using s'pos by (simp add: qq field_simps)
  then have "\<bar>q * q - 1\<bar> = \<bar>s - s'\<bar> / s'" using s'pos by simp
  ultimately have "\<bar>q * q - 1\<bar> \<le> 1 / 10 ^ 5" by simp
  from near_one [OF q0 this] have "\<bar>length3 (normalize3 a) - 1\<bar> \<le> 1 / 10 ^ 5"
    by (simp add: q_def)
  moreover have "\<bar>L * L - dot3 a a\<bar> \<le> 5 * (FLT_TRUE_MIN / 2)"
    using s'(3) by (simp add: L s_def h_def)
  ultimately show ?thesis using fl L n by blast
qed





lemma normalize3_down: "normalize3 (0, 0, - 2) = (0, 0, - 1)"
proof -
  have "float_result 4 = Some 4"
    by (intro float_result_normal) (simp_all add: FLT_MIN_def FLT_OVERFLOW_def)
  then have "float_length3 (0, 0, - 2) = Some 2"
    by (simp add: float_length3_def)
  from normalize3_float_length3 [OF this] show ?thesis by simp
qed

section \<open>Properties of the random sampler\<close>

lemma Scalef_nonneg:
  "0 \<le> k \<Longrightarrow> 0 \<le> x \<Longrightarrow> 0 \<le> y \<Longrightarrow> 0 \<le> z \<Longrightarrow>
   Scalef k (x, y, z) = (u, v, w) \<Longrightarrow> 0 \<le> u \<and> 0 \<le> v \<and> 0 \<le> w"
  by auto

lemma uniformSphere_octant:
  "uniformSphere rs = Some (v, rs') \<Longrightarrow> \<forall>r\<in>set rs. 0 \<le> r \<and> r < 1 \<Longrightarrow>
   length3 v = 1 \<and> 0 \<le> fst v \<and> 0 \<le> fst (snd v) \<and> 0 \<le> snd (snd v)"
proof (induction rs rule: uniformSphere.induct)
  case (1 x y z rs)
  define sl where "sl = x * x + y * y + z * z"
  show ?case
  proof (cases "sl > 1 \<or> sl < fEpsilon")
    case True
    with 1 show ?thesis by (simp add: sl_def)
  next
    case False
    then have pos: "0 < sl" by (simp add: fEpsilon_def)
    from False "1.prems"(1) have v: "v = Scalef (1 / sqrt sl) (x, y, z)"
      by (auto simp add: sl_def Let_def)
    have unit: "length3 v = 1"
      unfolding v sl_def using pos length3_Scalef_unit [of x y z] by (simp add: sl_def)
    have "0 \<le> x" "0 \<le> y" "0 \<le> z" using "1.prems"(2) by simp_all
    moreover have "0 \<le> 1 / sqrt sl" using pos by simp
    ultimately show ?thesis using unit by (simp add: v)
  qed
qed simp_all

text \<open>
  C5. A vector returned by \<^verbatim>\<open>RandomSampler::uniformSphere\<close> has length one and no negative
  component, because the candidates are three draws of \<^verbatim>\<open>rand()\<close> from \<open>[0, 1)\<close>; the
  direction of the ray of \<^verbatim>\<open>RenderLightPoint::getRandomRay\<close> is such a vector, so it lies in
  the octant of non-negative x, y and z.
\<close>

theorem uniformSphere_positive_octant:
  assumes "\<forall>r\<in>set rs. 0 \<le> r \<and> r < 1"
  shows "(\<forall>v rs'. uniformSphere rs = Some (v, rs') \<longrightarrow>
            length3 v = 1 \<and> 0 \<le> fst v \<and> 0 \<le> fst (snd v) \<and> 0 \<le> snd (snd v)) \<and>
         (\<forall>ray rs'. getRandomRay L rs = Some (ray, rs') \<longrightarrow>
            length3 (ray_R ray) = 1 \<and> 0 \<le> fst (ray_R ray) \<and> 0 \<le> fst (snd (ray_R ray)) \<and>
            0 \<le> snd (snd (ray_R ray)) \<and> ray_O ray = m_position L)"
proof (rule conjI; intro allI impI)
  fix v rs' assume "uniformSphere rs = Some (v, rs')"
  from uniformSphere_octant [OF this assms]
  show "length3 v = 1 \<and> 0 \<le> fst v \<and> 0 \<le> fst (snd v) \<and> 0 \<le> snd (snd v)" by simp
next
  fix ray rs' assume g: "getRandomRay L rs = Some (ray, rs')"
  then obtain R where u: "uniformSphere rs = Some (R, rs')" and r: "ray_R ray = R"
    and o: "ray_O ray = m_position L"
    by (auto simp add: getRandomRay_def split: option.splits)
  from uniformSphere_octant [OF u assms] r o
  show "length3 (ray_R ray) = 1 \<and> 0 \<le> fst (ray_R ray) \<and> 0 \<le> fst (snd (ray_R ray)) \<and>
        0 \<le> snd (snd (ray_R ray)) \<and> ray_O ray = m_position L"
    by simp
qed

theorem uniformSphere_positive_octant_witness:
  "uniformSphere [9/10, 9/10, 9/10, 3/5, 0, 4/5] = Some ((3/5, 0, 4/5), []) \<and>
   length3 (3/5, 0, 4/5) = 1 \<and>
   (\<exists>ray. getRandomRay \<lparr>m_position = (1, 2, 3), m_intensity = (1, 1, 1), m_fRange = 10,
                         m_fPower = 1, m_iIndex = 0, m_pSampler = True\<rparr> [9/10, 9/10, 9/10, 3/5, 0, 4/5] = Some (ray, []) \<and>
          length3 (ray_R ray) = 1 \<and> 0 \<le> fst (ray_R ray))"
proof -
  let ?rs = "[9/10, 9/10, 9/10, 3/5, 0, 4/5 :: real]"
  let ?L = "\<lparr>m_position = (1, 2, 3), m_intensity = (1, 1, 1), m_fRange = 10,
             m_fPower = 1, m_iIndex = 0, m_pSampler = True\<rparr>"
  have h: "\<forall>r\<in>set ?rs. 0 \<le> r \<and> r < 1" by simp
  have u: "uniformSphere ?rs = Some ((3/5, 0, 4/5), [])"
    by (simp add: fEpsilon_def)
  have g: "getRandomRay ?L ?rs =
           Some (\<lparr>ray_O = (1, 2, 3), ray_R = (3/5, 0, 4/5), ray_pdf = 1 / (4 * M_PIf),
                  ray_radiance = (1, 1, 1)\<rparr>, [])"
    unfolding getRandomRay_def u by simp
  from uniformSphere_positive_octant [OF h, of ?L] u g show ?thesis
    by (metis (no_types, lifting))
qed

section \<open>Loop rules\<close>

lemma for_loop_invariant:
  assumes "for_loop i n body s = Inr s'"
    and "I i s"
    and "i \<le> n"
    and "\<And>j t t'. i \<le> j \<Longrightarrow> j < n \<Longrightarrow> I j t \<Longrightarrow> body j t = Inr t' \<Longrightarrow> I (j + 1) t'"
  shows "I n s'"
  using assms
proof (induction i n body s rule: for_loop.induct)
  case (1 i n body s)
  show ?case
  proof (cases "i < n")
    case True
    then obtain t where b: "body i s = Inr t" and rest: "for_loop (i + 1) n body t = Inr s'"
      using "1.prems"(1) by (subst (asm) for_loop.simps) (auto split: sum.splits)
    have It: "I (i + 1) t" using "1.prems"(4) [of i s t] True "1.prems"(2) b by simp
    show ?thesis
    proof (rule "1.IH" [OF True b rest It])
      show "i + 1 \<le> n" using True by simp
      fix j u u' assume "i + 1 \<le> j" "j < n" "I j u" "body j u = Inr u'"
      then show "I (j + 1) u'" using "1.prems"(4) [of j u u'] by simp
    qed
  next
    case False
    then have "s' = s" using "1.prems"(1) by (subst (asm) for_loop.simps) simp
    moreover have "i = n" using False "1.prems"(3) by simp
    ultimately show ?thesis using "1.prems"(2) by simp
  qed
qed

lemma for_loop_preserves:
  assumes "for_loop i n body s = Inr s'"
    and "\<And>j t t'. body j t = Inr t' \<Longrightarrow> f t' = f t"
  shows "f s' = f s"
  using assms
proof (induction i n body s rule: for_loop.induct)
  case (1 i n body s)
  show ?case
  proof (cases "i < n")
    case True
    then obtain t where b: "body i s = Inr t" and rest: "for_loop (i + 1) n body t = Inr s'"
      using "1.prems"(1) by (subst (asm) for_loop.simps) (auto split: sum.splits)
    have "f s' = f t" by (rule "1.IH" [OF True b rest]) (rule "1.prems"(2))
    also have "f t = f s" using "1.prems"(2) [OF b] .
    finally show ?thesis .
  next
    case False
    then show ?thesis using "1.prems"(1) by (subst (asm) for_loop.simps) simp
  qed
qed

lemma for_loop_empty: "n \<le> i \<Longrightarrow> for_loop i n body s = Inr s"
  by (subst for_loop.simps) simp

lemma for_loop_step:
  "i < n \<Longrightarrow> for_loop i n body s =
     (case body i s of Inl e \<Rightarrow> Inl e | Inr s' \<Rightarrow> for_loop (i + 1) n body s')"
  by (subst for_loop.simps) simp

section \<open>Properties of the discrete sampler\<close>

lemma length_partial_sum_from [simp]: "length (partial_sum_from acc xs) = length xs"
  by (induction xs arbitrary: acc) simp_all

lemma nth_partial_sum_from:
  "k < length xs \<Longrightarrow> partial_sum_from acc xs ! k = acc + sum_list (take (Suc k) xs)"
proof (induction xs arbitrary: acc k)
  case Nil
  then show ?case by simp
next
  case (Cons x xs)
  show ?case
  proof (cases k)
    case 0
    then show ?thesis by simp
  next
    case (Suc j)
    with Cons.prems have "j < length xs" by simp
    from Cons.IH [OF this, of "acc + x"] Suc show ?thesis by simp
  qed
qed

lemma length_partial_sum [simp]: "length (partial_sum xs) = length xs"
  by (cases xs) simp_all

lemma nth_partial_sum:
  "k < length xs \<Longrightarrow> partial_sum xs ! k = sum_list (take (Suc k) xs)"
proof (cases xs)
  case Nil
  then show "k < length xs \<Longrightarrow> ?thesis" by simp
next
  case (Cons x ys)
  assume k: "k < length xs"
  show ?thesis
  proof (cases k)
    case 0
    with Cons show ?thesis by simp
  next
    case (Suc j)
    with k Cons have "j < length ys" by simp
    from nth_partial_sum_from [OF this, of x] Suc Cons show ?thesis by simp
  qed
qed

lemma getValue_loop_bounds:
  assumes "0 \<le> L" "L \<le> R"
    and "L = 0 \<or> ds ! nat (L - 1) < d"
    and "d \<le> ds ! nat R"
  shows "L \<le> getValue_loop ds d L R \<and> getValue_loop ds d L R \<le> R \<and>
         (getValue_loop ds d L R = 0 \<or> ds ! nat (getValue_loop ds d L R - 1) < d) \<and>
         d \<le> ds ! nat (getValue_loop ds d L R)"
  using assms
proof (induction ds d L R rule: getValue_loop.induct)
  case (1 ds d L R)
  show ?case
  proof (cases "L < R")
    case False
    with "1.prems" have "L = R" by simp
    then have "getValue_loop ds d L R = L"
      by (subst getValue_loop.simps) simp
    with "1.prems" \<open>L = R\<close> show ?thesis by simp
  next
    case True
    define C where "C = (L + R) div 2"
    have C: "L \<le> C" "C < R" using True by (simp_all add: C_def)
    show ?thesis
    proof (cases "d \<le> ds ! nat C")
      case le: True
      have eq: "getValue_loop ds d L R = getValue_loop ds d L C"
        using True le by (subst getValue_loop.simps) (simp add: C_def Let_def)
      have "L \<le> getValue_loop ds d L C \<and> getValue_loop ds d L C \<le> C \<and>
            (getValue_loop ds d L C = 0 \<or> ds ! nat (getValue_loop ds d L C - 1) < d) \<and>
            d \<le> ds ! nat (getValue_loop ds d L C)"
        using "1.IH"(1) [OF True C_def [symmetric, THEN eq_reflection, THEN meta_eq_to_obj_eq, symmetric]]
              le "1.prems" C
        by (simp add: C_def)
      with eq C show ?thesis by simp
    next
      case gt: False
      have eq: "getValue_loop ds d L R = getValue_loop ds d (C + 1) R"
        using True gt by (subst getValue_loop.simps) (simp add: C_def Let_def)
      have "C + 1 \<le> getValue_loop ds d (C + 1) R \<and> getValue_loop ds d (C + 1) R \<le> R \<and>
            (getValue_loop ds d (C + 1) R = 0 \<or> ds ! nat (getValue_loop ds d (C + 1) R - 1) < d) \<and>
            d \<le> ds ! nat (getValue_loop ds d (C + 1) R)"
        using "1.IH"(2) [OF True C_def [symmetric, THEN eq_reflection, THEN meta_eq_to_obj_eq, symmetric]]
              gt "1.prems" C
        by (auto simp add: C_def)
      with eq C show ?thesis by simp
    qed
  qed
qed

section \<open>What the phases of commitScene change\<close>

lemma commitScene_meshBody_frame:
  "commitScene_meshBody i st = Inr st' \<Longrightarrow>
   fst st' = (fst st)\<lparr>m_pMeshes := m_pMeshes (fst st')\<rparr>"
  by (auto simp add: commitScene_meshBody_def Let_def
      split: sum.splits option.splits if_splits prod.splits)

lemma commitScene_instBody_frame:
  "commitScene_instBody i st = Inr st' \<Longrightarrow>
   fst st' = (fst st)\<lparr>m_pInstances := m_pInstances (fst st')\<rparr>"
  by (auto simp add: commitScene_instBody_def Let_def
      split: sum.splits option.splits if_splits prod.splits)

lemma commitScene_matBody_frame:
  "commitScene_matBody i s = Inr s' \<Longrightarrow> s' = s\<lparr>m_ppMaterials := m_ppMaterials s'\<rparr>"
  by (auto simp add: commitScene_matBody_def Let_def
      split: sum.splits option.splits if_splits prod.splits)

lemma buildEmbreeScene_meshBody_frame:
  "buildEmbreeScene_meshBody dev i s = Inr s' \<Longrightarrow> s' = s\<lparr>m_pMeshes := m_pMeshes s'\<rparr>"
  by (auto simp add: buildEmbreeScene_meshBody_def Let_def
      split: sum.splits option.splits if_splits prod.splits)

lemma buildEmbreeScene_instBody_frame:
  "buildEmbreeScene_instBody i st = Inr st' \<Longrightarrow> fst st' = fst st"
  by (auto simp add: buildEmbreeScene_instBody_def Let_def
      split: sum.splits option.splits if_splits prod.splits)

lemma commitScene_meshLoop_frame:
  assumes "for_loop i n commitScene_meshBody st = Inr st'"
  shows "fst st' = (fst st)\<lparr>m_pMeshes := m_pMeshes (fst st')\<rparr>"
proof -
  have "(fst st')\<lparr>m_pMeshes := []\<rparr> = (fst st)\<lparr>m_pMeshes := []\<rparr>"
  proof (rule for_loop_preserves [OF assms])
    fix j t t' assume "commitScene_meshBody j t = Inr t'"
    from commitScene_meshBody_frame [OF this]
    have "fst t' = (fst t)\<lparr>m_pMeshes := m_pMeshes (fst t')\<rparr>" .
    then have "(fst t')\<lparr>m_pMeshes := []\<rparr> = (fst t)\<lparr>m_pMeshes := m_pMeshes (fst t')\<rparr>\<lparr>m_pMeshes := []\<rparr>"
      by simp
    then show "(fst t')\<lparr>m_pMeshes := []\<rparr> = (fst t)\<lparr>m_pMeshes := []\<rparr>" by simp
  qed
  then have "(fst st')\<lparr>m_pMeshes := []\<rparr>\<lparr>m_pMeshes := m_pMeshes (fst st')\<rparr> =
             (fst st)\<lparr>m_pMeshes := []\<rparr>\<lparr>m_pMeshes := m_pMeshes (fst st')\<rparr>"
    by simp
  then show ?thesis by simp
qed

lemma commitScene_instLoop_frame:
  assumes "for_loop i n commitScene_instBody st = Inr st'"
  shows "fst st' = (fst st)\<lparr>m_pInstances := m_pInstances (fst st')\<rparr>"
proof -
  have "(fst st')\<lparr>m_pInstances := []\<rparr> = (fst st)\<lparr>m_pInstances := []\<rparr>"
  proof (rule for_loop_preserves [OF assms])
    fix j t t' assume "commitScene_instBody j t = Inr t'"
    from commitScene_instBody_frame [OF this]
    have "fst t' = (fst t)\<lparr>m_pInstances := m_pInstances (fst t')\<rparr>" .
    then have "(fst t')\<lparr>m_pInstances := []\<rparr> =
               (fst t)\<lparr>m_pInstances := m_pInstances (fst t')\<rparr>\<lparr>m_pInstances := []\<rparr>"
      by simp
    then show "(fst t')\<lparr>m_pInstances := []\<rparr> = (fst t)\<lparr>m_pInstances := []\<rparr>" by simp
  qed
  then have "(fst st')\<lparr>m_pInstances := []\<rparr>\<lparr>m_pInstances := m_pInstances (fst st')\<rparr> =
             (fst st)\<lparr>m_pInstances := []\<rparr>\<lparr>m_pInstances := m_pInstances (fst st')\<rparr>"
    by simp
  then show ?thesis by simp
qed

lemma commitScene_matLoop_frame:
  assumes "for_loop i n commitScene_matBody s = Inr s'"
  shows "s' = s\<lparr>m_ppMaterials := m_ppMaterials s'\<rparr>"
proof -
  have "s'\<lparr>m_ppMaterials := []\<rparr> = s\<lparr>m_ppMaterials := []\<rparr>"
  proof (rule for_loop_preserves [OF assms])
    fix j t t' assume "commitScene_matBody j t = Inr t'"
    from commitScene_matBody_frame [OF this]
    have "t' = t\<lparr>m_ppMaterials := m_ppMaterials t'\<rparr>" .
    then have "t'\<lparr>m_ppMaterials := []\<rparr> = t\<lparr>m_ppMaterials := m_ppMaterials t'\<rparr>\<lparr>m_ppMaterials := []\<rparr>"
      by simp
    then show "t'\<lparr>m_ppMaterials := []\<rparr> = t\<lparr>m_ppMaterials := []\<rparr>" by simp
  qed
  then have "s'\<lparr>m_ppMaterials := []\<rparr>\<lparr>m_ppMaterials := m_ppMaterials s'\<rparr> =
             s\<lparr>m_ppMaterials := []\<rparr>\<lparr>m_ppMaterials := m_ppMaterials s'\<rparr>"
    by simp
  then show ?thesis by simp
qed

lemma buildEmbreeScene_meshLoop_frame:
  assumes "for_loop i n (buildEmbreeScene_meshBody dev) s = Inr s'"
  shows "s' = s\<lparr>m_pMeshes := m_pMeshes s'\<rparr>"
proof -
  have "s'\<lparr>m_pMeshes := []\<rparr> = s\<lparr>m_pMeshes := []\<rparr>"
  proof (rule for_loop_preserves [OF assms])
    fix j t t' assume "buildEmbreeScene_meshBody dev j t = Inr t'"
    from buildEmbreeScene_meshBody_frame [OF this]
    have "t' = t\<lparr>m_pMeshes := m_pMeshes t'\<rparr>" .
    then have "t'\<lparr>m_pMeshes := []\<rparr> = t\<lparr>m_pMeshes := m_pMeshes t'\<rparr>\<lparr>m_pMeshes := []\<rparr>"
      by simp
    then show "t'\<lparr>m_pMeshes := []\<rparr> = t\<lparr>m_pMeshes := []\<rparr>" by simp
  qed
  then have "s'\<lparr>m_pMeshes := []\<rparr>\<lparr>m_pMeshes := m_pMeshes s'\<rparr> =
             s\<lparr>m_pMeshes := []\<rparr>\<lparr>m_pMeshes := m_pMeshes s'\<rparr>"
    by simp
  then show ?thesis by simp
qed

lemma buildEmbreeScene_instLoop_frame:
  assumes "for_loop i n buildEmbreeScene_instBody st = Inr st'"
  shows "fst st' = fst st"
  by (rule for_loop_preserves [OF assms]) (rule buildEmbreeScene_instBody_frame)

lemma buildEmbreeScene_frame:
  assumes "buildEmbreeScene s lg = Inr (ok, s', lg')"
  shows "s' = s\<lparr>m_pMeshes := m_pMeshes s', m_embreeScene := m_embreeScene s',
                 m_bTraceReady := m_bTraceReady s'\<rparr>"
proof (cases "m_embreeDevice s")
  case None
  with assms show ?thesis by (simp add: buildEmbreeScene_def)
next
  case (Some dev)
  show ?thesis
  proof (cases "rtcNewScene dev")
    case None
    with Some assms show ?thesis by (auto simp add: buildEmbreeScene_def)
  next
    case sc: (Some sc)
    from assms Some sc obtain s1 st2 where
      l1: "for_loop 0 (m_iMeshesN s) (buildEmbreeScene_meshBody dev) (s\<lparr>m_embreeScene := Some sc\<rparr>) = Inr s1"
      and l2: "for_loop 0 (m_iInstancesN s1) buildEmbreeScene_instBody (s1, sc) = Inr st2"
      and s': "s' = (fst st2)\<lparr>m_embreeScene := Some (rtcCommitScene (snd st2)), m_bTraceReady := True\<rparr>"
      by (auto simp add: buildEmbreeScene_def split: sum.splits prod.splits)
    from buildEmbreeScene_instLoop_frame [OF l2] have f2: "fst st2 = s1" by simp
    from buildEmbreeScene_meshLoop_frame [OF l1]
    have f1: "s1 = s\<lparr>m_embreeScene := Some sc, m_pMeshes := m_pMeshes s1\<rparr>" by simp
    show ?thesis unfolding s' f2 by (subst f1) simp
  qed
qed

section \<open>The light sampler built by commitScene\<close>

lemma commitScene_lightLoop:
  assumes loop: "for_loop 0 (int (length ls)) commitScene_lightBody s0 = Inr s4"
    and l0: "m_ppLights s0 = map Some ls"
    and d0: "length (m_distances (m_lightsSampler s0)) = length ls"
  shows "m_distances (m_lightsSampler s4) = map m_fPower ls \<and>
         m_iN (m_lightsSampler s4) = m_iN (m_lightsSampler s0) \<and>
         length (m_ppLights s4) = length ls \<and>
         (\<forall>k<length ls. m_ppLights s4 ! k = Some ((ls ! k)\<lparr>m_iIndex := int k, m_pSampler := True\<rparr>)) \<and>
         s4\<lparr>m_ppLights := [], m_lightsSampler := DistanceRandom_new\<rparr> =
         s0\<lparr>m_ppLights := [], m_lightsSampler := DistanceRandom_new\<rparr>"
proof -
  define I where "I j t \<longleftrightarrow>
      t\<lparr>m_ppLights := [], m_lightsSampler := DistanceRandom_new\<rparr> =
      s0\<lparr>m_ppLights := [], m_lightsSampler := DistanceRandom_new\<rparr> \<and>
      m_iN (m_lightsSampler t) = m_iN (m_lightsSampler s0) \<and>
      length (m_distances (m_lightsSampler t)) = length ls \<and>
      length (m_ppLights t) = length ls \<and>
      (\<forall>k<length ls. m_ppLights t ! k =
          Some (if int k < j then (ls ! k)\<lparr>m_iIndex := int k, m_pSampler := True\<rparr> else ls ! k)) \<and>
      (\<forall>k<length ls. int k < j \<longrightarrow> m_distances (m_lightsSampler t) ! k = m_fPower (ls ! k))"
    for j t
  have "I (int (length ls)) s4"
  proof (rule for_loop_invariant [OF loop, where I = I])
    show "I 0 s0" using l0 d0 by (simp add: I_def)
    show "0 \<le> int (length ls)" by simp
  next
    fix j t t'
    assume j: "0 \<le> j" "j < int (length ls)" and It: "I j t"
      and body: "commitScene_lightBody j t = Inr t'"
    define l where "l = ls ! nat j"
    have lt: "nat j < length ls" using j by simp
    have at: "at_index (m_ppLights t) j = Inr (Some l)"
      using It j lt by (simp add: I_def at_index_def l_def)
    have t': "t' = t\<lparr>m_ppLights := (m_ppLights t)[nat j := Some (l\<lparr>m_iIndex := j, m_pSampler := True\<rparr>)],
                      m_lightsSampler := setDistance j (m_fPower l) (m_lightsSampler t)\<rparr>"
      using body at It j by (simp add: commitScene_lightBody_def I_def Let_def)
    have "\<forall>k<length ls. m_ppLights t' ! k =
            Some (if int k < j + 1 then (ls ! k)\<lparr>m_iIndex := int k, m_pSampler := True\<rparr> else ls ! k)"
    proof (intro allI impI)
      fix k assume k: "k < length ls"
      show "m_ppLights t' ! k =
            Some (if int k < j + 1 then (ls ! k)\<lparr>m_iIndex := int k, m_pSampler := True\<rparr> else ls ! k)"
      proof (cases "k = nat j")
        case True
        then show ?thesis using It k j by (simp add: t' I_def l_def)
      next
        case False
        then have "int k < j + 1 \<longleftrightarrow> int k < j" using j by linarith
        then show ?thesis using It k False by (simp add: t' I_def)
      qed
    qed
    moreover have "\<forall>k<length ls. int k < j + 1 \<longrightarrow>
            m_distances (m_lightsSampler t') ! k = m_fPower (ls ! k)"
    proof (intro allI impI)
      fix k assume k: "k < length ls" "int k < j + 1"
      show "m_distances (m_lightsSampler t') ! k = m_fPower (ls ! k)"
      proof (cases "k = nat j")
        case True
        then show ?thesis using It k j by (simp add: t' I_def l_def setDistance_def)
      next
        case False
        then have "int k < j" using k j by linarith
        then show ?thesis using It k False by (simp add: t' I_def setDistance_def)
      qed
    qed
    ultimately show "I (j + 1) t'"
      using It unfolding I_def by (simp add: t' setDistance_def)
  qed
  then have fin: "s4\<lparr>m_ppLights := [], m_lightsSampler := DistanceRandom_new\<rparr> =
      s0\<lparr>m_ppLights := [], m_lightsSampler := DistanceRandom_new\<rparr>"
    "m_iN (m_lightsSampler s4) = m_iN (m_lightsSampler s0)"
    "length (m_distances (m_lightsSampler s4)) = length ls"
    "length (m_ppLights s4) = length ls"
    "\<forall>k<length ls. m_ppLights s4 ! k = Some ((ls ! k)\<lparr>m_iIndex := int k, m_pSampler := True\<rparr>)"
    "\<forall>k<length ls. m_distances (m_lightsSampler s4) ! k = m_fPower (ls ! k)"
    by (simp_all add: I_def)
  have "m_distances (m_lightsSampler s4) = map m_fPower ls"
    by (rule nth_equalityI) (use fin in simp_all)
  with fin show ?thesis by simp
qed

lemma commitScene_builds_sampler:
  assumes commit: "commitScene s lg = Inr (True, s', lg')"
    and fresh: "\<not> m_bTraceReady s"
    and n: "m_iLightsN s = int (length ls)"
    and l: "m_ppLights s = map Some ls"
  shows "m_iN (m_lightsSampler s') = int (length ls) \<and>
         (ls \<noteq> [] \<longrightarrow> m_distances (m_lightsSampler s') = partial_sum (map m_fPower ls) \<and>
            m_maxD (m_lightsSampler s') = partial_sum (map m_fPower ls) ! (length ls - 1)) \<and>
         length (m_ppLights s') = length ls \<and>
         (\<forall>k<length ls. m_ppLights s' ! k = Some ((ls ! k)\<lparr>m_iIndex := int k, m_pSampler := True\<rparr>))"
proof -
  from commit fresh obtain st1 st2 s3 s4 lg2 where
    l1: "for_loop 0 (m_iMeshesN s) commitScene_meshBody (s, lg) = Inr st1"
    and l2: "for_loop 0 (m_iInstancesN (fst st1)) commitScene_instBody (fst st1, 0) = Inr st2"
    and l3: "for_loop 0 (m_iMaterialsN (fst st2)) commitScene_matBody (fst st2) = Inr s3"
    and l4: "for_loop 0 (m_iLightsN s3) commitScene_lightBody
               (s3\<lparr>m_lightsSampler := setCount (m_iLightsN s3) (m_lightsSampler s3)\<rparr>) = Inr s4"
    and b: "buildEmbreeScene
              (if m_iLightsN s4 > 0 then s4\<lparr>m_lightsSampler := calculate (m_lightsSampler s4)\<rparr> else s4)
              lg2 = Inr (True, s', lg')"
    by (auto simp add: commitScene_def Let_def split: sum.splits prod.splits if_splits)
  have f1: "fst st1 = s\<lparr>m_pMeshes := m_pMeshes (fst st1)\<rparr>"
    using commitScene_meshLoop_frame [OF l1] by simp
  have f2: "fst st2 = (fst st1)\<lparr>m_pInstances := m_pInstances (fst st2)\<rparr>"
    using commitScene_instLoop_frame [OF l2] by simp
  have f3: "s3 = (fst st2)\<lparr>m_ppMaterials := m_ppMaterials s3\<rparr>"
    using commitScene_matLoop_frame [OF l3] .
  have n3: "m_iLightsN s3 = int (length ls)"
    by (subst f3, simp, subst f2, simp, subst f1, simp add: n)
  have p3: "m_ppLights s3 = map Some ls"
    by (subst f3, simp, subst f2, simp, subst f1, simp add: l)
  define s0 where "s0 = s3\<lparr>m_lightsSampler := setCount (m_iLightsN s3) (m_lightsSampler s3)\<rparr>"
  have loop: "for_loop 0 (int (length ls)) commitScene_lightBody s0 = Inr s4"
    using l4 n3 by (simp add: s0_def)
  have l0: "m_ppLights s0 = map Some ls" using p3 by (simp add: s0_def)
  have d0: "length (m_distances (m_lightsSampler s0)) = length ls"
    using n3 by (simp add: s0_def setCount_def)
  have iN0: "m_iN (m_lightsSampler s0) = int (length ls)"
    using n3 by (simp add: s0_def setCount_def)
  from commitScene_lightLoop [OF loop l0 d0] iN0 have r4:
    "m_distances (m_lightsSampler s4) = map m_fPower ls"
    "m_iN (m_lightsSampler s4) = int (length ls)"
    "length (m_ppLights s4) = length ls"
    "\<forall>k<length ls. m_ppLights s4 ! k = Some ((ls ! k)\<lparr>m_iIndex := int k, m_pSampler := True\<rparr>)"
    and fr4: "s4\<lparr>m_ppLights := [], m_lightsSampler := DistanceRandom_new\<rparr> =
              s0\<lparr>m_ppLights := [], m_lightsSampler := DistanceRandom_new\<rparr>"
    by simp_all
  have "m_iLightsN (s4\<lparr>m_ppLights := [], m_lightsSampler := DistanceRandom_new\<rparr>) =
        m_iLightsN (s0\<lparr>m_ppLights := [], m_lightsSampler := DistanceRandom_new\<rparr>)"
    using fr4 by simp
  then have n4: "m_iLightsN s4 = int (length ls)" using n3 by (simp add: s0_def)
  define s5 where
    "s5 = (if m_iLightsN s4 > 0 then s4\<lparr>m_lightsSampler := calculate (m_lightsSampler s4)\<rparr> else s4)"
  from b have b5: "buildEmbreeScene s5 lg2 = Inr (True, s', lg')" by (simp add: s5_def)
  have f5: "s' = s5\<lparr>m_pMeshes := m_pMeshes s', m_embreeScene := m_embreeScene s',
                     m_bTraceReady := m_bTraceReady s'\<rparr>"
    using buildEmbreeScene_frame [OF b5] .
  have ls5: "m_ppLights s' = m_ppLights s4" by (subst f5) (simp add: s5_def)
  have sm5: "m_lightsSampler s' = m_lightsSampler s5" by (subst f5) simp
  have iN: "m_iN (m_lightsSampler s') = int (length ls)"
    unfolding sm5 using r4 by (simp add: s5_def calculate_def Let_def)
  have calc: "ls \<noteq> [] \<longrightarrow> m_distances (m_lightsSampler s') = partial_sum (map m_fPower ls) \<and>
            m_maxD (m_lightsSampler s') = partial_sum (map m_fPower ls) ! (length ls - 1)"
  proof
    assume "ls \<noteq> []"
    then have pos: "m_iLightsN s4 > 0" using n4 by simp
    have "nat (int (length ls) - 1) = length ls - 1" by simp
    then show "m_distances (m_lightsSampler s') = partial_sum (map m_fPower ls) \<and>
            m_maxD (m_lightsSampler s') = partial_sum (map m_fPower ls) ! (length ls - 1)"
      unfolding sm5 using pos r4 by (simp add: s5_def calculate_def Let_def)
  qed
  from iN calc r4 ls5 show ?thesis by simp
qed

section \<open>sampleLight\<close>

lemma light_cdf_Suc:
  "Suc k < length ls \<Longrightarrow> light_cdf ls (Suc k) = light_cdf ls k + m_fPower (ls ! Suc k)"
  by (simp add: light_cdf_def take_Suc_conv_app_nth [of "Suc k"])

lemma light_cdf_strict_mono:
  assumes pos: "\<forall>l\<in>set ls. 0 < m_fPower l"
  shows "i < j \<Longrightarrow> j < length ls \<Longrightarrow> light_cdf ls i < light_cdf ls j"
proof (induction j)
  case 0
  then show ?case by simp
next
  case (Suc j)
  have p: "0 < m_fPower (ls ! Suc j)" using pos Suc.prems by simp
  show ?case
  proof (cases "i = j")
    case True
    then show ?thesis using light_cdf_Suc [OF Suc.prems(2)] p by simp
  next
    case False
    with Suc.prems have "i < j" "j < length ls" by simp_all
    from Suc.IH [OF this] light_cdf_Suc [OF Suc.prems(2)] p show ?thesis by simp
  qed
qed

lemma light_cdf_mono:
  assumes pos: "\<forall>l\<in>set ls. 0 < m_fPower l"
  shows "i \<le> j \<Longrightarrow> j < length ls \<Longrightarrow> light_cdf ls i \<le> light_cdf ls j"
  using light_cdf_strict_mono [OF pos, of i j] by (cases "i = j") simp_all

lemma light_cdf_last: "ls \<noteq> [] \<Longrightarrow> light_cdf ls (length ls - 1) = total_power ls"
  by (simp add: light_cdf_def total_power_def)

lemma nth_partial_sum_powers:
  "k < length ls \<Longrightarrow> partial_sum (map m_fPower ls) ! k = light_cdf ls k"
  by (simp add: nth_partial_sum light_cdf_def take_map)

lemma light_cdf_0_pos:
  assumes pos: "\<forall>l\<in>set ls. 0 < m_fPower l" and ne: "ls \<noteq> []"
  shows "0 < light_cdf ls 0"
proof -
  from ne obtain l ls' where "ls = l # ls'" by (cases ls) auto
  then show ?thesis using pos by (simp add: light_cdf_def)
qed

lemma getValue_least:
  assumes iN: "m_iN dr = int (length ls)"
    and ds: "m_distances dr = partial_sum (map m_fPower ls)"
    and ne: "ls \<noteq> []"
    and pos: "\<forall>l\<in>set ls. 0 < m_fPower l"
    and top: "d \<le> light_cdf ls (length ls - 1)"
    and away: "d \<le> light_cdf ls 0 \<or> d \<noteq> light_cdf ls (length ls - 2)"
  shows "0 \<le> getValue dr d \<and> nat (getValue dr d) < length ls \<and>
         d \<le> light_cdf ls (nat (getValue dr d)) \<and>
         (getValue dr d = 0 \<or> light_cdf ls (nat (getValue dr d) - 1) < d)"
proof -
  define N where "N = length ls"
  have Npos: "0 < N" using ne by (simp add: N_def)
  have nth: "\<And>k. k < N \<Longrightarrow> m_distances dr ! k = light_cdf ls k"
    by (simp add: ds N_def nth_partial_sum_powers)
  show ?thesis
  proof (cases "N = 1")
    case True
    then have "getValue dr d = 0" using iN by (simp add: getValue_def N_def)
    then show ?thesis using top True by (simp add: N_def)
  next
    case False
    then have N2: "2 \<le> N" using Npos by simp
    have notle: "\<not> int N \<le> 0" "int N \<noteq> 1" using N2 by simp_all
    have n2: "nat (int N - 2) = N - 2" by simp
    show ?thesis
    proof (cases "d \<le> light_cdf ls 0")
      case True
      then have "getValue dr d = 0"
        using iN notle nth [of 0] Npos by (simp add: getValue_def N_def [symmetric])
      then show ?thesis using True Npos by (simp add: N_def)
    next
      case d0: False
      show ?thesis
      proof (cases "d \<ge> light_cdf ls (N - 2)")
        case True
        then have gv: "getValue dr d = int N - 1"
          using iN notle d0 nth [of 0] nth [of "N - 2"] Npos N2 n2
          by (simp add: getValue_def N_def [symmetric])
        have "d \<noteq> light_cdf ls (N - 2)" using away d0 by (simp add: N_def)
        with True have "light_cdf ls (N - 2) < d" by simp
        moreover have "nat (int N - 1) = N - 1" "N - 1 - 1 = N - 2" by simp_all
        ultimately show ?thesis using gv top N2 by (simp add: N_def [symmetric])
      next
        case dn: False
        then have gv: "getValue dr d = getValue_loop (m_distances dr) d 0 (int N - 1)"
          using iN notle d0 nth [of 0] nth [of "N - 2"] Npos N2 n2
          by (simp add: getValue_def N_def [symmetric])
        have "light_cdf ls (N - 2) \<le> light_cdf ls (N - 1)"
          using light_cdf_mono [OF pos, of "N - 2" "N - 1"] N2 by (simp add: N_def)
        then have "d \<le> m_distances dr ! nat (int N - 1)"
          using dn nth [of "N - 1"] Npos by (simp add: nat_diff_distrib)
        from getValue_loop_bounds [of 0 "int N - 1" "m_distances dr" d, OF _ _ _ this]
        have b: "0 \<le> getValue dr d" "getValue dr d \<le> int N - 1"
          "getValue dr d = 0 \<or> m_distances dr ! nat (getValue dr d - 1) < d"
          "d \<le> m_distances dr ! nat (getValue dr d)"
          using Npos by (simp_all add: gv)
        have k: "nat (getValue dr d) < N" using b by linarith
        have k1: "getValue dr d \<noteq> 0 \<Longrightarrow> nat (getValue dr d - 1) = nat (getValue dr d) - 1"
          by (simp add: nat_diff_distrib)
        have k2: "nat (getValue dr d) - 1 < N" using k by simp
        have "getValue dr d = 0 \<or> light_cdf ls (nat (getValue dr d) - 1) < d"
        proof (cases "getValue dr d = 0")
          case True
          then show ?thesis by simp
        next
          case False
          with b(3) have "m_distances dr ! nat (getValue dr d - 1) < d" by simp
          then show ?thesis using k1 [OF False] nth [OF k2] by simp
        qed
        then show ?thesis
          using b k nth [OF k] by (simp add: N_def)
      qed
    qed
  qed
qed

lemma getPdf_power:
  assumes iN: "m_iN dr = int (length ls)"
    and ds: "m_distances dr = partial_sum (map m_fPower ls)"
    and mx: "m_maxD dr = total_power ls"
    and k: "k < length ls"
  shows "getPdf dr (int k) = m_fPower (ls ! k) / total_power ls"
proof (cases k)
  case 0
  with k have "light_cdf ls 0 = m_fPower (ls ! 0)"
    by (cases ls) (simp_all add: light_cdf_def)
  then show ?thesis using 0 k iN mx by (simp add: getPdf_def ds nth_partial_sum_powers)
next
  case (Suc j)
  have "j < length ls" using k Suc by simp
  moreover have "nat (int j) = j" "nat (1 + int j) = Suc j" by simp_all
  ultimately show ?thesis
    using Suc k iN mx light_cdf_Suc [of j ls]
    by (simp add: getPdf_def ds nth_partial_sum_powers)
qed

text \<open>
  C4 (amended). After a fresh, successful commitScene on lights \<open>ls\<close> with positive
  powers, and for a variate \<open>r\<close> in \<open>[0, 1)\<close>: a scene without lights gives no light and
  pdf 0; otherwise, unless \<open>r * \<Sigma>p\<close> is exactly \<open>CDF[N-2]\<close> and above \<open>CDF[0]\<close>,
  sampleLight returns the light \<open>k\<close> that is the least index with
  \<open>r * \<Sigma>p \<le> CDF[k]\<close> (so \<open>CDF[k-1] < r * \<Sigma>p \<le> CDF[k]\<close> when \<open>k > 0\<close>, and \<open>k = 0\<close>
  when \<open>r = 0\<close>), with pdf \<open>p\<^sub>k / \<Sigma>p\<close>.
\<close>

theorem sampleLight_cdf:
  assumes commit: "commitScene s lg = Inr (True, s', lg')"
    and fresh: "\<not> m_bTraceReady s"
    and n: "m_iLightsN s = int (length ls)"
    and l: "m_ppLights s = map Some ls"
    and pos: "\<forall>l\<in>set ls. 0 < m_fPower l"
    and r: "0 \<le> r" "r < 1"
  shows "(ls = [] \<longrightarrow> sampleLight s' (r # rs) = Some ((None, 0), rs)) \<and>
         (ls \<noteq> [] \<and> (r * total_power ls \<le> light_cdf ls 0 \<or>
                      r * total_power ls \<noteq> light_cdf ls (length ls - 2)) \<longrightarrow>
            (\<exists>k<length ls.
               sampleLight s' (r # rs) =
                 Some ((Some (committed_light ls k), m_fPower (ls ! k) / total_power ls), rs) \<and>
               r * total_power ls \<le> light_cdf ls k \<and>
               (k = 0 \<or> light_cdf ls (k - 1) < r * total_power ls) \<and>
               (\<forall>j<length ls. r * total_power ls \<le> light_cdf ls j \<longrightarrow> k \<le> j)))"
proof (rule conjI; rule impI)
  note built = commitScene_builds_sampler [OF commit fresh n l]
  {
    assume "ls = []"
    with built have "m_iN (m_lightsSampler s') = 0" by simp
    then show "sampleLight s' (r # rs) = Some ((None, 0), rs)"
      by (simp add: sampleLight_def getRandom_def getValue_def getPdf_def Let_def)
  next
    assume a: "ls \<noteq> [] \<and> (r * total_power ls \<le> light_cdf ls 0 \<or>
                      r * total_power ls \<noteq> light_cdf ls (length ls - 2))"
    define dr where "dr = m_lightsSampler s'"
    define d where "d = r * total_power ls"
    have ne: "ls \<noteq> []" using a by simp
    have iN: "m_iN dr = int (length ls)" using built by (simp add: dr_def)
    have ds: "m_distances dr = partial_sum (map m_fPower ls)" using built ne by (simp add: dr_def)
    have lastk: "length ls - 1 < length ls" using ne by simp
    have mx: "m_maxD dr = total_power ls"
      using built ne nth_partial_sum_powers [OF lastk] light_cdf_last [OF ne]
      by (simp add: dr_def)
    have tpos: "0 < total_power ls"
      using light_cdf_0_pos [OF pos ne] light_cdf_mono [OF pos, of 0 "length ls - 1"]
            light_cdf_last [OF ne] lastk by simp
    have "r * total_power ls \<le> 1 * total_power ls"
      using r tpos by (intro mult_right_mono) simp_all
    then have top: "d \<le> light_cdf ls (length ls - 1)"
      using light_cdf_last [OF ne] by (simp add: d_def)
    have away: "d \<le> light_cdf ls 0 \<or> d \<noteq> light_cdf ls (length ls - 2)"
      using a by (simp add: d_def)
    define k where "k = nat (getValue dr d)"
    from getValue_least [OF iN ds ne pos top away]
    have g: "0 \<le> getValue dr d" "k < length ls" "d \<le> light_cdf ls k"
      "getValue dr d = 0 \<or> light_cdf ls (k - 1) < d"
      by (simp_all add: k_def)
    have gk: "getValue dr d = int k" using g(1) by (simp add: k_def)
    have k0: "k = 0 \<or> light_cdf ls (k - 1) < d" using g(4) gk by simp
    have least: "\<forall>j<length ls. d \<le> light_cdf ls j \<longrightarrow> k \<le> j"
    proof (intro allI impI)
      fix j assume j: "j < length ls" "d \<le> light_cdf ls j"
      show "k \<le> j"
      proof (rule ccontr)
        assume "\<not> k \<le> j"
        then have jk: "j \<le> k - 1" "k \<noteq> 0" by simp_all
        have "light_cdf ls j \<le> light_cdf ls (k - 1)"
          using light_cdf_mono [OF pos jk(1)] g(2) by simp
        with k0 jk(2) j(2) show False by simp
      qed
    qed
    have lightk: "m_ppLights s' ! k = Some (committed_light ls k)"
      using built g(2) by (simp add: committed_light_def)
    have "sampleLight s' (r # rs) =
            Some ((Some (committed_light ls k), m_fPower (ls ! k) / total_power ls), rs)"
      using gk lightk getPdf_power [OF iN ds mx g(2)] mx
      by (simp add: sampleLight_def getRandom_def Let_def dr_def [symmetric] d_def [symmetric])
    with g(2,3) k0 least
    show "\<exists>k<length ls.
               sampleLight s' (r # rs) =
                 Some ((Some (committed_light ls k), m_fPower (ls ! k) / total_power ls), rs) \<and>
               r * total_power ls \<le> light_cdf ls k \<and>
               (k = 0 \<or> light_cdf ls (k - 1) < r * total_power ls) \<and>
               (\<forall>j<length ls. r * total_power ls \<le> light_cdf ls j \<longrightarrow> k \<le> j)"
      unfolding d_def by blast
  }
qed

theorem sampleLight_cdf_witness:
  "\<exists>k<length three_lights.
     sampleLight (commit_scene (commit_nolog three_lights_scene)) [3 / 8] =
       Some ((Some (committed_light three_lights k),
              m_fPower (three_lights ! k) / total_power three_lights), []) \<and>
     3 / 8 * total_power three_lights \<le> light_cdf three_lights k \<and>
     (k = 0 \<or> light_cdf three_lights (k - 1) < 3 / 8 * total_power three_lights)"
proof -
  define s where "s = projr three_lights_scene"
  define s' where "s' = commit_scene (commit_nolog three_lights_scene)"
  have commit: "commitScene s None = Inr (True, s', None)"
    unfolding s_def s'_def by code_simp
  have fresh: "\<not> m_bTraceReady s" unfolding s_def by code_simp
  have n: "m_iLightsN s = int (length three_lights)" unfolding s_def by code_simp
  have l: "m_ppLights s = map Some three_lights" unfolding s_def by code_simp
  have pos: "\<forall>l\<in>set three_lights. 0 < m_fPower l"
    by (simp add: three_lights_def grey_light_def RenderLightPoint_new_def)
  have away: "three_lights \<noteq> [] \<and>
      (3 / 8 * total_power three_lights \<le> light_cdf three_lights 0 \<or>
       3 / 8 * total_power three_lights \<noteq> light_cdf three_lights (length three_lights - 2))"
    by (simp add: three_lights_def grey_light_def RenderLightPoint_new_def total_power_def
        light_cdf_def)
  from sampleLight_cdf [OF commit fresh n l pos, of "3 / 8" "[]"] away
  show ?thesis unfolding s'_def by simp blast
qed

text \<open>
  C4 as stated fails: with three lights of powers 1, 1, 2 and \<open>r = 1/2\<close> the value
  \<open>r * \<Sigma>p = 2\<close> lies in the segment of light 1 (\<open>CDF[0] = 1 < 2 \<le> CDF[1] = 2\<close>), and
  sampleLight returns light 2.
\<close>

theorem sampleLight_cdf_counterexample:
  "commit_ok (commit_nolog three_lights_scene) \<and>
   sampleLight (commit_scene (commit_nolog three_lights_scene)) [1 / 2] =
     Some ((Some (committed_light three_lights 2), 1 / 2), []) \<and>
   light_cdf_before three_lights 1 < 1 / 2 * total_power three_lights \<and>
   1 / 2 * total_power three_lights \<le> light_cdf three_lights 1 \<and>
   committed_light three_lights 2 \<noteq> committed_light three_lights 1"
  by code_simp

section \<open>Setters\<close>

text \<open>
  C8. A setter called with an index below zero or at or above the allocated count
  returns the scene as it was and raises nothing; a setter called with an index in
  range changes at most the addressed slot of its own array.
\<close>

theorem setters_bounds_checked:
  "(meshId < 0 \<or> meshId \<ge> m_iMeshesN s \<longrightarrow>
      setMesh meshId vertN facesN texN matId vert nrm tans tex s = Inr s) \<and>
   (instId < 0 \<or> instId \<ge> m_iInstancesN s \<longrightarrow> setInstance instId transf mId s = Inr s) \<and>
   (mtId < 0 \<or> mtId \<ge> m_iMaterialsN s - 1 \<longrightarrow> setMaterial mtId newMaterial s = Inr s) \<and>
   (lightId < 0 \<or> lightId \<ge> m_iLightsN s \<longrightarrow> setLight lightId newLight s = Inr s) \<and>
   (texId < 0 \<or> texId \<ge> m_iTexturesN s \<longrightarrow> setTexture texId tw th data copy s = Inr s) \<and>
   (0 \<le> mtId \<and> mtId < m_iMaterialsN s - 1 \<and> mtId < int (length (m_ppMaterials s)) \<longrightarrow>
      setMaterial mtId newMaterial s =
        Inr (s\<lparr>m_ppMaterials := (m_ppMaterials s)[nat mtId := newMaterial]\<rparr>)) \<and>
   (0 \<le> lightId \<and> lightId < m_iLightsN s \<and> lightId < int (length (m_ppLights s)) \<longrightarrow>
      setLight lightId newLight s =
        Inr (s\<lparr>m_ppLights := (m_ppLights s)[nat lightId := newLight]\<rparr>)) \<and>
   (setMesh meshId vertN facesN texN matId vert nrm tans tex s = Inr s1 \<longrightarrow>
      s1 = s\<lparr>m_pMeshes := (m_pMeshes s)[nat meshId := m_pMeshes s1 ! nat meshId]\<rparr>) \<and>
   (setInstance instId transf mId s = Inr s2 \<longrightarrow>
      s2 = s\<lparr>m_pInstances := (m_pInstances s)[nat instId := m_pInstances s2 ! nat instId]\<rparr>) \<and>
   (setMaterial mtId newMaterial s = Inr s3 \<longrightarrow>
      s3 = s\<lparr>m_ppMaterials := (m_ppMaterials s)[nat mtId := m_ppMaterials s3 ! nat mtId]\<rparr>) \<and>
   (setLight lightId newLight s = Inr s4 \<longrightarrow>
      s4 = s\<lparr>m_ppLights := (m_ppLights s)[nat lightId := m_ppLights s4 ! nat lightId]\<rparr>) \<and>
   (setTexture texId tw th data copy s = Inr s5 \<longrightarrow>
      s5 = s\<lparr>m_pTextures := (m_pTextures s)[nat texId := m_pTextures s5 ! nat texId]\<rparr>)"
proof (intro conjI impI)
  show "meshId < 0 \<or> meshId \<ge> m_iMeshesN s \<Longrightarrow>
      setMesh meshId vertN facesN texN matId vert nrm tans tex s = Inr s"
    by (simp add: setMesh_def)
  show "instId < 0 \<or> instId \<ge> m_iInstancesN s \<Longrightarrow> setInstance instId transf mId s = Inr s"
    by (simp add: setInstance_def)
  show "mtId < 0 \<or> mtId \<ge> m_iMaterialsN s - 1 \<Longrightarrow> setMaterial mtId newMaterial s = Inr s"
    by (simp add: setMaterial_def)
  show "lightId < 0 \<or> lightId \<ge> m_iLightsN s \<Longrightarrow> setLight lightId newLight s = Inr s"
    by (simp add: setLight_def)
  show "texId < 0 \<or> texId \<ge> m_iTexturesN s \<Longrightarrow> setTexture texId tw th data copy s = Inr s"
    by (simp add: setTexture_def)
  show "0 \<le> mtId \<and> mtId < m_iMaterialsN s - 1 \<and> mtId < int (length (m_ppMaterials s)) \<Longrightarrow>
      setMaterial mtId newMaterial s =
        Inr (s\<lparr>m_ppMaterials := (m_ppMaterials s)[nat mtId := newMaterial]\<rparr>)"
    by (simp add: setMaterial_def at_index_def)
  show "0 \<le> lightId \<and> lightId < m_iLightsN s \<and> lightId < int (length (m_ppLights s)) \<Longrightarrow>
      setLight lightId newLight s =
        Inr (s\<lparr>m_ppLights := (m_ppLights s)[nat lightId := newLight]\<rparr>)"
    by (simp add: setLight_def at_index_def)
  show "setMesh meshId vertN facesN texN matId vert nrm tans tex s = Inr s1 \<Longrightarrow>
      s1 = s\<lparr>m_pMeshes := (m_pMeshes s)[nat meshId := m_pMeshes s1 ! nat meshId]\<rparr>"
    by (auto simp add: setMesh_def at_index_def Let_def split: if_splits sum.splits)
  show "setInstance instId transf mId s = Inr s2 \<Longrightarrow>
      s2 = s\<lparr>m_pInstances := (m_pInstances s)[nat instId := m_pInstances s2 ! nat instId]\<rparr>"
    by (auto simp add: setInstance_def at_index_def Let_def split: if_splits sum.splits)
  show "setMaterial mtId newMaterial s = Inr s3 \<Longrightarrow>
      s3 = s\<lparr>m_ppMaterials := (m_ppMaterials s)[nat mtId := m_ppMaterials s3 ! nat mtId]\<rparr>"
    by (auto simp add: setMaterial_def at_index_def Let_def split: if_splits sum.splits)
  show "setLight lightId newLight s = Inr s4 \<Longrightarrow>
      s4 = s\<lparr>m_ppLights := (m_ppLights s)[nat lightId := m_ppLights s4 ! nat lightId]\<rparr>"
    by (auto simp add: setLight_def at_index_def Let_def split: if_splits sum.splits)
  show "setTexture texId tw th data copy s = Inr s5 \<Longrightarrow>
      s5 = s\<lparr>m_pTextures := (m_pTextures s)[nat texId := m_pTextures s5 ! nat texId]\<rparr>"
    by (auto simp add: setTexture_def at_index_def Let_def split: if_splits sum.splits)
qed

theorem setters_bounds_checked_witness:
  "setMesh 1 3 1 0 0 True False False [] (projr (one_triangle_scene 1 1 0)) =
     Inr (projr (one_triangle_scene 1 1 0)) \<and>
   setInstance (- 1) identity4 0 (projr (one_triangle_scene 1 1 0)) =
     Inr (projr (one_triangle_scene 1 1 0)) \<and>
   setMaterial 1 None (projr (one_triangle_scene 1 1 0)) = Inr (projr (one_triangle_scene 1 1 0)) \<and>
   setLight 1 None (projr (one_triangle_scene 1 1 0)) = Inr (projr (one_triangle_scene 1 1 0)) \<and>
   setTexture 0 1 1 True True (projr (one_triangle_scene 1 1 0)) =
     Inr (projr (one_triangle_scene 1 1 0)) \<and>
   setMaterial 0 (Some (RenderMaterial_new OpenMaterial)) (projr (one_triangle_scene 1 1 0)) =
     Inr ((projr (one_triangle_scene 1 1 0))
            \<lparr>m_ppMaterials := (m_ppMaterials (projr (one_triangle_scene 1 1 0)))
               [nat 0 := Some (RenderMaterial_new OpenMaterial)]\<rparr>)"
proof -
  define S where "S = projr (one_triangle_scene 1 1 0)"
  have c: "m_iMeshesN S = 1" "m_iInstancesN S = 1" "m_iMaterialsN S = 2" "m_iLightsN S = 1"
    "m_iTexturesN S = 0" "length (m_ppMaterials S) = 3"
    unfolding S_def by code_simp+
  note t = setters_bounds_checked [where s = S and meshId = 1 and instId = "- 1" and mtId = 1
      and lightId = 1 and texId = 0]
  note u = setters_bounds_checked [where s = S and mtId = 0]
  have "setMesh 1 3 1 0 0 True False False [] S = Inr S" using t c by simp
  moreover have "setInstance (- 1) identity4 0 S = Inr S" using t c by simp
  moreover have "setMaterial 1 None S = Inr S" using t c by simp
  moreover have "setLight 1 None S = Inr S" using t c by simp
  moreover have "setTexture 0 1 1 True True S = Inr S" using t c by simp
  moreover have "setMaterial 0 (Some (RenderMaterial_new OpenMaterial)) S =
     Inr (S\<lparr>m_ppMaterials := (m_ppMaterials S)[nat 0 := Some (RenderMaterial_new OpenMaterial)]\<rparr>)"
    using u c by simp
  ultimately show ?thesis unfolding S_def by simp
qed

section \<open>The missing-material slot\<close>

lemma commitScene_lightBody_frame:
  "commitScene_lightBody i s = Inr s' \<Longrightarrow>
   s'\<lparr>m_ppLights := [], m_lightsSampler := DistanceRandom_new\<rparr> =
   s\<lparr>m_ppLights := [], m_lightsSampler := DistanceRandom_new\<rparr>"
  by (auto simp add: commitScene_lightBody_def Let_def
      split: sum.splits option.splits if_splits)

lemma commitScene_lightLoop_frame:
  assumes "for_loop i n commitScene_lightBody s = Inr s'"
  shows "s'\<lparr>m_ppLights := [], m_lightsSampler := DistanceRandom_new\<rparr> =
         s\<lparr>m_ppLights := [], m_lightsSampler := DistanceRandom_new\<rparr>"
  by (rule for_loop_preserves [OF assms]) (rule commitScene_lightBody_frame)

lemma commitScene_matBody_kinds:
  assumes "commitScene_matBody i s = Inr s'"
  shows "(m_iMaterialsN s', map (map_option mat_kind) (m_ppMaterials s')) =
         (m_iMaterialsN s, map (map_option mat_kind) (m_ppMaterials s))"
proof -
  from assms obtain rm where
    at: "at_index (m_ppMaterials s) i = Inr (Some rm)"
    and s': "s' = s\<lparr>m_ppMaterials := (m_ppMaterials s)[nat i :=
                 Some (setRandomSampler (setTextures (m_pTextures s \<noteq> []) (m_iTexturesN s) rm))]\<rparr>"
    by (auto simp add: commitScene_matBody_def split: sum.splits option.splits)
  from at have i: "nat i < length (m_ppMaterials s)" "m_ppMaterials s ! nat i = Some rm"
    by (auto simp add: at_index_def split: if_splits)
  have "map (map_option mat_kind) ((m_ppMaterials s)[nat i :=
          Some (setRandomSampler (setTextures (m_pTextures s \<noteq> []) (m_iTexturesN s) rm))]) =
        (map (map_option mat_kind) (m_ppMaterials s))[nat i := Some (mat_kind rm)]"
    by (simp add: map_update setRandomSampler_def setTextures_def)
  also have "\<dots> = map (map_option mat_kind) (m_ppMaterials s)"
    using i by (intro list_update_same_conv [THEN iffD2]) simp_all
  finally show ?thesis by (simp add: s')
qed

lemma commitScene_material_kinds:
  assumes "commitScene s lg = Inr (ok, s', lg')"
  shows "m_iMaterialsN s' = m_iMaterialsN s \<and>
         map (map_option mat_kind) (m_ppMaterials s') = map (map_option mat_kind) (m_ppMaterials s)"
proof (cases "m_bTraceReady s")
  case True
  with assms show ?thesis by (simp add: commitScene_def)
next
  case False
  from assms False obtain st1 st2 where
    l1: "for_loop 0 (m_iMeshesN s) commitScene_meshBody (s, lg) = Inr st1"
    and l2: "for_loop 0 (m_iInstancesN (fst st1)) commitScene_instBody (fst st1, 0) = Inr st2"
    by (auto simp add: commitScene_def Let_def split: sum.splits prod.splits if_splits)
  have f1: "fst st1 = s\<lparr>m_pMeshes := m_pMeshes (fst st1)\<rparr>"
    using commitScene_meshLoop_frame [OF l1] by simp
  have f2: "fst st2 = (fst st1)\<lparr>m_pInstances := m_pInstances (fst st2)\<rparr>"
    using commitScene_instLoop_frame [OF l2] by simp
  have k2: "m_iMaterialsN (fst st2) = m_iMaterialsN s" "m_ppMaterials (fst st2) = m_ppMaterials s"
    by (subst f2, simp, subst f1, simp)+
  show ?thesis
  proof (cases "snd st2 = m_iInstancesN (fst st2)")
    case True
    with assms False l1 l2 have "s' = fst st2"
      by (auto simp add: commitScene_def Let_def split: sum.splits prod.splits if_splits)
    with k2 show ?thesis by simp
  next
    case ne: False
    from assms False l1 l2 ne obtain s3 s4 lg2 where
      l3: "for_loop 0 (m_iMaterialsN (fst st2)) commitScene_matBody (fst st2) = Inr s3"
      and l4: "for_loop 0 (m_iLightsN s3) commitScene_lightBody
               (s3\<lparr>m_lightsSampler := setCount (m_iLightsN s3) (m_lightsSampler s3)\<rparr>) = Inr s4"
      and b: "buildEmbreeScene
              (if m_iLightsN s4 > 0 then s4\<lparr>m_lightsSampler := calculate (m_lightsSampler s4)\<rparr> else s4)
              lg2 = Inr (ok, s', lg')"
      by (auto simp add: commitScene_def Let_def split: sum.splits prod.splits if_splits)
    have k3: "(m_iMaterialsN s3, map (map_option mat_kind) (m_ppMaterials s3)) =
              (m_iMaterialsN (fst st2), map (map_option mat_kind) (m_ppMaterials (fst st2)))"
      by (rule for_loop_preserves [OF l3]) (rule commitScene_matBody_kinds)
    have "m_iMaterialsN (s4\<lparr>m_ppLights := [], m_lightsSampler := DistanceRandom_new\<rparr>) =
          m_iMaterialsN (s3\<lparr>m_lightsSampler := setCount (m_iLightsN s3) (m_lightsSampler s3)\<rparr>
                           \<lparr>m_ppLights := [], m_lightsSampler := DistanceRandom_new\<rparr>)"
      "m_ppMaterials (s4\<lparr>m_ppLights := [], m_lightsSampler := DistanceRandom_new\<rparr>) =
          m_ppMaterials (s3\<lparr>m_lightsSampler := setCount (m_iLightsN s3) (m_lightsSampler s3)\<rparr>
                           \<lparr>m_ppLights := [], m_lightsSampler := DistanceRandom_new\<rparr>)"
      using commitScene_lightLoop_frame [OF l4] by simp_all
    then have k4: "m_iMaterialsN s4 = m_iMaterialsN s3" "m_ppMaterials s4 = m_ppMaterials s3"
      by simp_all
    define s5 where
      "s5 = (if m_iLightsN s4 > 0 then s4\<lparr>m_lightsSampler := calculate (m_lightsSampler s4)\<rparr> else s4)"
    from b have b5: "buildEmbreeScene s5 lg2 = Inr (ok, s', lg')" by (simp add: s5_def)
    have f5: "s' = s5\<lparr>m_pMeshes := m_pMeshes s', m_embreeScene := m_embreeScene s',
                     m_bTraceReady := m_bTraceReady s'\<rparr>"
      using buildEmbreeScene_frame [OF b5] .
    have k5: "m_iMaterialsN s' = m_iMaterialsN s4" "m_ppMaterials s' = m_ppMaterials s4"
      by (subst f5, simp add: s5_def)+
    from k5 k4 k3 k2 show ?thesis by simp
  qed
qed

lemma setMesh_frame:
  "setMesh meshId vertN facesN texN matId vert nrm tans tex s = Inr s' \<Longrightarrow>
   s' = s\<lparr>m_pMeshes := m_pMeshes s'\<rparr>"
  by (auto simp add: setMesh_def Let_def split: if_splits sum.splits)

lemma setInstance_frame:
  "setInstance instId transf meshId s = Inr s' \<Longrightarrow> s' = s\<lparr>m_pInstances := m_pInstances s'\<rparr>"
  by (auto simp add: setInstance_def Let_def split: if_splits sum.splits)

lemma setLight_frame:
  "setLight lightId newLight s = Inr s' \<Longrightarrow> s' = s\<lparr>m_ppLights := m_ppLights s'\<rparr>"
  by (auto simp add: setLight_def Let_def split: if_splits sum.splits)

lemma setTexture_frame:
  "setTexture texId tw th data copy s = Inr s' \<Longrightarrow> s' = s\<lparr>m_pTextures := m_pTextures s'\<rparr>"
  by (auto simp add: setTexture_def Let_def split: if_splits sum.splits)

lemma allocate_missing_material:
  assumes "allocate meshN instN matN textN ligN s0 = Inr s"
  shows "0 \<le> matN \<and> m_iMaterialsN s = matN + 1 \<and> missing_material_at s matN"
proof -
  from assms have ge: "0 \<le> matN"
    by (auto simp add: allocate_def Let_def split: if_splits)
  from assms ge have n: "m_iMaterialsN s = matN + 1"
    and m: "m_ppMaterials s = (replicate (nat (matN + 1 + 1)) None)[nat (matN + 1 - 1) :=
              Some (RenderMaterial_new (DiffuseColorMaterial BDPT_MISSING_MATERIAL_COLOR))]"
    by (auto simp add: allocate_def Let_def split: if_splits)
  have lt: "nat matN < nat (matN + 1 + 1)" using ge by simp
  have "at_index (m_ppMaterials s) matN =
          Inr (Some (RenderMaterial_new (DiffuseColorMaterial BDPT_MISSING_MATERIAL_COLOR)))"
    using ge lt by (simp add: m at_index_def)
  then have "missing_material_at s matN"
    by (simp add: missing_material_at_def RenderMaterial_new_def)
  with ge n show ?thesis by simp
qed

lemma apply_op_missing_material:
  assumes "apply_op x s = Inr s'" and "missing_material_at s (m_iMaterialsN s - 1)"
  shows "m_iMaterialsN s' = m_iMaterialsN s \<and> missing_material_at s' (m_iMaterialsN s - 1)"
proof (cases x)
  case (SetMaterial matId newMaterial)
  show ?thesis
  proof (cases "matId < 0 \<or> matId \<ge> m_iMaterialsN s - 1")
    case True
    with assms SetMaterial show ?thesis by (simp add: setMaterial_def)
  next
    case False
    with assms(1) SetMaterial
    have s': "s' = s\<lparr>m_ppMaterials := (m_ppMaterials s)[nat matId := newMaterial]\<rparr>"
      by (auto simp add: setMaterial_def split: sum.splits)
    have "nat matId \<noteq> nat (m_iMaterialsN s - 1)" using False by linarith
    with assms(2) show ?thesis
      by (simp add: s' missing_material_at_def at_index_def split: if_splits)
  qed
next
  case (CommitScene lg)
  with assms(1) obtain ok lg' where c: "commitScene s lg = Inr (ok, s', lg')"
    by (auto split: sum.splits)
  from commitScene_material_kinds [OF c]
  have n: "m_iMaterialsN s' = m_iMaterialsN s"
    and k: "map (map_option mat_kind) (m_ppMaterials s') = map (map_option mat_kind) (m_ppMaterials s)"
    by simp_all
  from k have len: "length (m_ppMaterials s') = length (m_ppMaterials s)"
    by (metis length_map)
  define j where "j = nat (m_iMaterialsN s - 1)"
  from assms(2) have j: "0 \<le> m_iMaterialsN s - 1" "j < length (m_ppMaterials s)"
    and old: "map_option mat_kind (m_ppMaterials s ! j) =
              Some (DiffuseColorMaterial BDPT_MISSING_MATERIAL_COLOR)"
    by (auto simp add: missing_material_at_def at_index_def j_def
        split: if_splits sum.splits option.splits)
  have "map (map_option mat_kind) (m_ppMaterials s') ! j = map (map_option mat_kind) (m_ppMaterials s) ! j"
    using k by simp
  then have "map_option mat_kind (m_ppMaterials s' ! j) = map_option mat_kind (m_ppMaterials s ! j)"
    using j len by simp
  with old have "map_option mat_kind (m_ppMaterials s' ! j) =
              Some (DiffuseColorMaterial BDPT_MISSING_MATERIAL_COLOR)" by simp
  then have "missing_material_at s' (m_iMaterialsN s - 1)"
    using j len by (auto simp add: missing_material_at_def at_index_def j_def split: option.splits)
  with n show ?thesis by simp
next
  case (SetMesh meshId vertN facesN texN matId vert nrm tans tex)
  with assms(1) have e: "s' = s\<lparr>m_pMeshes := m_pMeshes s'\<rparr>" by (simp add: setMesh_frame)
  have "m_iMaterialsN s' = m_iMaterialsN s" "m_ppMaterials s' = m_ppMaterials s"
    by (subst e, simp)+
  with assms(2) show ?thesis by (simp add: missing_material_at_def)
next
  case (SetInstance instId transf meshId)
  with assms(1) have e: "s' = s\<lparr>m_pInstances := m_pInstances s'\<rparr>" by (simp add: setInstance_frame)
  have "m_iMaterialsN s' = m_iMaterialsN s" "m_ppMaterials s' = m_ppMaterials s"
    by (subst e, simp)+
  with assms(2) show ?thesis by (simp add: missing_material_at_def)
next
  case (SetLight lightId newLight)
  with assms(1) have e: "s' = s\<lparr>m_ppLights := m_ppLights s'\<rparr>" by (simp add: setLight_frame)
  have "m_iMaterialsN s' = m_iMaterialsN s" "m_ppMaterials s' = m_ppMaterials s"
    by (subst e, simp)+
  with assms(2) show ?thesis by (simp add: missing_material_at_def)
next
  case (SetTexture texId tw th data copy)
  with assms(1) have e: "s' = s\<lparr>m_pTextures := m_pTextures s'\<rparr>" by (simp add: setTexture_frame)
  have "m_iMaterialsN s' = m_iMaterialsN s" "m_ppMaterials s' = m_ppMaterials s"
    by (subst e, simp)+
  with assms(2) show ?thesis by (simp add: missing_material_at_def)
next
  case (SetBackground b)
  with assms show ?thesis by (auto simp add: setBackground_def missing_material_at_def)
qed

lemma apply_ops_missing_material:
  "apply_ops ops s = Inr s' \<Longrightarrow> missing_material_at s (m_iMaterialsN s - 1) \<Longrightarrow>
   m_iMaterialsN s' = m_iMaterialsN s \<and> missing_material_at s' (m_iMaterialsN s - 1)"
proof (induction ops arbitrary: s)
  case Nil
  then show ?case by simp
next
  case (Cons x xs)
  from Cons.prems(1) obtain t where x: "apply_op x s = Inr t" and xs: "apply_ops xs t = Inr s'"
    by (auto split: sum.splits)
  from apply_op_missing_material [OF x Cons.prems(2)]
  have t: "m_iMaterialsN t = m_iMaterialsN s" "missing_material_at t (m_iMaterialsN t - 1)"
    by simp_all
  from Cons.IH [OF xs t(2)] t(1) show ?case by simp
qed

text \<open>
  C6. After \<^verbatim>\<open>allocate(meshN, instN, matN, textN, ligN)\<close> slot \<open>matN\<close> of the material
  array holds the diffuse missing-material object, and it still does after any sequence
  of setter calls (and commits): \<^verbatim>\<open>setMaterial\<close> declines every index from \<open>matN\<close> on.
\<close>

theorem missing_material_slot_kept:
  assumes "allocate meshN instN matN textN ligN s0 = Inr s"
    and "apply_ops ops s = Inr s'"
  shows "missing_material_at s matN \<and> missing_material_at s' matN \<and>
         m_iMaterialsN s' = matN + 1 \<and>
         (\<forall>matId newMaterial. matN \<le> matId \<longrightarrow> setMaterial matId newMaterial s' = Inr s')"
proof -
  from allocate_missing_material [OF assms(1)]
  have a: "0 \<le> matN" "m_iMaterialsN s = matN + 1" "missing_material_at s matN" by simp_all
  then have "missing_material_at s (m_iMaterialsN s - 1)" by simp
  from apply_ops_missing_material [OF assms(2) this] a
  have b: "m_iMaterialsN s' = matN + 1" "missing_material_at s' matN" by simp_all
  then have "\<forall>matId newMaterial. matN \<le> matId \<longrightarrow> setMaterial matId newMaterial s' = Inr s'"
    by (simp add: setMaterial_def)
  with a b show ?thesis by simp
qed

theorem missing_material_slot_kept_witness:
  "missing_material_at
     (projr (apply_ops example_ops
        (projr (allocate 1 1 1 0 1 (RenderScene_new (Some (RTCDevice True))))))) 1 \<and>
   m_iMaterialsN
     (projr (apply_ops example_ops
        (projr (allocate 1 1 1 0 1 (RenderScene_new (Some (RTCDevice True))))))) = 1 + 1 \<and>
   setMaterial 1 None
     (projr (apply_ops example_ops
        (projr (allocate 1 1 1 0 1 (RenderScene_new (Some (RTCDevice True))))))) =
   Inr (projr (apply_ops example_ops
        (projr (allocate 1 1 1 0 1 (RenderScene_new (Some (RTCDevice True)))))))"
proof -
  define S where "S = projr (allocate 1 1 1 0 1 (RenderScene_new (Some (RTCDevice True))))"
  define S' where "S' = projr (apply_ops example_ops S)"
  have a: "allocate 1 1 1 0 1 (RenderScene_new (Some (RTCDevice True))) = Inr S"
    unfolding S_def by code_simp
  have b: "apply_ops example_ops S = Inr S'"
    unfolding S'_def S_def by code_simp
  from missing_material_slot_kept [OF a b]
  show ?thesis unfolding S'_def S_def by simp
qed

section \<open>Unresolved material references in commitScene\<close>

lemma push_all_Nil [simp]: "push_all lg [] = lg"
  by (cases lg) (simp_all add: push_all_def)

lemma push_all_push_back: "push_back (push_all lg xs) x = push_all lg (xs @ [x])"
  by (cases lg) (simp_all add: push_all_def push_back_def)

lemma push_all_append: "push_all (push_all lg xs) ys = push_all lg (xs @ ys)"
  by (cases lg) (simp_all add: push_all_def)

lemma push_back_push_all: "push_back lg x = push_all lg [x]"
  by (cases lg) (simp_all add: push_all_def push_back_def)

lemma isValid_matId [simp]: "isValid (m\<lparr>m_iMatId := k\<rparr>) = isValid m"
  by (simp add: isValid_def)

lemma commitMesh_result:
  assumes "commitMesh ch m = Inr (ok, m')"
  shows "ok = isValid m \<and>
         m' = (if isValid m then m\<lparr>m_vNormalDef := True, m_bTangentDef := True\<rparr>
               else RenderMesh_reset)"
  using assms
  by (auto simp add: commitMesh_def computeNormals_def computeTangents_def
      computeTangents_channel_def RenderMesh_free_def Let_def
      split: if_splits sum.splits)

lemma commitScene_meshBody_result:
  assumes "commitScene_meshBody i (t, lgt) = Inr (t', lgt')"
  shows "0 \<le> i \<and> nat i < length (m_pMeshes t) \<and>
         t' = t\<lparr>m_pMeshes := (m_pMeshes t)[nat i := mesh_committed t (m_pMeshes t ! nat i)]\<rparr> \<and>
         lgt' = push_all lgt (mesh_messages t (nat i))"
proof -
  define m where "m = m_pMeshes t ! nat i"
  from assms have at: "at_index (m_pMeshes t) i = Inr m"
    by (auto simp add: commitScene_meshBody_def m_def at_index_def split: sum.splits if_splits)
  then have i: "0 \<le> i" "nat i < length (m_pMeshes t)"
    by (auto simp add: at_index_def split: if_splits)
  have ii: "int (nat i) = i" using i by simp
  show ?thesis
  proof (cases "material_in_range t m")
    case False
    then have un: "material_unresolved t m" "\<not> material_null t m"
      by (simp_all add: material_unresolved_def material_null_def)
    from assms at False obtain ok m2 where
      cm: "commitMesh (- 1) (m\<lparr>m_iMatId := m_iMaterialsN t - 1\<rparr>) = Inr (ok, m2)"
      and r: "t' = t\<lparr>m_pMeshes := (m_pMeshes t)[nat i := m2]\<rparr>"
        "lgt' = (if \<not> ok then push_back lgt (to_string i @ '' mesh is inconsistent'') else lgt)"
      by (auto simp add: commitScene_meshBody_def material_in_range_def Let_def
          split: sum.splits prod.splits)
    from commitMesh_result [OF cm] r
    have "t' = t\<lparr>m_pMeshes := (m_pMeshes t)[nat i := mesh_committed t (m_pMeshes t ! nat i)]\<rparr> \<and>
         lgt' = push_all lgt (mesh_messages t (nat i))"
      using un ii
      by (simp add: mesh_committed_def mesh_messages_def m_def [symmetric]
          push_back_push_all Let_def)
    with i show ?thesis by simp
  next
    case True
    then obtain slot where slot: "at_index (m_ppMaterials t) (m_iMatId m) = Inr slot"
      using assms at
      by (auto simp add: commitScene_meshBody_def material_in_range_def Let_def
          split: sum.splits)
    show ?thesis
    proof (cases slot)
      case None
      then have un: "material_unresolved t m" "material_null t m"
        using True slot by (simp_all add: material_unresolved_def material_null_def)
      from assms at True slot None obtain ok m2 where
        cm: "commitMesh (- 1) (m\<lparr>m_iMatId := m_iMaterialsN t - 1\<rparr>) = Inr (ok, m2)"
        and r: "t' = t\<lparr>m_pMeshes := (m_pMeshes t)[nat i := m2]\<rparr>"
          "lgt' = (if \<not> ok
                   then push_back (push_back lgt (to_string i @ '' mesh refers to undefined material'' @
                                            to_string (m_iMatId m)))
                        (to_string i @ '' mesh is inconsistent'')
                   else push_back lgt (to_string i @ '' mesh refers to undefined material'' @
                                            to_string (m_iMatId m)))"
        by (auto simp add: commitScene_meshBody_def material_in_range_def Let_def
            split: sum.splits prod.splits)
      from commitMesh_result [OF cm] r
      have "t' = t\<lparr>m_pMeshes := (m_pMeshes t)[nat i := mesh_committed t (m_pMeshes t ! nat i)]\<rparr> \<and>
           lgt' = push_all lgt (mesh_messages t (nat i))"
        using un ii
        by (simp add: mesh_committed_def mesh_messages_def m_def [symmetric]
            push_back_push_all push_all_append Let_def undefined_material_message_def)
      with i show ?thesis by simp
    next
      case (Some rm)
      then have un: "\<not> material_unresolved t m" "\<not> material_null t m"
        using True slot by (simp_all add: material_unresolved_def material_null_def)
      from assms at True slot Some obtain ok m2 where
        cm: "commitMesh (getNormalTextureChannel rm) m = Inr (ok, m2)"
        and r: "t' = t\<lparr>m_pMeshes := (m_pMeshes t)[nat i := m2]\<rparr>"
          "lgt' = (if \<not> ok then push_back lgt (to_string i @ '' mesh is inconsistent'') else lgt)"
        by (auto simp add: commitScene_meshBody_def material_in_range_def Let_def
            split: sum.splits prod.splits simp del: getNormalTextureChannel.simps)
      from commitMesh_result [OF cm] r
      have "t' = t\<lparr>m_pMeshes := (m_pMeshes t)[nat i := mesh_committed t (m_pMeshes t ! nat i)]\<rparr> \<and>
           lgt' = push_all lgt (mesh_messages t (nat i))"
        using un ii
        by (simp add: mesh_committed_def mesh_messages_def m_def [symmetric]
            push_back_push_all Let_def del: getNormalTextureChannel.simps)
      with i show ?thesis by simp
    qed
  qed
qed

lemma mesh_committed_cong:
  "m_iMaterialsN t = m_iMaterialsN s \<Longrightarrow> m_ppMaterials t = m_ppMaterials s \<Longrightarrow>
   mesh_committed t m = mesh_committed s m"
  by (simp add: mesh_committed_def material_unresolved_def material_null_def material_in_range_def)

lemma mesh_messages_cong:
  "m_iMaterialsN t = m_iMaterialsN s \<Longrightarrow> m_ppMaterials t = m_ppMaterials s \<Longrightarrow>
   m_pMeshes t ! i = m_pMeshes s ! i \<Longrightarrow> mesh_messages t i = mesh_messages s i"
  by (simp add: mesh_messages_def material_null_def material_in_range_def)

lemma commitScene_meshLoop_result:
  assumes loop: "for_loop 0 (m_iMeshesN s) commitScene_meshBody (s, lgo) = Inr (s1, lg1)"
  shows "(\<forall>k<nat (m_iMeshesN s). k < length (m_pMeshes s) \<and>
            m_pMeshes s1 ! k = mesh_committed s (m_pMeshes s ! k)) \<and>
         lg1 = push_all lgo (concat (map (mesh_messages s) [0..<nat (m_iMeshesN s)])) \<and>
         length (m_pMeshes s1) = length (m_pMeshes s)"
proof (cases "0 \<le> m_iMeshesN s")
  case False
  then have "for_loop 0 (m_iMeshesN s) commitScene_meshBody (s, lgo) = Inr (s, lgo)"
    by (simp add: for_loop_empty)
  with loop False show ?thesis by simp
next
  case True
  define I where "I j st \<longleftrightarrow>
      (fst st)\<lparr>m_pMeshes := []\<rparr> = s\<lparr>m_pMeshes := []\<rparr> \<and>
      length (m_pMeshes (fst st)) = length (m_pMeshes s) \<and>
      (\<forall>k<length (m_pMeshes s). m_pMeshes (fst st) ! k =
          (if int k < j then mesh_committed s (m_pMeshes s ! k) else m_pMeshes s ! k)) \<and>
      j \<le> int (length (m_pMeshes s)) \<and>
      snd st = push_all lgo (concat (map (mesh_messages s) [0..<nat j]))"
    for j and st :: "RenderScene \<times> string list option"
  have "I (m_iMeshesN s) (s1, lg1)"
  proof (rule for_loop_invariant [OF loop, where I = I])
    show "I 0 (s, lgo)" by (simp add: I_def)
    show "0 \<le> m_iMeshesN s" by (rule True)
  next
    fix j and t t' :: "RenderScene \<times> string list option"
    assume j: "0 \<le> j" "j < m_iMeshesN s" and It: "I j t"
      and body: "commitScene_meshBody j t = Inr t'"
    from It have fr: "(fst t)\<lparr>m_pMeshes := []\<rparr> = s\<lparr>m_pMeshes := []\<rparr>"
      and len: "length (m_pMeshes (fst t)) = length (m_pMeshes s)"
      and nth: "\<forall>k<length (m_pMeshes s). m_pMeshes (fst t) ! k =
          (if int k < j then mesh_committed s (m_pMeshes s ! k) else m_pMeshes s ! k)"
      and lgt: "snd t = push_all lgo (concat (map (mesh_messages s) [0..<nat j]))"
      by (simp_all add: I_def)
    have "m_iMaterialsN ((fst t)\<lparr>m_pMeshes := []\<rparr>) = m_iMaterialsN (s\<lparr>m_pMeshes := []\<rparr>)"
      "m_ppMaterials ((fst t)\<lparr>m_pMeshes := []\<rparr>) = m_ppMaterials (s\<lparr>m_pMeshes := []\<rparr>)"
      using fr by simp_all
    then have mats: "m_iMaterialsN (fst t) = m_iMaterialsN s" "m_ppMaterials (fst t) = m_ppMaterials s"
      by simp_all
    from commitScene_meshBody_result [of j "fst t" "snd t" "fst t'" "snd t'"] body
    have lt: "nat j < length (m_pMeshes (fst t))"
      and t': "fst t' = (fst t)\<lparr>m_pMeshes := (m_pMeshes (fst t))
                 [nat j := mesh_committed (fst t) (m_pMeshes (fst t) ! nat j)]\<rparr>"
      and lg': "snd t' = push_all (snd t) (mesh_messages (fst t) (nat j))"
      by simp_all
    have ltj: "nat j < length (m_pMeshes s)" using lt len by simp
    have cur: "m_pMeshes (fst t) ! nat j = m_pMeshes s ! nat j"
      using nth ltj j by simp
    have mc: "mesh_committed (fst t) (m_pMeshes (fst t) ! nat j) = mesh_committed s (m_pMeshes s ! nat j)"
      using mesh_committed_cong [OF mats] cur by simp
    have mm: "mesh_messages (fst t) (nat j) = mesh_messages s (nat j)"
      using mesh_messages_cong [OF mats cur] .
    have a: "(fst t')\<lparr>m_pMeshes := []\<rparr> = s\<lparr>m_pMeshes := []\<rparr>"
      using fr by (simp add: t')
    have b: "length (m_pMeshes (fst t')) = length (m_pMeshes s)"
      using len by (simp add: t')
    have c: "\<forall>k<length (m_pMeshes s). m_pMeshes (fst t') ! k =
          (if int k < j + 1 then mesh_committed s (m_pMeshes s ! k) else m_pMeshes s ! k)"
    proof (intro allI impI)
      fix k assume k: "k < length (m_pMeshes s)"
      show "m_pMeshes (fst t') ! k =
          (if int k < j + 1 then mesh_committed s (m_pMeshes s ! k) else m_pMeshes s ! k)"
      proof (cases "k = nat j")
        case True
        then show ?thesis using k len j by (simp add: t' mc)
      next
        case False
        then have "int k < j + 1 \<longleftrightarrow> int k < j" using j by linarith
        then show ?thesis using nth k False by (simp add: t')
      qed
    qed
    have d: "j + 1 \<le> int (length (m_pMeshes s))" using ltj j by simp
    have "[0..<nat (j + 1)] = [0..<nat j] @ [nat j]"
      using j by (simp add: nat_add_distrib)
    then have e: "snd t' = push_all lgo (concat (map (mesh_messages s) [0..<nat (j + 1)]))"
      by (simp add: lg' lgt mm push_all_append)
    from a b c d e show "I (j + 1) t'" by (simp add: I_def)
  qed
  then have fin: "length (m_pMeshes s1) = length (m_pMeshes s)"
    "\<forall>k<length (m_pMeshes s). m_pMeshes s1 ! k =
          (if int k < m_iMeshesN s then mesh_committed s (m_pMeshes s ! k) else m_pMeshes s ! k)"
    "m_iMeshesN s \<le> int (length (m_pMeshes s))"
    "lg1 = push_all lgo (concat (map (mesh_messages s) [0..<nat (m_iMeshesN s)]))"
    by (simp_all add: I_def)
  have "\<forall>k<nat (m_iMeshesN s). k < length (m_pMeshes s) \<and>
            m_pMeshes s1 ! k = mesh_committed s (m_pMeshes s ! k)"
  proof (intro allI impI)
    fix k assume k: "k < nat (m_iMeshesN s)"
    then have "k < length (m_pMeshes s)" "int k < m_iMeshesN s" using fin(3) by linarith+
    with fin(2) show "k < length (m_pMeshes s) \<and>
            m_pMeshes s1 ! k = mesh_committed s (m_pMeshes s ! k)" by simp
  qed
  with fin show ?thesis by simp
qed

lemma buildEmbreeScene_meshBody_matIds:
  "buildEmbreeScene_meshBody dev i s = Inr s' \<Longrightarrow>
   map m_iMatId (m_pMeshes s') = map m_iMatId (m_pMeshes s)"
  by (auto simp add: buildEmbreeScene_meshBody_def at_index_def Let_def map_update
      list_update_same_conv split: sum.splits option.splits if_splits)

lemma buildEmbreeScene_result:
  assumes "buildEmbreeScene s lg = Inr (ok, s', lg')"
  shows "map m_iMatId (m_pMeshes s') = map m_iMatId (m_pMeshes s) \<and>
         (\<exists>tail. lg' = push_all lg tail \<and>
            (tail = [] \<or> tail = [''Embree devide is not initialized''] \<or>
             tail = [''Can not create embree scene'']))"
proof (cases "m_embreeDevice s")
  case None
  with assms have "s' = s" "lg' = push_all lg [''Embree devide is not initialized'']"
    by (simp_all add: buildEmbreeScene_def push_back_push_all)
  then show ?thesis by blast
next
  case (Some dev)
  show ?thesis
  proof (cases "rtcNewScene dev")
    case None
    with Some assms have "s' = s\<lparr>m_embreeScene := None\<rparr>"
      "lg' = push_all lg [''Can not create embree scene'']"
      by (simp_all add: buildEmbreeScene_def push_back_push_all)
    then show ?thesis by auto
  next
    case sc: (Some sc)
    from assms Some sc obtain s1 st2 where
      l1: "for_loop 0 (m_iMeshesN s) (buildEmbreeScene_meshBody dev) (s\<lparr>m_embreeScene := Some sc\<rparr>) = Inr s1"
      and l2: "for_loop 0 (m_iInstancesN s1) buildEmbreeScene_instBody (s1, sc) = Inr st2"
      and s': "s' = (fst st2)\<lparr>m_embreeScene := Some (rtcCommitScene (snd st2)), m_bTraceReady := True\<rparr>"
      and lg': "lg' = lg"
      by (auto simp add: buildEmbreeScene_def split: sum.splits prod.splits)
    from buildEmbreeScene_instLoop_frame [OF l2] have f2: "fst st2 = s1" by simp
    have "map m_iMatId (m_pMeshes s1) = map m_iMatId (m_pMeshes (s\<lparr>m_embreeScene := Some sc\<rparr>))"
      by (rule for_loop_preserves [OF l1]) (rule buildEmbreeScene_meshBody_matIds)
    then have "map m_iMatId (m_pMeshes s') = map m_iMatId (m_pMeshes s)"
      by (simp add: s' f2)
    moreover have "lg' = push_all lg []" by (simp add: lg')
    ultimately show ?thesis by blast
  qed
qed


lemma commitScene_null_slot_dereferenced:
  "commit_log null_slot_scene = Inl NullPointerDereference"
  by code_simp

text \<open>
  C7 (amended). In a commitScene that does its work and returns, every mesh whose
  material index is out of range is given the index of the missing-material slot, and
  no log entry about an undefined material is written for it. A mesh that passes the
  validity check keeps that index; a mesh that fails it is released, which sets its
  index to \<open>-1\<close>, and its only entry in the log is the one about the inconsistent mesh.
  The log receives the entries of the meshes in their order, then at most one entry
  about invalid instances and one about Embree.
\<close>

theorem commitScene_unresolved_materials:
  assumes commit: "commitScene s lg = Inr (ok, s', lg')"
    and fresh: "\<not> m_bTraceReady s"
  shows "(\<forall>k<nat (m_iMeshesN s). \<not> material_in_range s (m_pMeshes s ! k) \<longrightarrow>
            (if isValid (m_pMeshes s ! k)
             then m_iMatId (m_pMeshes s' ! k) = m_iMaterialsN s - 1 \<and> mesh_messages s k = []
             else m_iMatId (m_pMeshes s' ! k) = - 1 \<and>
                  mesh_messages s k = [to_string (int k) @ '' mesh is inconsistent''])) \<and>
         (\<exists>falseInst tail.
            lg' = push_all lg
                    (concat (map (mesh_messages s) [0..<nat (m_iMeshesN s)]) @
                     (if falseInst \<noteq> 0 then [instances_message falseInst (m_iInstancesN s)] else []) @
                     tail) \<and>
            (tail = [] \<or> tail = [''Embree devide is not initialized''] \<or>
             tail = [''Can not create embree scene'']))"
proof -
  from commit fresh obtain st1 st2 where
    l1: "for_loop 0 (m_iMeshesN s) commitScene_meshBody (s, lg) = Inr st1"
    and l2: "for_loop 0 (m_iInstancesN (fst st1)) commitScene_instBody (fst st1, 0) = Inr st2"
    by (auto simp add: commitScene_def Let_def split: sum.splits prod.splits if_splits)
  define n where "n = nat (m_iMeshesN s)"
  define msgs where "msgs = concat (map (mesh_messages s) [0..<n])"
  from commitScene_meshLoop_result [of s lg "fst st1" "snd st1"] l1
  have m1: "\<forall>k<n. k < length (m_pMeshes s) \<and>
            m_pMeshes (fst st1) ! k = mesh_committed s (m_pMeshes s ! k)"
    and lg1: "snd st1 = push_all lg msgs"
    and len1: "length (m_pMeshes (fst st1)) = length (m_pMeshes s)"
    by (simp_all add: n_def msgs_def)
  have f1: "fst st1 = s\<lparr>m_pMeshes := m_pMeshes (fst st1)\<rparr>"
    using commitScene_meshLoop_frame [OF l1] by simp
  have f2: "fst st2 = (fst st1)\<lparr>m_pInstances := m_pInstances (fst st2)\<rparr>"
    using commitScene_instLoop_frame [OF l2] by simp
  have mesh2: "m_pMeshes (fst st2) = m_pMeshes (fst st1)" by (subst f2) simp
  have in2: "m_iInstancesN (fst st2) = m_iInstancesN s" by (subst f2, simp, subst f1, simp)
  define lg2 where "lg2 = (if snd st2 \<noteq> 0
      then push_back (snd st1) (instances_message (snd st2) (m_iInstancesN s)) else snd st1)"
  have lg2: "lg2 = push_all lg (msgs @
      (if snd st2 \<noteq> 0 then [instances_message (snd st2) (m_iInstancesN s)] else []))"
    by (simp add: lg2_def lg1 push_all_push_back)
  have ids: "map m_iMatId (m_pMeshes s') = map m_iMatId (m_pMeshes (fst st1)) \<and>
             (\<exists>tail. lg' = push_all lg2 tail \<and>
                (tail = [] \<or> tail = [''Embree devide is not initialized''] \<or>
                 tail = [''Can not create embree scene'']))"
  proof (cases "snd st2 = m_iInstancesN (fst st2)")
    case True
    with commit fresh l1 l2 in2 have "s' = fst st2" "lg' = lg2"
      by (auto simp add: commitScene_def Let_def lg2_def instances_message_def
          split: sum.splits prod.splits if_splits)
    then have "map m_iMatId (m_pMeshes s') = map m_iMatId (m_pMeshes (fst st1))"
      "lg' = push_all lg2 []"
      using mesh2 by simp_all
    then show ?thesis by blast
  next
    case ne: False
    from commit fresh l1 l2 ne in2 obtain s3 s4 where
      l3: "for_loop 0 (m_iMaterialsN (fst st2)) commitScene_matBody (fst st2) = Inr s3"
      and l4: "for_loop 0 (m_iLightsN s3) commitScene_lightBody
               (s3\<lparr>m_lightsSampler := setCount (m_iLightsN s3) (m_lightsSampler s3)\<rparr>) = Inr s4"
      and b: "buildEmbreeScene
              (if m_iLightsN s4 > 0 then s4\<lparr>m_lightsSampler := calculate (m_lightsSampler s4)\<rparr> else s4)
              lg2 = Inr (ok, s', lg')"
      by (auto simp add: commitScene_def Let_def lg2_def instances_message_def
          split: sum.splits prod.splits if_splits)
    have f3: "s3 = (fst st2)\<lparr>m_ppMaterials := m_ppMaterials s3\<rparr>"
      using commitScene_matLoop_frame [OF l3] .
    have mesh3: "m_pMeshes s3 = m_pMeshes (fst st2)" by (subst f3) simp
    have "m_pMeshes (s4\<lparr>m_ppLights := [], m_lightsSampler := DistanceRandom_new\<rparr>) =
          m_pMeshes (s3\<lparr>m_lightsSampler := setCount (m_iLightsN s3) (m_lightsSampler s3)\<rparr>
                       \<lparr>m_ppLights := [], m_lightsSampler := DistanceRandom_new\<rparr>)"
      using commitScene_lightLoop_frame [OF l4] by simp
    then have mesh4: "m_pMeshes s4 = m_pMeshes s3" by simp
    define s5 where
      "s5 = (if m_iLightsN s4 > 0 then s4\<lparr>m_lightsSampler := calculate (m_lightsSampler s4)\<rparr> else s4)"
    have mesh5: "m_pMeshes s5 = m_pMeshes s4" by (simp add: s5_def)
    from b have b5: "buildEmbreeScene s5 lg2 = Inr (ok, s', lg')" by (simp add: s5_def)
    from buildEmbreeScene_result [OF b5] mesh5 mesh4 mesh3 mesh2 show ?thesis by simp
  qed
  then obtain tail where ids': "map m_iMatId (m_pMeshes s') = map m_iMatId (m_pMeshes (fst st1))"
    and tail: "lg' = push_all lg2 tail"
      "tail = [] \<or> tail = [''Embree devide is not initialized''] \<or>
       tail = [''Can not create embree scene'']"
    by blast
  have len': "length (m_pMeshes s') = length (m_pMeshes s)"
    using ids' len1 by (metis length_map)
  have part1: "\<forall>k<n. \<not> material_in_range s (m_pMeshes s ! k) \<longrightarrow>
            (if isValid (m_pMeshes s ! k)
             then m_iMatId (m_pMeshes s' ! k) = m_iMaterialsN s - 1 \<and> mesh_messages s k = []
             else m_iMatId (m_pMeshes s' ! k) = - 1 \<and>
                  mesh_messages s k = [to_string (int k) @ '' mesh is inconsistent''])"
  proof (intro allI impI)
    fix k assume k: "k < n" and out: "\<not> material_in_range s (m_pMeshes s ! k)"
    from m1 k have kl: "k < length (m_pMeshes s)"
      and mk: "m_pMeshes (fst st1) ! k = mesh_committed s (m_pMeshes s ! k)" by simp_all
    have "map m_iMatId (m_pMeshes s') ! k = map m_iMatId (m_pMeshes (fst st1)) ! k"
      using ids' by simp
    then have id: "m_iMatId (m_pMeshes s' ! k) = m_iMatId (mesh_committed s (m_pMeshes s ! k))"
      using kl len' len1 by (simp add: mk)
    from out have un: "material_unresolved s (m_pMeshes s ! k)"
      "\<not> material_null s (m_pMeshes s ! k)"
      by (simp_all add: material_unresolved_def material_null_def)
    show "if isValid (m_pMeshes s ! k)
          then m_iMatId (m_pMeshes s' ! k) = m_iMaterialsN s - 1 \<and> mesh_messages s k = []
          else m_iMatId (m_pMeshes s' ! k) = - 1 \<and>
               mesh_messages s k = [to_string (int k) @ '' mesh is inconsistent'']"
      using un by (simp add: id mesh_committed_def mesh_messages_def RenderMesh_reset_def)
  qed
  have "lg' = push_all lg (msgs @
      (if snd st2 \<noteq> 0 then [instances_message (snd st2) (m_iInstancesN s)] else []) @ tail)"
    by (simp add: tail(1) lg2 push_all_append)
  with tail(2) part1 show ?thesis unfolding n_def msgs_def by blast
qed

theorem commitScene_unresolved_materials_witness:
  "commit_ok (commit_log two_mesh_scene) \<and>
   m_iMatId (m_pMeshes (commit_scene (commit_log two_mesh_scene)) ! 0) =
     m_iMaterialsN (projr two_mesh_scene) - 1 \<and>
   m_iMatId (m_pMeshes (commit_scene (commit_log two_mesh_scene)) ! 1) = - 1 \<and>
   mesh_messages (projr two_mesh_scene) 0 = [] \<and>
   mesh_messages (projr two_mesh_scene) 1 = [''1 mesh is inconsistent''] \<and>
   commit_log_of (commit_log two_mesh_scene) = Some [''1 mesh is inconsistent''] \<and>
   (\<exists>falseInst tail.
      commit_log_of (commit_log two_mesh_scene) =
        push_all (Some [])
          (concat (map (mesh_messages (projr two_mesh_scene)) [0..<2]) @
           (if falseInst \<noteq> 0 then [instances_message falseInst 1] else []) @ tail))"
proof -
  define S where "S = projr two_mesh_scene"
  define S' where "S' = commit_scene (commit_log two_mesh_scene)"
  define L' where "L' = commit_log_of (commit_log two_mesh_scene)"
  have commit: "commitScene S (Some []) = Inr (True, S', L')"
    unfolding S_def S'_def L'_def by code_simp
  have ok: "commit_ok (commit_log two_mesh_scene)" by code_simp
  have fresh: "\<not> m_bTraceReady S" unfolding S_def by code_simp
  have facts: "nat (m_iMeshesN S) = 2" "m_iInstancesN S = 1"
    "\<not> material_in_range S (m_pMeshes S ! 0)" "isValid (m_pMeshes S ! 0)"
    "\<not> material_in_range S (m_pMeshes S ! 1)" "\<not> isValid (m_pMeshes S ! 1)"
    unfolding S_def by code_simp+
  have L: "L' = Some [''1 mesh is inconsistent'']"
    unfolding L'_def by code_simp
  have ts: "to_string (int 1) = ''1''" by code_simp
  from commitScene_unresolved_materials [OF commit fresh]
  have a: "\<forall>k<2. \<not> material_in_range S (m_pMeshes S ! k) \<longrightarrow>
            (if isValid (m_pMeshes S ! k)
             then m_iMatId (m_pMeshes S' ! k) = m_iMaterialsN S - 1 \<and> mesh_messages S k = []
             else m_iMatId (m_pMeshes S' ! k) = - 1 \<and>
                  mesh_messages S k = [to_string (int k) @ '' mesh is inconsistent''])"
    and b: "\<exists>falseInst tail. L' = push_all (Some [])
          (concat (map (mesh_messages S) [0..<2]) @
           (if falseInst \<noteq> 0 then [instances_message falseInst 1] else []) @ tail)"
    using facts(1,2) by auto
  from a [rule_format, of 0] facts
  have a0: "m_iMatId (m_pMeshes S' ! 0) = m_iMaterialsN S - 1" "mesh_messages S 0 = []"
    by simp_all
  from a [rule_format, of 1] facts ts
  have a1: "m_iMatId (m_pMeshes S' ! 1) = - 1" "mesh_messages S 1 = [''1 mesh is inconsistent'']"
    by simp_all
  from a0 a1 b L ok show ?thesis unfolding S_def S'_def L'_def by simp
qed

text \<open>
  C7 as stated fails in a scene without materials. Mesh 0, a triangle with the
  out-of-range material index 5, is committed with the index of the missing-material
  slot, and no entry about it is written to the log. Mesh 1, which has the out-of-range
  index \<open>-1\<close> and fails the validity check, has the index \<open>-1\<close> after the call and not
  the index of the missing-material slot.
\<close>

theorem commitScene_unresolved_materials_counterexample:
  "commit_ok (commit_log two_mesh_scene) \<and>
   material_unresolved (projr two_mesh_scene) (m_pMeshes (projr two_mesh_scene) ! 0) \<and>
   m_iMatId (m_pMeshes (projr two_mesh_scene) ! 0) = 5 \<and>
   m_iMatId (m_pMeshes (commit_scene (commit_log two_mesh_scene)) ! 0) = 0 \<and>
   m_iMaterialsN (projr two_mesh_scene) - 1 = 0 \<and>
   material_unresolved (projr two_mesh_scene) (m_pMeshes (projr two_mesh_scene) ! 1) \<and>
   m_iMatId (m_pMeshes (commit_scene (commit_log two_mesh_scene)) ! 1) = - 1 \<and>
   commit_log_of (commit_log two_mesh_scene) = Some [''1 mesh is inconsistent'']"
  by code_simp

section \<open>Loops of commitScene that find nothing to do\<close>

lemma for_loop_total:
  assumes "I i s"
    and "\<And>j t. i \<le> j \<Longrightarrow> j < n \<Longrightarrow> I j t \<Longrightarrow> \<exists>t'. body j t = Inr t' \<and> I (j + 1) t'"
  shows "\<exists>s'. for_loop i n body s = Inr s' \<and> I (if i \<le> n then n else i) s'"
  using assms
proof (induction i n body s rule: for_loop.induct)
  case (1 i n body s)
  show ?case
  proof (cases "i < n")
    case True
    from "1.prems"(2) [of i s] True "1.prems"(1) obtain t where
      b: "body i s = Inr t" and It: "I (i + 1) t" by auto
    have "\<exists>s'. for_loop (i + 1) n body t = Inr s' \<and> I (if i + 1 \<le> n then n else i + 1) s'"
    proof (rule "1.IH" [OF True b It])
      fix j u assume "i + 1 \<le> j" "j < n" "I j u"
      then show "\<exists>t'. body j u = Inr t' \<and> I (j + 1) t'" using "1.prems"(2) [of j u] by simp
    qed
    then show ?thesis using True b by (subst for_loop.simps) simp
  next
    case False
    then have "for_loop i n body s = Inr s" by (subst for_loop.simps) simp
    moreover have "(if i \<le> n then n else i) = i" using False by simp
    ultimately show ?thesis using "1.prems"(1) by simp
  qed
qed

lemma commitMesh_settled:
  "isValid m \<Longrightarrow> m_vNormalDef m \<Longrightarrow> m_bTangentDef m \<Longrightarrow> commitMesh ch m = Inr (True, m)"
  by (simp add: commitMesh_def)

lemma commitScene_meshBody_settled:
  assumes at: "at_index (m_pMeshes t) i = Inr m" and st: "mesh_settled t m"
  shows "\<exists>lg'. commitScene_meshBody i (t, lg) = Inr (t, lg')"
proof -
  from at have i: "0 \<le> i" "nat i < length (m_pMeshes t)" and m: "m = m_pMeshes t ! nat i"
    by (auto simp add: at_index_def split: if_splits)
  have same: "t\<lparr>m_pMeshes := (m_pMeshes t)[nat i := m]\<rparr> = t" by (simp add: m)
  show ?thesis
  proof (cases "m = RenderMesh_reset")
    case True
    have id: "m_iMatId RenderMesh_reset = - 1"
      by (simp add: RenderMesh_reset_def)
    have inv: "\<not> isValid (RenderMesh_reset\<lparr>m_iMatId := k\<rparr>)" for k
      by (simp add: RenderMesh_reset_def isValid_def)
    have "commitMesh ch (RenderMesh_reset\<lparr>m_iMatId := k\<rparr>) = Inr (False, RenderMesh_reset)" for ch k
      using inv by (simp add: commitMesh_def RenderMesh_free_def)
    then show ?thesis
      using at same True
      by (simp add: commitScene_meshBody_def id Let_def)
  next
    case False
    with st have v: "isValid m" "m_vNormalDef m" "m_bTangentDef m"
      and mat: "if material_in_range t m then
         (case at_index (m_ppMaterials t) (m_iMatId m) of
            Inl e \<Rightarrow> False
          | Inr None \<Rightarrow> m_iMatId m = m_iMaterialsN t - 1
          | Inr (Some rm) \<Rightarrow> True)
       else m_iMatId m = m_iMaterialsN t - 1"
      by (simp_all add: mesh_settled_def)
    have cm: "commitMesh ch m = Inr (True, m)" for ch
      using v by (rule commitMesh_settled)
    show ?thesis
    proof (cases "material_in_range t m")
      case out: False
      with mat have e: "m\<lparr>m_iMatId := m_iMaterialsN t - 1\<rparr> = m" by simp
      have "commitMesh ch (m\<lparr>m_iMatId := m_iMaterialsN t - 1\<rparr>) = Inr (True, m)" for ch
        unfolding e by (rule cm)
      then show ?thesis
        using at out same
        by (auto simp add: commitScene_meshBody_def material_in_range_def Let_def)
    next
      case True
      with mat obtain slot where slot: "at_index (m_ppMaterials t) (m_iMatId m) = Inr slot"
        "slot = None \<longrightarrow> m_iMatId m = m_iMaterialsN t - 1"
        by (auto split: sum.splits option.splits)
      show ?thesis
      proof (cases slot)
        case None
        with slot have e: "m\<lparr>m_iMatId := m_iMaterialsN t - 1\<rparr> = m" by simp
        have "commitMesh ch (m\<lparr>m_iMatId := m_iMaterialsN t - 1\<rparr>) = Inr (True, m)" for ch
          unfolding e by (rule cm)
        then show ?thesis
          using at True slot(1) None same
          by (simp add: commitScene_meshBody_def material_in_range_def Let_def)
      next
        case (Some rm)
        then show ?thesis
          using at True slot same cm
          by (simp add: commitScene_meshBody_def material_in_range_def Let_def
              del: getNormalTextureChannel.simps)
      qed
    qed
  qed
qed

lemma commitScene_meshLoop_settled:
  assumes "\<forall>k. 0 \<le> k \<and> k < m_iMeshesN t \<longrightarrow>
             (\<exists>m. at_index (m_pMeshes t) k = Inr m \<and> mesh_settled t m)"
  shows "\<exists>lg'. for_loop 0 (m_iMeshesN t) commitScene_meshBody (t, lg) = Inr (t, lg')"
proof -
  define I where "I j st \<longleftrightarrow> fst st = t" for j :: int and st :: "RenderScene \<times> string list option"
  have "\<exists>s'. for_loop 0 (m_iMeshesN t) commitScene_meshBody (t, lg) = Inr s' \<and>
          I (if 0 \<le> m_iMeshesN t then m_iMeshesN t else 0) s'"
  proof (rule for_loop_total)
    show "I 0 (t, lg)" by (simp add: I_def)
  next
    fix j and st :: "RenderScene \<times> string list option"
    assume j: "0 \<le> j" "j < m_iMeshesN t" and "I j st"
    then have st: "st = (t, snd st)" by (cases st) (simp add: I_def)
    from assms j obtain m where "at_index (m_pMeshes t) j = Inr m" "mesh_settled t m" by blast
    from commitScene_meshBody_settled [OF this, of "snd st"] st
    show "\<exists>t'. commitScene_meshBody j st = Inr t' \<and> I (j + 1) t'"
      by (auto simp add: I_def)
  qed
  then show ?thesis by (auto simp add: I_def)
qed


lemma mesh_settled_cong:
  assumes "m_iMaterialsN t = m_iMaterialsN s"
    and "map (\<lambda>x. x = None) (m_ppMaterials t) = map (\<lambda>x. x = None) (m_ppMaterials s)"
  shows "mesh_settled t m = mesh_settled s m"
proof -
  from assms(2) have "length (map (\<lambda>x. x = None) (m_ppMaterials t)) =
      length (map (\<lambda>x. x = None) (m_ppMaterials s))" by simp
  then have len: "length (m_ppMaterials t) = length (m_ppMaterials s)" by simp
  have nth: "(m_ppMaterials t ! k = None) = (m_ppMaterials s ! k = None)"
    if "k < length (m_ppMaterials s)" for k
  proof -
    from assms(2) have "map (\<lambda>x. x = None) (m_ppMaterials t) ! k =
      map (\<lambda>x. x = None) (m_ppMaterials s) ! k" by simp
    then show ?thesis using that len by simp
  qed
  have h: "(case at_index (m_ppMaterials t) i of
            Inl e \<Rightarrow> False | Inr None \<Rightarrow> P | Inr (Some rm) \<Rightarrow> True) =
        (case at_index (m_ppMaterials s) i of
            Inl e \<Rightarrow> False | Inr None \<Rightarrow> P | Inr (Some rm) \<Rightarrow> True)" for i P
  proof (cases "0 \<le> i \<and> i < int (length (m_ppMaterials s))")
    case True
    then have "nat i < length (m_ppMaterials s)" by linarith
    from nth [OF this] show ?thesis
      using True len
      by (cases "m_ppMaterials t ! nat i"; cases "m_ppMaterials s ! nat i")
        (simp_all add: at_index_def)
  next
    case False
    then show ?thesis using len by (auto simp add: at_index_def)
  qed
  show ?thesis
    unfolding mesh_settled_def material_in_range_def assms(1) h by (rule refl)
qed

lemma mesh_committed_settled:
  assumes "m_iMaterialsN s \<le> int (length (m_ppMaterials s))"
  shows "mesh_settled s (mesh_committed s m)"
proof (cases "isValid m")
  case False
  then show ?thesis by (simp add: mesh_committed_def mesh_settled_def)
next
  case True
  have last: "\<exists>slot. at_index (m_ppMaterials s) (m_iMaterialsN s - 1) = Inr slot"
    if "0 \<le> m_iMaterialsN s - 1"
    using that assms by (simp add: at_index_def)
  show ?thesis
  proof (cases "material_unresolved s m")
    case un: True
    show ?thesis
    proof (cases "0 \<le> m_iMaterialsN s - 1")
      case True
      from last [OF this] obtain slot where
        "at_index (m_ppMaterials s) (m_iMaterialsN s - 1) = Inr slot" ..
      then show ?thesis
        using \<open>isValid m\<close> un True
        by (cases slot)
          (simp_all add: mesh_committed_def mesh_settled_def material_in_range_def isValid_def)
    next
      case False
      then show ?thesis
        using \<open>isValid m\<close> un
        by (simp add: mesh_committed_def mesh_settled_def material_in_range_def isValid_def)
    qed
  next
    case res: False
    then have r: "material_in_range s m" "at_index (m_ppMaterials s) (m_iMatId m) \<noteq> Inr None"
      by (simp_all add: material_unresolved_def material_null_def)
    then have "m_iMatId m < int (length (m_ppMaterials s))" "0 \<le> m_iMatId m"
      using assms by (simp_all add: material_in_range_def)
    then obtain rm where "at_index (m_ppMaterials s) (m_iMatId m) = Inr (Some rm)"
      using r(2) by (cases "m_ppMaterials s ! nat (m_iMatId m)") (simp_all add: at_index_def)
    then show ?thesis
      using \<open>isValid m\<close> res r(1)
      by (simp add: mesh_committed_def mesh_settled_def material_in_range_def isValid_def)
  qed
qed

lemma commitScene_meshLoop_makes_settled:
  assumes loop: "for_loop 0 (m_iMeshesN s) commitScene_meshBody (s, lg) = Inr (s1, lg1)"
    and mats: "m_iMaterialsN s \<le> int (length (m_ppMaterials s))"
  shows "\<forall>k. 0 \<le> k \<and> k < m_iMeshesN s1 \<longrightarrow>
           (\<exists>m. at_index (m_pMeshes s1) k = Inr m \<and> mesh_settled s1 m)"
proof (intro allI impI)
  fix k assume k: "0 \<le> k \<and> k < m_iMeshesN s1"
  have f1: "s1 = s\<lparr>m_pMeshes := m_pMeshes s1\<rparr>"
    using commitScene_meshLoop_frame [OF loop] by simp
  have n: "m_iMeshesN s1 = m_iMeshesN s" by (subst f1) simp
  have c: "m_iMaterialsN s1 = m_iMaterialsN s"
    "map (\<lambda>x. x = None) (m_ppMaterials s1) = map (\<lambda>x. x = None) (m_ppMaterials s)"
    by (subst f1, simp)+
  from commitScene_meshLoop_result [OF loop] k n
  have kl: "nat k < length (m_pMeshes s)"
    and mk: "m_pMeshes s1 ! nat k = mesh_committed s (m_pMeshes s ! nat k)"
    and len: "length (m_pMeshes s1) = length (m_pMeshes s)"
    by simp_all
  have "at_index (m_pMeshes s1) k = Inr (mesh_committed s (m_pMeshes s ! nat k))"
    using k kl len mk by (simp add: at_index_def)
  moreover have "mesh_settled s1 (mesh_committed s (m_pMeshes s ! nat k))"
    using mesh_committed_settled [OF mats] mesh_settled_cong [OF c] by simp
  ultimately show "\<exists>m. at_index (m_pMeshes s1) k = Inr m \<and> mesh_settled s1 m" by blast
qed

lemma invalid_instances_Suc:
  assumes "0 \<le> j" "nat j < length (m_pInstances s)"
  shows "invalid_instances s (j + 1) =
         invalid_instances s j + (if m_iMeshId (m_pInstances s ! nat j) = - 1 then 1 else 0)"
proof -
  have "nat (j + 1) = Suc (nat j)" using assms(1) by simp
  then show ?thesis
    using assms(2) by (simp add: invalid_instances_def take_Suc_conv_app_nth)
qed

lemma invalid_instances_update:
  assumes "0 \<le> j"
  shows "invalid_instances (s\<lparr>m_pInstances := (m_pInstances s)[nat j := ri]\<rparr>) j =
         invalid_instances s j"
  by (simp add: invalid_instances_def)

lemma commitScene_instBody_settled:
  assumes at: "at_index (m_pInstances t) i = Inr ri" and st: "inst_settled t ri"
  shows "commitScene_instBody i (t, f) =
         Inr (t, f + (if m_iMeshId ri = - 1 then 1 else 0))"
proof -
  from at have i: "0 \<le> i" "nat i < length (m_pInstances t)" and ri: "ri = m_pInstances t ! nat i"
    by (auto simp add: at_index_def split: if_splits)
  show ?thesis
  proof (cases "m_iMeshId ri = - 1")
    case True
    then have "ri\<lparr>m_iMeshId := - 1\<rparr> = ri" by simp
    then have "t\<lparr>m_pInstances := (m_pInstances t)[nat i := ri\<lparr>m_iMeshId := - 1\<rparr>]\<rparr> = t"
      by (simp add: ri)
    then show ?thesis using at True by (simp add: commitScene_instBody_def)
  next
    case False
    with st obtain m where "0 \<le> m_iMeshId ri" "m_iMeshId ri < m_iMeshesN t"
      "at_index (m_pMeshes t) (m_iMeshId ri) = Inr m" "isValid m"
      by (auto simp add: inst_settled_def split: sum.splits)
    then show ?thesis using at False by (simp add: commitScene_instBody_def)
  qed
qed

lemma commitScene_instLoop_settled:
  assumes "\<forall>k. 0 \<le> k \<and> k < m_iInstancesN t \<longrightarrow>
             (\<exists>ri. at_index (m_pInstances t) k = Inr ri \<and> inst_settled t ri)"
  shows "for_loop 0 (m_iInstancesN t) commitScene_instBody (t, 0) =
         Inr (t, invalid_instances t (m_iInstancesN t))"
proof -
  define I where "I j st \<longleftrightarrow> st = (t, invalid_instances t j)"
    for j :: int and st :: "RenderScene \<times> int"
  have z: "invalid_instances t 0 = 0" by (simp add: invalid_instances_def)
  have neg: "invalid_instances t j = 0" if "j \<le> 0" for j
    using that by (simp add: invalid_instances_def)
  have "\<exists>s'. for_loop 0 (m_iInstancesN t) commitScene_instBody (t, 0) = Inr s' \<and>
          I (if 0 \<le> m_iInstancesN t then m_iInstancesN t else 0) s'"
  proof (rule for_loop_total)
    show "I 0 (t, 0)" by (simp add: I_def z)
  next
    fix j and st :: "RenderScene \<times> int"
    assume j: "0 \<le> j" "j < m_iInstancesN t" and "I j st"
    then have st: "st = (t, invalid_instances t j)" by (simp add: I_def)
    from assms j obtain ri where at: "at_index (m_pInstances t) j = Inr ri"
      and se: "inst_settled t ri" by blast
    from at have jl: "nat j < length (m_pInstances t)" and ri: "ri = m_pInstances t ! nat j"
      by (auto simp add: at_index_def split: if_splits)
    from commitScene_instBody_settled [OF at se, of "invalid_instances t j"]
    show "\<exists>t'. commitScene_instBody j st = Inr t' \<and> I (j + 1) t'"
      using invalid_instances_Suc [OF j(1) jl] by (simp add: I_def st ri)
  qed
  then show ?thesis using neg [of "m_iInstancesN t"] z by (auto simp add: I_def)
qed

lemma inst_settled_cong:
  "m_iMeshesN t = m_iMeshesN s \<Longrightarrow> m_pMeshes t = m_pMeshes s \<Longrightarrow>
   inst_settled t ri = inst_settled s ri"
  by (simp add: inst_settled_def)

lemma commitScene_instLoop_makes_settled:
  assumes loop: "for_loop 0 (m_iInstancesN s1) commitScene_instBody (s1, 0) = Inr (s2, f)"
  shows "(\<forall>k. 0 \<le> k \<and> k < m_iInstancesN s2 \<longrightarrow>
            (\<exists>ri. at_index (m_pInstances s2) k = Inr ri \<and> inst_settled s2 ri)) \<and>
         f = invalid_instances s2 (m_iInstancesN s2)"
proof -
  have f2: "s2 = s1\<lparr>m_pInstances := m_pInstances s2\<rparr>"
    using commitScene_instLoop_frame [OF loop] by simp
  have n: "m_iInstancesN s2 = m_iInstancesN s1" by (subst f2) simp
  have c: "m_iMeshesN s2 = m_iMeshesN s1" "m_pMeshes s2 = m_pMeshes s1"
    by (subst f2, simp)+
  define I where "I j st \<longleftrightarrow>
      m_iMeshesN (fst st) = m_iMeshesN s1 \<and> m_pMeshes (fst st) = m_pMeshes s1 \<and>
      (\<forall>k. 0 \<le> k \<and> k < j \<longrightarrow>
         (\<exists>ri. at_index (m_pInstances (fst st)) k = Inr ri \<and> inst_settled s1 ri)) \<and>
      snd st = invalid_instances (fst st) j"
    for j :: int and st :: "RenderScene \<times> int"
  show ?thesis
  proof (cases "0 \<le> m_iInstancesN s1")
    case False
    then have "for_loop 0 (m_iInstancesN s1) commitScene_instBody (s1, 0) = Inr (s1, 0)"
      by (simp add: for_loop_empty)
    with loop have "s2 = s1" "f = 0" by simp_all
    then show ?thesis using False by (auto simp add: invalid_instances_def)
  next
    case True
    have "I (m_iInstancesN s1) (s2, f)"
    proof (rule for_loop_invariant [OF loop, where I = I])
      show "I 0 (s1, 0)" by (auto simp add: I_def invalid_instances_def)
      show "0 \<le> m_iInstancesN s1" by (rule True)
    next
      fix j and st st' :: "RenderScene \<times> int"
      assume j: "0 \<le> j" "j < m_iInstancesN s1" and It: "I j st"
        and body: "commitScene_instBody j st = Inr st'"
      obtain t g where st: "st = (t, g)" by (cases st)
      from It have me: "m_iMeshesN t = m_iMeshesN s1" "m_pMeshes t = m_pMeshes s1"
        and prev: "\<forall>k. 0 \<le> k \<and> k < j \<longrightarrow>
           (\<exists>ri. at_index (m_pInstances t) k = Inr ri \<and> inst_settled s1 ri)"
        and g: "g = invalid_instances t j"
        by (simp_all add: I_def st)
      from body obtain ri where at: "at_index (m_pInstances t) j = Inr ri"
        by (auto simp add: commitScene_instBody_def st Let_def split: sum.splits)
      then have jl: "nat j < length (m_pInstances t)" and ri: "ri = m_pInstances t ! nat j"
        by (auto simp add: at_index_def split: if_splits)
      show "I (j + 1) st'"
      proof (cases "m_iMeshId ri < 0 \<or> m_iMeshId ri \<ge> m_iMeshesN t \<or>
                    (\<exists>m. at_index (m_pMeshes t) (m_iMeshId ri) = Inr m \<and> \<not> isValid m)")
        case True
        with body at have st': "st' = (t\<lparr>m_pInstances := (m_pInstances t)[nat j := ri\<lparr>m_iMeshId := - 1\<rparr>]\<rparr>, g + 1)"
          by (auto simp add: commitScene_instBody_def st Let_def split: sum.splits if_splits)
        define t' where "t' = t\<lparr>m_pInstances := (m_pInstances t)[nat j := ri\<lparr>m_iMeshId := - 1\<rparr>]\<rparr>"
        have a: "\<forall>k. 0 \<le> k \<and> k < j + 1 \<longrightarrow>
           (\<exists>ri. at_index (m_pInstances t') k = Inr ri \<and> inst_settled s1 ri)"
        proof (intro allI impI)
          fix k assume k: "0 \<le> k \<and> k < j + 1"
          show "\<exists>ri. at_index (m_pInstances t') k = Inr ri \<and> inst_settled s1 ri"
          proof (cases "k = j")
            case True
            then show ?thesis using jl j by (simp add: t'_def at_index_def inst_settled_def)
          next
            case False
            then have "0 \<le> k \<and> k < j" using k by simp
            with prev obtain rk where "at_index (m_pInstances t) k = Inr rk" "inst_settled s1 rk"
              by blast
            moreover have "nat k \<noteq> nat j" using False k j by linarith
            ultimately show ?thesis by (auto simp add: t'_def at_index_def split: if_splits)
          qed
        qed
        have "invalid_instances t' (j + 1) = invalid_instances t' j + 1"
          using invalid_instances_Suc [of j t'] j jl by (simp add: t'_def)
        also have "invalid_instances t' j = invalid_instances t j"
          unfolding t'_def using j(1) by (rule invalid_instances_update)
        finally have b: "g + 1 = invalid_instances t' (j + 1)" using g by simp
        from a b me show ?thesis by (simp add: I_def st' t'_def [symmetric]) (simp add: t'_def)
      next
        case False
        then obtain m where v: "0 \<le> m_iMeshId ri" "m_iMeshId ri < m_iMeshesN t"
          "at_index (m_pMeshes t) (m_iMeshId ri) = Inr m" "isValid m"
          using body at
          by (auto simp add: commitScene_instBody_def st Let_def split: sum.splits if_splits)
        with body at have st': "st' = (t, g)"
          by (auto simp add: commitScene_instBody_def st Let_def split: sum.splits if_splits)
        have se: "inst_settled s1 ri" using v me by (simp add: inst_settled_def)
        have a: "\<forall>k. 0 \<le> k \<and> k < j + 1 \<longrightarrow>
           (\<exists>ri. at_index (m_pInstances t) k = Inr ri \<and> inst_settled s1 ri)"
        proof (intro allI impI)
          fix k assume k: "0 \<le> k \<and> k < j + 1"
          show "\<exists>ri. at_index (m_pInstances t) k = Inr ri \<and> inst_settled s1 ri"
          proof (cases "k = j")
            case True
            then show ?thesis using at se by blast
          next
            case False
            then have "0 \<le> k \<and> k < j" using k by simp
            with prev show ?thesis by blast
          qed
        qed
        have "m_iMeshId (m_pInstances t ! nat j) \<noteq> - 1" using v(1) ri by simp
        then have b: "g = invalid_instances t (j + 1)"
          using invalid_instances_Suc [OF j(1) jl] g by simp
        from a b me show ?thesis by (simp add: I_def st')
      qed
    qed
    then have r: "\<forall>k. 0 \<le> k \<and> k < m_iInstancesN s1 \<longrightarrow>
         (\<exists>ri. at_index (m_pInstances s2) k = Inr ri \<and> inst_settled s1 ri)"
      "f = invalid_instances s2 (m_iInstancesN s1)"
      by (simp_all add: I_def)
    show ?thesis
      using r inst_settled_cong [OF c] by (simp add: n)
  qed
qed

lemma commitScene_matBody_settled:
  assumes at: "at_index (m_ppMaterials t) i = Inr (Some rm)" and st: "mat_settled t rm"
  shows "commitScene_matBody i t = Inr t"
proof -
  from at have i: "0 \<le> i" "nat i < length (m_ppMaterials t)"
    and rm: "m_ppMaterials t ! nat i = Some rm"
    by (auto simp add: at_index_def split: if_splits)
  have "setRandomSampler (setTextures (m_pTextures t \<noteq> []) (m_iTexturesN t) rm) = rm"
    using st by (simp add: mat_settled_def setRandomSampler_def setTextures_def)
  moreover have "t\<lparr>m_ppMaterials := (m_ppMaterials t)[nat i := Some rm]\<rparr> = t"
    using rm [symmetric] by simp
  ultimately show ?thesis using at by (simp add: commitScene_matBody_def)
qed

lemma commitScene_matLoop_settled:
  assumes "\<forall>k. 0 \<le> k \<and> k < m_iMaterialsN t \<longrightarrow>
             (\<exists>rm. at_index (m_ppMaterials t) k = Inr (Some rm) \<and> mat_settled t rm)"
  shows "for_loop 0 (m_iMaterialsN t) commitScene_matBody t = Inr t"
proof -
  define I where "I j st \<longleftrightarrow> st = t" for j :: int and st :: RenderScene
  have "\<exists>s'. for_loop 0 (m_iMaterialsN t) commitScene_matBody t = Inr s' \<and>
          I (if 0 \<le> m_iMaterialsN t then m_iMaterialsN t else 0) s'"
  proof (rule for_loop_total)
    show "I 0 t" by (simp add: I_def)
  next
    fix j and st :: RenderScene
    assume j: "0 \<le> j" "j < m_iMaterialsN t" and "I j st"
    then have st: "st = t" by (simp add: I_def)
    from assms j obtain rm where "at_index (m_ppMaterials t) j = Inr (Some rm)" "mat_settled t rm"
      by blast
    from commitScene_matBody_settled [OF this]
    show "\<exists>t'. commitScene_matBody j st = Inr t' \<and> I (j + 1) t'"
      by (simp add: I_def st)
  qed
  then show ?thesis by (auto simp add: I_def)
qed

lemma mat_settled_cong:
  "m_pTextures t = m_pTextures s \<Longrightarrow> m_iTexturesN t = m_iTexturesN s \<Longrightarrow>
   mat_settled t rm = mat_settled s rm"
  by (simp add: mat_settled_def)

lemma commitScene_matBody_nulls:
  assumes "commitScene_matBody i s = Inr s'"
  shows "map (\<lambda>x. x = None) (m_ppMaterials s') = map (\<lambda>x. x = None) (m_ppMaterials s)"
proof -
  from assms obtain rm where
    at: "at_index (m_ppMaterials s) i = Inr (Some rm)"
    and s': "s' = s\<lparr>m_ppMaterials := (m_ppMaterials s)[nat i :=
                 Some (setRandomSampler (setTextures (m_pTextures s \<noteq> []) (m_iTexturesN s) rm))]\<rparr>"
    by (auto simp add: commitScene_matBody_def split: sum.splits option.splits)
  from at have i: "nat i < length (m_ppMaterials s)" "m_ppMaterials s ! nat i = Some rm"
    by (auto simp add: at_index_def split: if_splits)
  have "map (\<lambda>x. x = None) ((m_ppMaterials s)[nat i :=
          Some (setRandomSampler (setTextures (m_pTextures s \<noteq> []) (m_iTexturesN s) rm))]) =
        (map (\<lambda>x. x = None) (m_ppMaterials s))[nat i := False]"
    by (simp add: map_update)
  also have "\<dots> = map (\<lambda>x. x = None) (m_ppMaterials s)"
    using i by (intro list_update_same_conv [THEN iffD2]) simp_all
  finally show ?thesis by (simp add: s')
qed

lemma commitScene_matLoop_makes_settled:
  assumes loop: "for_loop 0 (m_iMaterialsN s2) commitScene_matBody s2 = Inr s3"
  shows "(\<forall>k. 0 \<le> k \<and> k < m_iMaterialsN s3 \<longrightarrow>
            (\<exists>rm. at_index (m_ppMaterials s3) k = Inr (Some rm) \<and> mat_settled s3 rm)) \<and>
         map (\<lambda>x. x = None) (m_ppMaterials s3) = map (\<lambda>x. x = None) (m_ppMaterials s2)"
proof -
  have f3: "s3 = s2\<lparr>m_ppMaterials := m_ppMaterials s3\<rparr>"
    using commitScene_matLoop_frame [OF loop] .
  have n: "m_iMaterialsN s3 = m_iMaterialsN s2" by (subst f3) simp
  have c: "m_pTextures s3 = m_pTextures s2" "m_iTexturesN s3 = m_iTexturesN s2"
    by (subst f3, simp)+
  have nulls: "map (\<lambda>x. x = None) (m_ppMaterials s3) = map (\<lambda>x. x = None) (m_ppMaterials s2)"
    by (rule for_loop_preserves [OF loop]) (rule commitScene_matBody_nulls)
  define I where "I j t \<longleftrightarrow>
      m_pTextures t = m_pTextures s2 \<and> m_iTexturesN t = m_iTexturesN s2 \<and>
      (\<forall>k. 0 \<le> k \<and> k < j \<longrightarrow>
         (\<exists>rm. at_index (m_ppMaterials t) k = Inr (Some rm) \<and> mat_settled s2 rm))"
    for j :: int and t :: RenderScene
  show ?thesis
  proof (cases "0 \<le> m_iMaterialsN s2")
    case False
    then show ?thesis using nulls n by auto
  next
    case True
    have "I (m_iMaterialsN s2) s3"
    proof (rule for_loop_invariant [OF loop, where I = I])
      show "I 0 s2" by (auto simp add: I_def)
      show "0 \<le> m_iMaterialsN s2" by (rule True)
    next
      fix j and t t' :: RenderScene
      assume j: "0 \<le> j" "j < m_iMaterialsN s2" and It: "I j t"
        and body: "commitScene_matBody j t = Inr t'"
      from It have tx: "m_pTextures t = m_pTextures s2" "m_iTexturesN t = m_iTexturesN s2"
        and prev: "\<forall>k. 0 \<le> k \<and> k < j \<longrightarrow>
           (\<exists>rm. at_index (m_ppMaterials t) k = Inr (Some rm) \<and> mat_settled s2 rm)"
        by (simp_all add: I_def)
      from body obtain rm where
        at: "at_index (m_ppMaterials t) j = Inr (Some rm)"
        and t': "t' = t\<lparr>m_ppMaterials := (m_ppMaterials t)[nat j :=
                 Some (setRandomSampler (setTextures (m_pTextures t \<noteq> []) (m_iTexturesN t) rm))]\<rparr>"
        by (auto simp add: commitScene_matBody_def split: sum.splits option.splits)
      from at have jl: "nat j < length (m_ppMaterials t)"
        by (auto simp add: at_index_def split: if_splits)
      have new: "mat_settled s2
          (setRandomSampler (setTextures (m_pTextures t \<noteq> []) (m_iTexturesN t) rm))"
        using tx by (simp add: mat_settled_def setRandomSampler_def setTextures_def)
      have "\<forall>k. 0 \<le> k \<and> k < j + 1 \<longrightarrow>
           (\<exists>rm. at_index (m_ppMaterials t') k = Inr (Some rm) \<and> mat_settled s2 rm)"
      proof (intro allI impI)
        fix k assume k: "0 \<le> k \<and> k < j + 1"
        show "\<exists>rm. at_index (m_ppMaterials t') k = Inr (Some rm) \<and> mat_settled s2 rm"
        proof (cases "k = j")
          case True
          then show ?thesis using jl j new by (simp add: t' at_index_def)
        next
          case False
          then have "0 \<le> k \<and> k < j" using k by simp
          with prev obtain rk where "at_index (m_ppMaterials t) k = Inr (Some rk)"
            "mat_settled s2 rk" by blast
          moreover have "nat k \<noteq> nat j" using False k j by linarith
          ultimately show ?thesis by (auto simp add: t' at_index_def split: if_splits)
        qed
      qed
      then show "I (j + 1) t'" using tx by (simp add: I_def) (simp add: t')
    qed
    then show ?thesis
      using nulls mat_settled_cong [OF c] by (simp add: I_def n)
  qed
qed

lemma light_powers_cong:
  "m_iLightsN t = m_iLightsN s \<Longrightarrow> m_ppLights t = m_ppLights s \<Longrightarrow>
   light_powers t = light_powers s"
  by (simp add: light_powers_def)

lemma calculate_cong:
  "m_iN x = m_iN y \<Longrightarrow> m_distances x = m_distances y \<Longrightarrow> calculate x = calculate y"
  by (simp add: calculate_def Let_def)

lemma commitScene_lightLoop_makes_settled:
  assumes loop: "for_loop 0 (m_iLightsN s0) commitScene_lightBody s0 = Inr s4"
    and len0: "length (m_distances (m_lightsSampler s0)) = nat (m_iLightsN s0)"
  shows "(\<forall>k. 0 \<le> k \<and> k < m_iLightsN s4 \<longrightarrow>
            (\<exists>l. at_index (m_ppLights s4) k = Inr (Some l) \<and> light_settled k l)) \<and>
         m_lightsSampler s4 = (m_lightsSampler s0)\<lparr>m_distances := light_powers s4\<rparr>"
proof -
  have fr: "s4\<lparr>m_ppLights := [], m_lightsSampler := DistanceRandom_new\<rparr> =
            s0\<lparr>m_ppLights := [], m_lightsSampler := DistanceRandom_new\<rparr>"
    using commitScene_lightLoop_frame [OF loop] .
  have "m_iLightsN (s4\<lparr>m_ppLights := [], m_lightsSampler := DistanceRandom_new\<rparr>) =
        m_iLightsN (s0\<lparr>m_ppLights := [], m_lightsSampler := DistanceRandom_new\<rparr>)"
    using fr by simp
  then have n: "m_iLightsN s4 = m_iLightsN s0" by simp
  define I where "I j t \<longleftrightarrow>
      m_iN (m_lightsSampler t) = m_iN (m_lightsSampler s0) \<and>
      m_maxD (m_lightsSampler t) = m_maxD (m_lightsSampler s0) \<and>
      length (m_distances (m_lightsSampler t)) = nat (m_iLightsN s0) \<and>
      (\<forall>k. 0 \<le> k \<and> k < j \<longrightarrow>
         (\<exists>l. at_index (m_ppLights t) k = Inr (Some l) \<and> light_settled k l \<and>
              m_distances (m_lightsSampler t) ! nat k = m_fPower l))"
    for j :: int and t :: RenderScene
  show ?thesis
  proof (cases "0 \<le> m_iLightsN s0")
    case False
    then have "for_loop 0 (m_iLightsN s0) commitScene_lightBody s0 = Inr s0"
      by (simp add: for_loop_empty)
    with loop have "s4 = s0" by simp
    moreover have "light_powers s0 = []" "m_distances (m_lightsSampler s0) = []"
      using False len0 by (simp_all add: light_powers_def)
    ultimately show ?thesis using False by auto
  next
    case True
    have "I (m_iLightsN s0) s4"
    proof (rule for_loop_invariant [OF loop, where I = I])
      show "I 0 s0" using len0 by (auto simp add: I_def)
      show "0 \<le> m_iLightsN s0" by (rule True)
    next
      fix j and t t' :: RenderScene
      assume j: "0 \<le> j" "j < m_iLightsN s0" and It: "I j t"
        and body: "commitScene_lightBody j t = Inr t'"
      from It have sm: "m_iN (m_lightsSampler t) = m_iN (m_lightsSampler s0)"
        "m_maxD (m_lightsSampler t) = m_maxD (m_lightsSampler s0)"
        "length (m_distances (m_lightsSampler t)) = nat (m_iLightsN s0)"
        and prev: "\<forall>k. 0 \<le> k \<and> k < j \<longrightarrow>
         (\<exists>l. at_index (m_ppLights t) k = Inr (Some l) \<and> light_settled k l \<and>
              m_distances (m_lightsSampler t) ! nat k = m_fPower l)"
        by (simp_all add: I_def)
      from body obtain l where at: "at_index (m_ppLights t) j = Inr (Some l)"
        and t': "t' = t\<lparr>m_ppLights := (m_ppLights t)[nat j := Some (l\<lparr>m_iIndex := j, m_pSampler := True\<rparr>)],
                      m_lightsSampler := setDistance j (m_fPower (l\<lparr>m_iIndex := j, m_pSampler := True\<rparr>))
                                           (m_lightsSampler t)\<rparr>"
        by (auto simp add: commitScene_lightBody_def Let_def
            split: sum.splits option.splits if_splits)
      from at have jl: "nat j < length (m_ppLights t)"
        by (auto simp add: at_index_def split: if_splits)
      have jd: "nat j < length (m_distances (m_lightsSampler t))" using sm j by simp
      have "\<forall>k. 0 \<le> k \<and> k < j + 1 \<longrightarrow>
         (\<exists>l. at_index (m_ppLights t') k = Inr (Some l) \<and> light_settled k l \<and>
              m_distances (m_lightsSampler t') ! nat k = m_fPower l)"
      proof (intro allI impI)
        fix k assume k: "0 \<le> k \<and> k < j + 1"
        show "\<exists>l. at_index (m_ppLights t') k = Inr (Some l) \<and> light_settled k l \<and>
              m_distances (m_lightsSampler t') ! nat k = m_fPower l"
        proof (cases "k = j")
          case True
          then show ?thesis
            using jl jd j by (simp add: t' at_index_def light_settled_def setDistance_def)
        next
          case False
          then have "0 \<le> k \<and> k < j" using k by simp
          with prev obtain lk where "at_index (m_ppLights t) k = Inr (Some lk)"
            "light_settled k lk" "m_distances (m_lightsSampler t) ! nat k = m_fPower lk"
            by blast
          moreover have "nat k \<noteq> nat j" using False k j by linarith
          ultimately show ?thesis
            by (auto simp add: t' at_index_def setDistance_def split: if_splits)
        qed
      qed
      then show "I (j + 1) t'" using sm by (simp add: I_def) (simp add: t' setDistance_def)
    qed
    then have r: "m_iN (m_lightsSampler s4) = m_iN (m_lightsSampler s0)"
      "m_maxD (m_lightsSampler s4) = m_maxD (m_lightsSampler s0)"
      "length (m_distances (m_lightsSampler s4)) = nat (m_iLightsN s0)"
      "\<forall>k. 0 \<le> k \<and> k < m_iLightsN s0 \<longrightarrow>
         (\<exists>l. at_index (m_ppLights s4) k = Inr (Some l) \<and> light_settled k l \<and>
              m_distances (m_lightsSampler s4) ! nat k = m_fPower l)"
      by (simp_all add: I_def)
    have d: "m_distances (m_lightsSampler s4) = light_powers s4"
    proof (rule nth_equalityI)
      show "length (m_distances (m_lightsSampler s4)) = length (light_powers s4)"
        using r(3) n by (simp add: light_powers_def)
    next
      fix i assume "i < length (m_distances (m_lightsSampler s4))"
      then have i: "i < nat (m_iLightsN s0)" using r(3) by simp
      then have "0 \<le> int i \<and> int i < m_iLightsN s0" by linarith
      with r(4) obtain l where "at_index (m_ppLights s4) (int i) = Inr (Some l)"
        "m_distances (m_lightsSampler s4) ! nat (int i) = m_fPower l" by blast
      then have "m_ppLights s4 ! i = Some l" "m_distances (m_lightsSampler s4) ! i = m_fPower l"
        by (auto simp add: at_index_def split: if_splits)
      then show "m_distances (m_lightsSampler s4) ! i = light_powers s4 ! i"
        using i n by (simp add: light_powers_def)
    qed
    have "m_lightsSampler s4 = (m_lightsSampler s0)\<lparr>m_distances := light_powers s4\<rparr>"
      using r(1,2) d by (intro DistanceRandom.equality) simp_all
    moreover have "\<forall>k. 0 \<le> k \<and> k < m_iLightsN s4 \<longrightarrow>
            (\<exists>l. at_index (m_ppLights s4) k = Inr (Some l) \<and> light_settled k l)"
      using r(4) n by auto
    ultimately show ?thesis by simp
  qed
qed

lemma commitScene_lightLoop_settled:
  assumes st: "\<forall>k. 0 \<le> k \<and> k < m_iLightsN t \<longrightarrow>
             (\<exists>l. at_index (m_ppLights t) k = Inr (Some l) \<and> light_settled k l)"
  shows "for_loop 0 (m_iLightsN t) commitScene_lightBody
           (t\<lparr>m_lightsSampler := setCount (m_iLightsN t) X\<rparr>) =
         Inr (t\<lparr>m_lightsSampler := (setCount (m_iLightsN t) X)\<lparr>m_distances := light_powers t\<rparr>\<rparr>)"
proof -
  define n where "n = m_iLightsN t"
  define P where "P k = (case m_ppLights t ! k of None \<Rightarrow> 0 | Some l \<Rightarrow> m_fPower l)" for k
  define D where "D j = map (\<lambda>k. if int k < j then P k else 0) [0..<nat n]" for j :: int
  define u where "u j = t\<lparr>m_lightsSampler := (setCount n X)\<lparr>m_distances := D j\<rparr>\<rparr>" for j
  define I where "I j st \<longleftrightarrow> st = u j" for j :: int and st :: RenderScene
  have D0: "D 0 = m_distances (setCount n X)"
    by (simp add: D_def setCount_def map_replicate_const)
  have u0: "u 0 = t\<lparr>m_lightsSampler := setCount n X\<rparr>"
    by (simp add: u_def D0)
  have Dn: "D n = light_powers t"
    by (auto simp add: D_def light_powers_def P_def n_def)
  have "\<exists>s'. for_loop 0 n commitScene_lightBody (u 0) = Inr s' \<and> I (if 0 \<le> n then n else 0) s'"
  proof (rule for_loop_total)
    show "I 0 (u 0)" by (simp add: I_def)
  next
    fix j and st :: RenderScene
    assume j: "0 \<le> j" "j < n" and "I j st"
    then have stj: "st = u j" by (simp add: I_def)
    from st j obtain l where at: "at_index (m_ppLights t) j = Inr (Some l)"
      and se: "light_settled j l" by (auto simp add: n_def)
    from at have l: "m_ppLights t ! nat j = Some l" and jl: "nat j < length (m_ppLights t)"
      by (auto simp add: at_index_def split: if_splits)
    have same: "l\<lparr>m_iIndex := j, m_pSampler := True\<rparr> = l"
      using se by (simp add: light_settled_def)
    have ls: "(m_ppLights t)[nat j := Some l] = m_ppLights t"
      using l [symmetric] by simp
    have up: "(D j)[nat j := m_fPower l] = D (j + 1)"
    proof (rule nth_equalityI)
      show "length ((D j)[nat j := m_fPower l]) = length (D (j + 1))" by (simp add: D_def)
    next
      fix i assume "i < length ((D j)[nat j := m_fPower l])"
      then have i: "i < nat n" by (simp add: D_def)
      show "(D j)[nat j := m_fPower l] ! i = D (j + 1) ! i"
      proof (cases "i = nat j")
        case True
        then show ?thesis using i j l by (simp add: D_def P_def)
      next
        case False
        then have "int i < j + 1 \<longleftrightarrow> int i < j" using j by linarith
        then show ?thesis using i False by (simp add: D_def)
      qed
    qed
    have jd: "j < int (length (D j))" using j by (simp add: D_def)
    have "commitScene_lightBody j (u j) = Inr (u (j + 1))"
      using at jd by (simp add: commitScene_lightBody_def u_def Let_def same ls setDistance_def up)
    then show "\<exists>t'. commitScene_lightBody j st = Inr t' \<and> I (j + 1) t'"
      by (simp add: I_def stj)
  qed
  then have "for_loop 0 n commitScene_lightBody (u 0) = Inr (u (if 0 \<le> n then n else 0))"
    by (auto simp add: I_def)
  moreover have "u (if 0 \<le> n then n else 0) =
      t\<lparr>m_lightsSampler := (setCount n X)\<lparr>m_distances := light_powers t\<rparr>\<rparr>"
  proof (cases "0 \<le> n")
    case True
    then show ?thesis by (simp add: u_def Dn)
  next
    case False
    then have "D 0 = light_powers t" by (simp add: D_def light_powers_def n_def)
    then show ?thesis using False by (simp add: u_def)
  qed
  ultimately show ?thesis by (simp add: u0 n_def)
qed

lemma buildEmbreeScene_failed:
  assumes "buildEmbreeScene s lg = Inr (False, s', lg')"
  shows "(m_embreeDevice s = None \<and> s' = s) \<or>
         (\<exists>dev. m_embreeDevice s = Some dev \<and> rtcNewScene dev = None \<and>
                s' = s\<lparr>m_embreeScene := None\<rparr>)"
proof (cases "m_embreeDevice s")
  case None
  with assms show ?thesis by (simp add: buildEmbreeScene_def)
next
  case (Some dev)
  show ?thesis
  proof (cases "rtcNewScene dev")
    case None
    with Some assms show ?thesis by (simp add: buildEmbreeScene_def)
  next
    case sc: (Some sc)
    with Some assms show ?thesis
      by (auto simp add: buildEmbreeScene_def split: sum.splits prod.splits)
  qed
qed

lemma buildEmbreeScene_fails_again:
  assumes "(m_embreeDevice s = None \<and> s' = s) \<or>
         (\<exists>dev. m_embreeDevice s = Some dev \<and> rtcNewScene dev = None \<and>
                s' = s\<lparr>m_embreeScene := None\<rparr>)"
  shows "\<exists>lg''. buildEmbreeScene s' lg2 = Inr (False, s', lg'')"
  using assms by (auto simp add: buildEmbreeScene_def)

lemma commitScene_lightLoop_frame':
  assumes "for_loop i n commitScene_lightBody s = Inr s'"
  shows "s' = s\<lparr>m_ppLights := m_ppLights s', m_lightsSampler := m_lightsSampler s'\<rparr>"
proof -
  have "s'\<lparr>m_ppLights := [], m_lightsSampler := DistanceRandom_new\<rparr> =
        s\<lparr>m_ppLights := [], m_lightsSampler := DistanceRandom_new\<rparr>"
    using commitScene_lightLoop_frame [OF assms] .
  then have "s'\<lparr>m_ppLights := [], m_lightsSampler := DistanceRandom_new\<rparr>
               \<lparr>m_ppLights := m_ppLights s', m_lightsSampler := m_lightsSampler s'\<rparr> =
             s\<lparr>m_ppLights := [], m_lightsSampler := DistanceRandom_new\<rparr>
               \<lparr>m_ppLights := m_ppLights s', m_lightsSampler := m_lightsSampler s'\<rparr>"
    by simp
  then show ?thesis by simp
qed

lemma commitScene_failed_again:
  assumes commit: "commitScene s lg = Inr (False, s', lg')"
    and mats: "m_iMaterialsN s \<le> int (length (m_ppMaterials s))"
  shows "\<exists>lg''. commitScene s' lg2 = Inr (False, s', lg'')"
proof -
  have fresh: "\<not> m_bTraceReady s"
    using commit by (auto simp add: commitScene_def)
  from commit fresh obtain s1 lg1 s2 f where
    l1: "for_loop 0 (m_iMeshesN s) commitScene_meshBody (s, lg) = Inr (s1, lg1)"
    and l2: "for_loop 0 (m_iInstancesN s1) commitScene_instBody (s1, 0) = Inr (s2, f)"
    by (auto simp add: commitScene_def Let_def split: sum.splits prod.splits if_splits)
  define A where "A = m_pMeshes s1"
  define B where "B = m_pInstances s2"
  have e1: "s1 = s\<lparr>m_pMeshes := A\<rparr>"
    using commitScene_meshLoop_frame [OF l1] by (simp add: A_def)
  have "s2 = s1\<lparr>m_pInstances := B\<rparr>"
    using commitScene_instLoop_frame [OF l2] by (simp add: B_def)
  with e1 have e2: "s2 = s\<lparr>m_pMeshes := A, m_pInstances := B\<rparr>" by simp
  have m1: "\<forall>k. 0 \<le> k \<and> k < m_iMeshesN s1 \<longrightarrow>
           (\<exists>m. at_index (m_pMeshes s1) k = Inr m \<and> mesh_settled s1 m)"
    using commitScene_meshLoop_makes_settled [OF l1 mats] .
  from commitScene_instLoop_makes_settled [OF l2]
  have i2: "\<forall>k. 0 \<le> k \<and> k < m_iInstancesN s2 \<longrightarrow>
            (\<exists>ri. at_index (m_pInstances s2) k = Inr ri \<and> inst_settled s2 ri)"
    and f: "f = invalid_instances s2 (m_iInstancesN s2)" by simp_all
  define lgm where "lgm = (if f \<noteq> 0
      then push_back lg1 (to_string f @ '' from '' @ to_string (m_iInstancesN s2) @
                           '' instances are invalid'')
      else lg1)"
  show ?thesis
  proof (cases "f = m_iInstancesN s2")
    case True
    with commit fresh l1 l2 have s': "s' = s2"
      by (auto simp add: commitScene_def Let_def split: sum.splits prod.splits if_splits)
    have ms: "mesh_settled s' m = mesh_settled s1 m" for m
      by (rule mesh_settled_cong) (simp_all add: s' e2 e1)
    have m': "\<forall>k. 0 \<le> k \<and> k < m_iMeshesN s' \<longrightarrow>
           (\<exists>m. at_index (m_pMeshes s') k = Inr m \<and> mesh_settled s' m)"
      using m1 unfolding ms by (simp add: s' e2 e1)
    from commitScene_meshLoop_settled [OF m', of lg2] obtain lgA where
      r1: "for_loop 0 (m_iMeshesN s') commitScene_meshBody (s', lg2) = Inr (s', lgA)" ..
    have r2: "for_loop 0 (m_iInstancesN s') commitScene_instBody (s', 0) =
              Inr (s', m_iInstancesN s')"
      using commitScene_instLoop_settled [of s'] i2 f True by (simp add: s')
    have "\<not> m_bTraceReady s'" using fresh by (simp add: s' e2)
    then show ?thesis
      by (simp add: commitScene_def r1 r2 Let_def)
  next
    case ne: False
    from commit fresh l1 l2 ne obtain s3 s4 where
      l3: "for_loop 0 (m_iMaterialsN s2) commitScene_matBody s2 = Inr s3"
      and l4: "for_loop 0 (m_iLightsN s3) commitScene_lightBody
               (s3\<lparr>m_lightsSampler := setCount (m_iLightsN s3) (m_lightsSampler s3)\<rparr>) = Inr s4"
      and b: "buildEmbreeScene
              (if m_iLightsN s4 > 0 then s4\<lparr>m_lightsSampler := calculate (m_lightsSampler s4)\<rparr> else s4)
              lgm = Inr (False, s', lg')"
      by (auto simp add: commitScene_def Let_def lgm_def split: sum.splits prod.splits if_splits)
    define C where "C = m_ppMaterials s3"
    define D where "D = m_ppLights s4"
    define n where "n = m_iLightsN s"
    define X0 where "X0 = setCount n (m_lightsSampler s)"
    define X4 where "X4 = X0\<lparr>m_distances := light_powers s4\<rparr>"
    define X5 where "X5 = (if n > 0 then calculate X4 else X4)"
    have "s3 = s2\<lparr>m_ppMaterials := C\<rparr>"
      using commitScene_matLoop_frame [OF l3] by (simp add: C_def)
    with e2 have e3: "s3 = s\<lparr>m_pMeshes := A, m_pInstances := B, m_ppMaterials := C\<rparr>" by simp
    have n3: "m_iLightsN s3 = n" "m_lightsSampler s3 = m_lightsSampler s"
      by (simp_all add: e3 n_def)
    define s0 where "s0 = s3\<lparr>m_lightsSampler := X0\<rparr>"
    have l4': "for_loop 0 (m_iLightsN s0) commitScene_lightBody s0 = Inr s4"
      using l4 by (simp add: s0_def n3 X0_def)
    have len0: "length (m_distances (m_lightsSampler s0)) = nat (m_iLightsN s0)"
      by (simp add: s0_def X0_def setCount_def n3)
    from commitScene_lightLoop_makes_settled [OF l4' len0]
    have li4: "\<forall>k. 0 \<le> k \<and> k < m_iLightsN s4 \<longrightarrow>
            (\<exists>l. at_index (m_ppLights s4) k = Inr (Some l) \<and> light_settled k l)"
      and sm4: "m_lightsSampler s4 = X4"
      by (simp_all add: s0_def X4_def)
    have "s4 = s0\<lparr>m_ppLights := D, m_lightsSampler := X4\<rparr>"
      using commitScene_lightLoop_frame' [OF l4'] by (simp add: D_def sm4)
    then have e4: "s4 = s\<lparr>m_pMeshes := A, m_pInstances := B, m_ppMaterials := C,
                           m_ppLights := D, m_lightsSampler := X4\<rparr>"
      by (simp add: s0_def e3)
    define s5 where
      "s5 = (if m_iLightsN s4 > 0 then s4\<lparr>m_lightsSampler := calculate (m_lightsSampler s4)\<rparr> else s4)"
    have e5: "s5 = s\<lparr>m_pMeshes := A, m_pInstances := B, m_ppMaterials := C,
                      m_ppLights := D, m_lightsSampler := X5\<rparr>"
      by (simp add: s5_def e4 X5_def n_def)
    from b have b5: "buildEmbreeScene s5 lgm = Inr (False, s', lg')" by (simp add: s5_def)
    note fail = buildEmbreeScene_failed [OF b5]
    from fail obtain F where
      e': "s' = s\<lparr>m_pMeshes := A, m_pInstances := B, m_ppMaterials := C,
                    m_ppLights := D, m_lightsSampler := X5, m_embreeScene := F\<rparr>"
    proof
      assume "m_embreeDevice s5 = None \<and> s' = s5"
      then have "s' = s\<lparr>m_pMeshes := A, m_pInstances := B, m_ppMaterials := C,
                    m_ppLights := D, m_lightsSampler := X5, m_embreeScene := m_embreeScene s\<rparr>"
        by (simp add: e5)
      then show ?thesis by (rule that)
    next
      assume "\<exists>dev. m_embreeDevice s5 = Some dev \<and> rtcNewScene dev = None \<and>
                s' = s5\<lparr>m_embreeScene := None\<rparr>"
      then have "s' = s\<lparr>m_pMeshes := A, m_pInstances := B, m_ppMaterials := C,
                    m_ppLights := D, m_lightsSampler := X5, m_embreeScene := None\<rparr>"
        by (auto simp add: e5)
      then show ?thesis by (rule that)
    qed
    from commitScene_matLoop_makes_settled [OF l3]
    have ma3: "\<forall>k. 0 \<le> k \<and> k < m_iMaterialsN s3 \<longrightarrow>
            (\<exists>rm. at_index (m_ppMaterials s3) k = Inr (Some rm) \<and> mat_settled s3 rm)"
      and nulls: "map (\<lambda>x. x = None) (m_ppMaterials s3) = map (\<lambda>x. x = None) (m_ppMaterials s2)"
      by simp_all
    \<comment> \<open>the first loop\<close>
    have ms: "mesh_settled s' m = mesh_settled s1 m" for m
    proof (rule mesh_settled_cong)
      show "m_iMaterialsN s' = m_iMaterialsN s1" by (simp add: e' e1)
      show "map (\<lambda>x. x = None) (m_ppMaterials s') = map (\<lambda>x. x = None) (m_ppMaterials s1)"
        using nulls by (simp add: e' e1 e2 e3)
    qed
    have m': "\<forall>k. 0 \<le> k \<and> k < m_iMeshesN s' \<longrightarrow>
           (\<exists>m. at_index (m_pMeshes s') k = Inr m \<and> mesh_settled s' m)"
      using m1 unfolding ms by (simp add: e' e1)
    from commitScene_meshLoop_settled [OF m', of lg2] obtain lgA where
      r1: "for_loop 0 (m_iMeshesN s') commitScene_meshBody (s', lg2) = Inr (s', lgA)" ..
    \<comment> \<open>the second loop\<close>
    have ins: "inst_settled s' ri = inst_settled s2 ri" for ri
      by (rule inst_settled_cong) (simp_all add: e' e2)
    have i': "\<forall>k. 0 \<le> k \<and> k < m_iInstancesN s' \<longrightarrow>
            (\<exists>ri. at_index (m_pInstances s') k = Inr ri \<and> inst_settled s' ri)"
      using i2 unfolding ins by (simp add: e' e2)
    have "invalid_instances s' (m_iInstancesN s') = f"
      by (simp add: f invalid_instances_def e' e2)
    with commitScene_instLoop_settled [OF i']
    have r2: "for_loop 0 (m_iInstancesN s') commitScene_instBody (s', 0) = Inr (s', f)"
      by simp
    have ne': "f \<noteq> m_iInstancesN s'" using ne by (simp add: e' e2)
    \<comment> \<open>the third loop\<close>
    have mts: "mat_settled s' rm = mat_settled s3 rm" for rm
      by (rule mat_settled_cong) (simp_all add: e' e3)
    have ma': "\<forall>k. 0 \<le> k \<and> k < m_iMaterialsN s' \<longrightarrow>
            (\<exists>rm. at_index (m_ppMaterials s') k = Inr (Some rm) \<and> mat_settled s' rm)"
      using ma3 unfolding mts by (simp add: e' e3)
    note r3 = commitScene_matLoop_settled [OF ma']
    \<comment> \<open>the lights\<close>
    have li': "\<forall>k. 0 \<le> k \<and> k < m_iLightsN s' \<longrightarrow>
            (\<exists>l. at_index (m_ppLights s') k = Inr (Some l) \<and> light_settled k l)"
      using li4 by (simp add: e' e4)
    have n': "m_iLightsN s' = n" by (simp add: e' n_def)
    have lp: "light_powers s' = light_powers s4"
      by (rule light_powers_cong) (simp_all add: e' e4)
    define Y4 where "Y4 = (setCount n (m_lightsSampler s'))\<lparr>m_distances := light_powers s'\<rparr>"
    have r4: "for_loop 0 (m_iLightsN s') commitScene_lightBody
           (s'\<lparr>m_lightsSampler := setCount (m_iLightsN s') (m_lightsSampler s')\<rparr>) =
         Inr (s'\<lparr>m_lightsSampler := Y4\<rparr>)"
      using commitScene_lightLoop_settled [OF li', of "m_lightsSampler s'"]
      by (simp add: Y4_def n')
    have sm': "m_lightsSampler s' = X5" by (simp add: e')
    have Y: "(if n > 0 then calculate Y4 else Y4) = X5"
    proof (cases "n > 0")
      case True
      have "calculate Y4 = calculate X4"
        by (rule calculate_cong) (simp_all add: Y4_def X4_def X0_def setCount_def lp)
      then show ?thesis using True by (simp add: X5_def)
    next
      case False
      then have "X5 = X4" by (simp add: X5_def)
      then have "Y4 = X4"
        by (simp add: Y4_def sm' X4_def X0_def setCount_def lp)
      then show ?thesis using False by (simp add: X5_def)
    qed
    have X: "s'\<lparr>m_lightsSampler := X5\<rparr> = s'" using sm' [symmetric] by simp
    have r5: "0 < m_iLightsN s' \<Longrightarrow> s'\<lparr>m_lightsSampler := calculate Y4\<rparr> = s'"
      "\<not> 0 < m_iLightsN s' \<Longrightarrow> s'\<lparr>m_lightsSampler := Y4\<rparr> = s'"
      using Y X n' by (simp_all split: if_splits)
    \<comment> \<open>Embree\<close>
    have "(m_embreeDevice s' = None \<and> s' = s') \<or>
         (\<exists>dev. m_embreeDevice s' = Some dev \<and> rtcNewScene dev = None \<and>
                s' = s'\<lparr>m_embreeScene := None\<rparr>)"
      using fail by (auto simp add: e5 e')
    from buildEmbreeScene_fails_again [OF this] obtain lgB where
      r6: "buildEmbreeScene s' lgB' = Inr (False, s', lgB lgB')" for lgB'
      by metis
    have "\<not> m_bTraceReady s'" using fresh by (simp add: e')
    then show ?thesis
      using ne' by (simp add: commitScene_def r1 r2 r3 r4 r5 r6 Let_def)
  qed
qed

section \<open>commitScene called twice\<close>

lemma buildEmbreeScene_ready:
  assumes "buildEmbreeScene s lg = Inr (True, s', lg')"
  shows "m_bTraceReady s'"
proof (cases "m_embreeDevice s")
  case None
  with assms show ?thesis by (simp add: buildEmbreeScene_def)
next
  case (Some dev)
  with assms show ?thesis
    by (cases "rtcNewScene dev")
      (auto simp add: buildEmbreeScene_def split: sum.splits prod.splits)
qed

lemma commitScene_ready:
  assumes "commitScene s lg = Inr (True, s', lg')"
  shows "m_bTraceReady s'"
proof (cases "m_bTraceReady s")
  case True
  with assms show ?thesis by (simp add: commitScene_def)
next
  case False
  with assms obtain s5 lg2 where "buildEmbreeScene s5 lg2 = Inr (True, s', lg')"
    by (auto simp add: commitScene_def Let_def split: sum.splits prod.splits if_splits)
  then show ?thesis by (rule buildEmbreeScene_ready)
qed

lemma missing_material_at_length:
  "missing_material_at s (m_iMaterialsN s - 1) \<Longrightarrow>
   m_iMaterialsN s \<le> int (length (m_ppMaterials s))"
  by (auto simp add: missing_material_at_def at_index_def split: if_splits)

lemma allocated_materials_length:
  assumes "allocate meshN instN matN textN ligN s0 = Inr s" and "apply_ops ops s = Inr s'"
  shows "m_iMaterialsN s' \<le> int (length (m_ppMaterials s'))"
proof -
  from allocate_missing_material [OF assms(1)]
  have "missing_material_at s (m_iMaterialsN s - 1)" by simp
  from apply_ops_missing_material [OF assms(2) this]
  have "missing_material_at s' (m_iMaterialsN s' - 1)" by simp
  then show ?thesis by (rule missing_material_at_length)
qed




section \<open>sceneIntersect\<close>

lemma masked_margin_pos:
  "0 < masked_margin r1"
proof -
  obtain p0 p1 p2 where p: "along (org r1) (tfar r1) (dir r1) = (p0, p1, p2)"
    by (cases "along (org r1) (tfar r1) (dir r1)")
  have "1 \<le> maxAbsInVector (p0, p1, p2) 1" by (simp add: Let_def)
  then have "1 \<le> (if maxAbsInVector (p0, p1, p2) 1 > tfar r1
                   then maxAbsInVector (p0, p1, p2) 1 else tfar r1)" by simp
  then show ?thesis
    unfolding masked_margin_def p Let_def
    by (simp add: m_fEpsAcc_def fEpsilon_def del: maxAbsInVector.simps)
qed

lemma sceneIntersect_loop_Suc:
  "sceneIntersect_loop env t1 (Suc itr) rhit sp qs =
     (if geomID (rtcIntersect1 env rhit) = None
      then (False, rtcIntersect1 env rhit, sp, qs @ [rhit])
      else if \<not> env_isMasked env (computeSurfacePoint env (rtcIntersect1 env rhit) sp)
      then (True, rtcIntersect1 env rhit, computeSurfacePoint env (rtcIntersect1 env rhit) sp,
            qs @ [rhit])
      else if t1 \<le> tfar (rtcIntersect1 env rhit) + masked_margin (rtcIntersect1 env rhit)
      then (False,
            (rtcIntersect1 env rhit)
              \<lparr>tnear := tfar (rtcIntersect1 env rhit) + masked_margin (rtcIntersect1 env rhit),
               tfar := t1\<rparr>,
            computeSurfacePoint env (rtcIntersect1 env rhit) sp, qs @ [rhit])
      else sceneIntersect_loop env t1 itr
            ((rtcIntersect1 env rhit)
              \<lparr>tnear := tfar (rtcIntersect1 env rhit) + masked_margin (rtcIntersect1 env rhit),
               tfar := t1\<rparr>)
            (computeSurfacePoint env (rtcIntersect1 env rhit) sp) (qs @ [rhit]))"
  by (simp add: Let_def)

lemma sceneIntersect_loop_trace:
  "\<exists>new. snd (snd (snd (sceneIntersect_loop env t1 itr rhit sp qs))) = qs @ new \<and>
         length new \<le> itr \<and> (new \<noteq> [] \<longrightarrow> hd new = rhit) \<and> chained env t1 new"
proof (induction itr arbitrary: rhit sp qs)
  case 0
  then show ?case by simp
next
  case (Suc itr)
  define r1 where "r1 = rtcIntersect1 env rhit"
  define sp1 where "sp1 = computeSurfacePoint env r1 sp"
  define r3 where "r3 = r1\<lparr>tnear := tfar r1 + masked_margin r1, tfar := t1\<rparr>"
  have one: "\<exists>new. qs @ [rhit] = qs @ new \<and> length new \<le> Suc itr \<and>
                (new \<noteq> [] \<longrightarrow> hd new = rhit) \<and> chained env t1 new"
    by (rule exI [of _ "[rhit]"]) simp
  show ?case
  proof (cases "geomID r1 = None \<or> \<not> env_isMasked env sp1 \<or> tfar r3 \<le> tnear r3")
    case True
    then have "snd (snd (snd (sceneIntersect_loop env t1 (Suc itr) rhit sp qs))) = qs @ [rhit]"
      unfolding sceneIntersect_loop_Suc by (auto simp add: r1_def sp1_def r3_def)
    with one show ?thesis by simp
  next
    case False
    then have eq: "sceneIntersect_loop env t1 (Suc itr) rhit sp qs =
               sceneIntersect_loop env t1 itr r3 sp1 (qs @ [rhit])"
      unfolding sceneIntersect_loop_Suc by (auto simp add: r1_def sp1_def r3_def)
    from Suc.IH [of r3 sp1 "qs @ [rhit]"] obtain new where
      new: "snd (snd (snd (sceneIntersect_loop env t1 itr r3 sp1 (qs @ [rhit])))) = (qs @ [rhit]) @ new"
        "length new \<le> itr" "new \<noteq> [] \<longrightarrow> hd new = r3" "chained env t1 new"
      by blast
    have adv: "advanced_past env t1 rhit r3"
      using masked_margin_pos [of r1]
      by (simp add: advanced_past_def Let_def r1_def [symmetric] r3_def)
    have "chained env t1 (rhit # new)"
    proof (cases new)
      case Nil
      then show ?thesis by simp
    next
      case (Cons q rest)
      with new(3) have "q = r3" by simp
      with Cons new(4) adv show ?thesis by simp
    qed
    with new(1,2) eq show ?thesis
      by (intro exI [of _ "rhit # new"]) simp
  qed
qed

declare sceneIntersect_loop.simps(2) [simp del]

lemma sceneIntersect_loop_hit_second:
  assumes h1: "env_embree env (org rhit) (dir rhit) (tnear rhit) (tfar rhit) = Some h1"
    and r1: "r1 = rtcIntersect1 env rhit"
    and sp1: "sp1 = computeSurfacePoint env r1 sp"
    and m1: "env_isMasked env sp1"
    and r3: "r3 = r1\<lparr>tnear := hit_t h1 + masked_margin r1, tfar := t1\<rparr>"
    and rest: "tnear r3 < tfar r3"
    and h2: "env_embree env (org r3) (dir r3) (tnear r3) (tfar r3) = Some h2"
    and r4: "r4 = rtcIntersect1 env r3"
    and sp2: "sp2 = computeSurfacePoint env r4 sp1"
    and m2: "\<not> env_isMasked env sp2"
  shows "sceneIntersect_loop env t1 (Suc (Suc itr)) rhit sp [] = (True, r4, sp2, [rhit, r3])"
proof -
  have g1: "geomID r1 = Some (hit_geomID h1)" "tfar r1 = hit_t h1"
    using h1 by (simp_all add: r1 rtcIntersect1_def)
  have g4: "geomID r4 = Some (hit_geomID h2)" using h2 by (simp add: r4 rtcIntersect1_def)
  have r3': "r3 = r1\<lparr>tnear := tfar r1 + masked_margin r1, tfar := t1\<rparr>"
    using g1 by (simp add: r3)
  have guard: "\<not> t1 \<le> tfar r1 + masked_margin r1"
    using rest by (simp add: r3')
  have step1: "sceneIntersect_loop env t1 (Suc (Suc itr)) rhit sp [] =
               sceneIntersect_loop env t1 (Suc itr) r3 sp1 [rhit]"
    unfolding sceneIntersect_loop_Suc [of env t1 "Suc itr"] r1 [symmetric] sp1 [symmetric]
    using g1 m1 guard by (simp add: r3')
  have step2: "sceneIntersect_loop env t1 (Suc itr) r3 sp1 [rhit] = (True, r4, sp2, [rhit, r3])"
    unfolding sceneIntersect_loop_Suc [of env t1 itr] r4 [symmetric] sp2 [symmetric]
    using g4 m2 by simp
  from step1 step2 show ?thesis by simp
qed




section \<open>computePath\<close>

lemma at_index_in_range:
  "0 \<le> i \<Longrightarrow> i < int (length a) \<Longrightarrow> at_index a i = Inr (a ! nat i)"
  by (simp add: at_index_def)

lemma computePath_body_bounds:
  assumes "1 \<le> i" and "i < int (length P)"
  shows "case computePath_body env params invd attD i (P, rhit, Rad, rDterm, n, rs) of
           Inl e \<Rightarrow> False
         | Inr (Inl res) \<Rightarrow> fst (snd (snd (snd res))) = n \<and> length (fst (snd res)) = length P
         | Inr (Inr st') \<Rightarrow>
             fst (snd (snd (snd (snd st')))) = n + 1 \<and> length (fst st') = length P"
proof -
  have a1: "at_index P (i - 1) = Inr (P ! nat (i - 1))"
    using assms by (simp add: at_index_in_range)
  have a2: "at_index P i = Inr (P ! nat i)"
    using assms by (simp add: at_index_in_range)
  show ?thesis
    unfolding computePath_body_def prod.case a1 a2 sum.case
    by (simp add: Let_def)
qed

lemma computePath_loop_bounds:
  assumes "1 \<le> i" and "i \<le> max_n" and "int (length (fst st)) = max_n"
    and "fst (snd (snd (snd (snd st)))) \<le> i"
  shows "case computePath_loop env params invd attD max_n i st of
           Inl e \<Rightarrow> False
         | Inr res \<Rightarrow>
             fst (snd (snd (snd (snd st)))) \<le> fst (snd (snd (snd res))) \<and>
             fst (snd (snd (snd res))) \<le> max_n \<and>
             length (fst (snd res)) = length (fst st)"
  using assms
proof (induction env params invd attD max_n i st rule: computePath_loop.induct)
  case (1 env params invd attD max_n i st)
  obtain P rhit Rad rDterm n rs where st: "st = (P, rhit, Rad, rDterm, n, rs)"
    by (cases st) auto
  have n: "n \<le> i" and len: "int (length P) = max_n" using "1.prems" by (simp_all add: st)
  show ?case
  proof (cases "i < max_n")
    case False
    then have "computePath_loop env params invd attD max_n i st = Inr (False, P, Rad, n, rs)"
      by (subst computePath_loop.simps) (simp add: st)
    then show ?thesis using "1.prems" n by (simp add: st)
  next
    case True
    have body: "case computePath_body env params invd attD i st of
           Inl e \<Rightarrow> False
         | Inr (Inl res) \<Rightarrow> fst (snd (snd (snd res))) = n \<and> length (fst (snd res)) = length P
         | Inr (Inr st') \<Rightarrow>
             fst (snd (snd (snd (snd st')))) = n + 1 \<and> length (fst st') = length P"
      unfolding st using "1.prems"(1) True len by (intro computePath_body_bounds) simp_all
    show ?thesis
    proof (cases "computePath_body env params invd attD i st")
      case (Inl e)
      with body show ?thesis by simp
    next
      case (Inr r)
      show ?thesis
      proof (cases r)
        case (Inl res)
        with Inr have "computePath_loop env params invd attD max_n i st = Inr res"
          using True by (subst computePath_loop.simps) simp
        moreover have "fst (snd (snd (snd res))) = n" "length (fst (snd res)) = length P"
          using body Inr Inl by simp_all
        ultimately show ?thesis using n True by (simp add: st)
      next
        case stp: (Inr st')
        with Inr have eq: "computePath_loop env params invd attD max_n i st =
                  computePath_loop env params invd attD max_n (i + 1) st'"
          using True by (subst computePath_loop.simps) simp
        have b: "fst (snd (snd (snd (snd st')))) = n + 1" "length (fst st') = length P"
          using body Inr stp by simp_all
        have b0: "computePath_body env params invd attD i st = Inr (Inr st')"
          using Inr stp by simp
        have "case computePath_loop env params invd attD max_n (i + 1) st' of
           Inl e \<Rightarrow> False
         | Inr res \<Rightarrow>
             fst (snd (snd (snd (snd st')))) \<le> fst (snd (snd (snd res))) \<and>
             fst (snd (snd (snd res))) \<le> max_n \<and>
             length (fst (snd res)) = length (fst st')"
          using True "1.prems"(1) n len b by (intro "1.IH" [OF True b0]) simp_all
        then show ?thesis
          unfolding eq using b by (auto simp add: st split: sum.splits)
      qed
    qed
  qed
qed

text \<open>
  C3 (amended). With \<^verbatim>\<open>cameraBouncesN = k\<close>, \<open>k \<ge> 0\<close>, and a path buffer of the \<open>k + 1\<close> entries
  that \<^verbatim>\<open>allocatePathBufs\<close> reserves, \<^verbatim>\<open>computePath\<close> called with \<open>max_n = k + 1\<close>
  returns, whatever the intersections and materials do; it writes inside the buffer
  only, and the count \<open>n\<close> it returns satisfies \<open>1 \<le> n \<le> k + 1\<close>.
\<close>

theorem computePath_bounded:
  assumes "0 \<le> k" and "cameraBouncesN params = k"
    and "int (length P) = cameraBouncesN params + 1"
  shows "\<exists>sceneExit P' Rad' n rs'.
           computePath env params P (cameraBouncesN params + 1) O' R Rad invd attD rs =
             Inr (sceneExit, P', Rad', n, rs') \<and>
           1 \<le> n \<and> n \<le> k + 1 \<and> length P' = length P"
proof -
  define max_n where "max_n = cameraBouncesN params + 1"
  define P0 where "P0 = P[0 := \<lparr>m_outRay = R,
       m_surfPoint = (m_surfPoint (P ! 0))\<lparr>sp_pInst := None, sp_position := O'\<rparr>,
       m_outRad = Rad, m_outFactor = (1, 1, 1)\<rparr>]"
  define st where "st = (P0, RTCRayHit_zero\<lparr>tnear := 0\<rparr>, Rad, 1 :: real, 1 :: int, rs)"
  have len: "int (length P) = max_n" "1 \<le> max_n" using assms by (simp_all add: max_n_def)
  then have a0: "at_index P 0 = Inr (P ! 0)" by (simp add: at_index_def)
  have eq: "computePath env params P max_n O' R Rad invd attD rs =
            computePath_loop env params invd attD max_n 1 st"
    by (simp add: computePath_def a0 Let_def st_def P0_def)
  have "case computePath_loop env params invd attD max_n 1 st of
           Inl e \<Rightarrow> False
         | Inr res \<Rightarrow>
             fst (snd (snd (snd (snd st)))) \<le> fst (snd (snd (snd res))) \<and>
             fst (snd (snd (snd res))) \<le> max_n \<and>
             length (fst (snd res)) = length (fst st)"
    using len by (intro computePath_loop_bounds) (simp_all add: st_def P0_def)
  then obtain res where res: "computePath_loop env params invd attD max_n 1 st = Inr res"
    and b: "1 \<le> fst (snd (snd (snd res)))" "fst (snd (snd (snd res))) \<le> max_n"
      "length (fst (snd res)) = length P"
    by (cases "computePath_loop env params invd attD max_n 1 st")
      (simp_all add: st_def P0_def)
  obtain sceneExit P' Rad' n rs' where r: "res = (sceneExit, P', Rad', n, rs')"
    by (cases res) auto
  have "computePath env params P (cameraBouncesN params + 1) O' R Rad invd attD rs =
          Inr (sceneExit, P', Rad', n, rs')"
    using eq res r by (simp add: max_n_def)
  moreover have "1 \<le> n" "n \<le> k + 1" "length P' = length P"
    using b r assms by (simp_all add: max_n_def)
  ultimately show ?thesis by blast
qed

lemmas bdpt_eval = computePath_def computePath_loop.simps computePath_body_def sceneIntersect_def
  maxItr_def sceneIntersect_loop_Suc eval_nat_numeral rtcIntersect1_def computeSurfacePoint_def
  setRay_def shiftRayAlongDirection_def masked_margin_def at_index_def two_sheets_def
  RTCRayHit_zero_def BDPTPathPart_new_def SurfacePoint_new_def RendererParameters_default_def
  FLT_MAX_def m_fEpsAcc_def fEpsilon_def two_bounces_def Let_def

theorem computePath_bounded_witness:
  "\<exists>sceneExit P' Rad' rs'.
     computePath two_sheets two_bounces (replicate 3 BDPTPathPart_new) 3
       (0, 0, 0) (0, 0, 1) (0, 0, 0) True FLT_MAX [] = Inr (sceneExit, P', Rad', 3, rs') \<and>
     length P' = 3"
proof -
  have k: "(0 :: int) \<le> 2" "cameraBouncesN two_bounces = 2"
    "int (length (replicate 3 BDPTPathPart_new)) = cameraBouncesN two_bounces + 1"
    by (simp_all add: two_bounces_def)
  have n: "fst (snd (snd (snd (projr (computePath two_sheets two_bounces
             (replicate 3 BDPTPathPart_new) 3 (0, 0, 0) (0, 0, 1) (0, 0, 0) True FLT_MAX []))))) = 3"
    by (simp add: bdpt_eval)
  from computePath_bounded [OF k, of two_sheets "(0, 0, 0)" "(0, 0, 1)" "(0, 0, 0)" True FLT_MAX "[]"]
  obtain sceneExit P' Rad' n' rs' where
    c: "computePath two_sheets two_bounces (replicate 3 BDPTPathPart_new) 3
       (0, 0, 0) (0, 0, 1) (0, 0, 0) True FLT_MAX [] = Inr (sceneExit, P', Rad', n', rs')"
    and l: "length P' = 3"
    using k by auto
  from n c have "n' = 3" by simp
  with c l show ?thesis by blast
qed


text \<open>
  C3 as stated fails for a negative bounce count, which the command line accepts: with
  \<^verbatim>\<open>cameraBouncesN = -1\<close> the camera buffer that \<^verbatim>\<open>allocatePathBufs\<close> reserves has no
  entry, and \<^verbatim>\<open>computePath\<close>, called with \<open>max_n = 0\<close>, writes \<^verbatim>\<open>P[0]\<close> outside it
  before its loop; the count it sets there is 1, above \<open>k + 1 = 0\<close>.
\<close>

theorem computePath_bounded_counterexample:
  "cameraBouncesN minus_one_bounce = - 1 \<and>
   allocatePathBufs (cameraBouncesN minus_one_bounce + 1) (lightBouncesN minus_one_bounce + 1) =
     Inr ([], replicate 11 BDPTPathPart_new) \<and>
   computePath two_sheets minus_one_bounce [] (cameraBouncesN minus_one_bounce + 1)
     (0, 0, 0) (0, 0, 1) (0, 0, 0) True FLT_MAX [] = Inl OutOfBoundsAccess"
  by (simp add: minus_one_bounce_def RendererParameters_default_def allocatePathBufs_def
      computePath_def at_index_def)

subsection \<open>computePaths: the divisor of the final scale\<close>

lemma computePaths_totalPN:
  assumes "computePaths scene env params O' R CP LP rs = Inr res"
  shows "res_totalPN res = 0 \<or> res_totalPN res = 1"
  using assms unfolding computePaths_def Let_def
  by (auto split: sum.splits if_splits option.splits)

lemma lit_scene_lightsN: "m_iLightsN (commit_scene (commit_nolog lit_scene)) = 1"
  by code_simp

lemma lit_scene_lights: "m_ppLights (commit_scene (commit_nolog lit_scene)) = [Some lamp_committed]"
  by code_simp

lemma lit_scene_sampler:
  "m_lightsSampler (commit_scene (commit_nolog lit_scene)) =
     \<lparr>m_iN = 1, m_maxD = 1, m_distances = [1]\<rparr>"
  by code_simp

lemma lit_scene_background:
  "m_pBackground (commit_scene (commit_nolog lit_scene)) = Some (HDRBackground ''sky'')"
  by code_simp

lemma lamp_committed_sel:
  "m_fRange lamp_committed = 4" "m_intensity lamp_committed = (1, 1, 1)"
  "m_position lamp_committed = (1 / 4, 1 / 4, 2)"
  by (simp_all add: lamp_committed_def lamp_def)

lemma two_bounces_sel:
  "lightScaleValue two_bounces = 100" "lightBouncesN two_bounces = 2"
  "cameraBouncesN two_bounces = 2" "maxPathLength two_bounces = 8"
  "rayCutPixValue two_bounces = 2 / 1000" "lightDistanceAttenuation two_bounces = 1"
  by (simp_all add: two_bounces_def RendererParameters_default_def)

lemma floor_env_sel:
  "env_getBrdf floor_env inV sp outV = (1 / 2, 1 / 2, 1 / 2)"
  "env_background floor_env d = (1, 1, 1)"
  by (simp_all add: floor_env_def)

lemma lit_scene_sampleLight:
  "sampleLight (commit_scene (commit_nolog lit_scene)) [0, 0, 3 / 5, 4 / 5] =
     Some ((Some lamp_committed, 1), [0, 3 / 5, 4 / 5])"
  by (simp add: sampleLight_def lit_scene_lights lit_scene_sampler getRandom_def getValue_def
      getPdf_def)

lemma lamp_getRandomRay:
  "getRandomRay lamp_committed [0, 3 / 5, 4 / 5] =
     Some (\<lparr>ray_O = (1 / 4, 1 / 4, 2), ray_R = (0, 3 / 5, 4 / 5), ray_pdf = 1 / (4 * M_PIf),
            ray_radiance = (1, 1, 1)\<rparr>, [])"
proof -
  have "(9 / 25 + 16 / 25 :: real) = 1"
    by simp
  then show ?thesis
    by (simp add: getRandomRay_def lamp_committed_sel fEpsilon_def Let_def)
qed

lemma lamp_light_path:
  "computePath floor_env two_bounces (replicate 3 BDPTPathPart_new) 3 (1 / 4, 1 / 4, 2)
     (0, 3 / 5, 4 / 5) (100, 100, 100) False 4 [] =
   Inr (True, (replicate 3 BDPTPathPart_new)[0 := light_vertex], (100, 100, 100), 1, [])"
  by (simp add: bdpt_eval floor_env_def light_vertex_def)

lemma floor_camera_path:
  "computePath floor_env two_bounces (replicate 3 BDPTPathPart_new) 3 (1 / 4, 1 / 4, 1)
     (0, 0, - 1) (0, 0, 0) True FLT_MAX [] =
   Inr (True, camera_vertices, (0, 0, 0), 2, [])"
  by (simp add: bdpt_eval floor_env_def camera_vertices_def)

lemma lit_scene_tryComputeLightPath:
  "tryComputeLightPath (commit_scene (commit_nolog lit_scene)) floor_env two_bounces
     (replicate 3 BDPTPathPart_new) 0 [0, 0, 3 / 5, 4 / 5] =
   Inr (Some lamp_committed, 1, (replicate 3 BDPTPathPart_new)[0 := light_vertex], [])"
  unfolding tryComputeLightPath_def lit_scene_sampleLight
  by (simp add: lamp_getRandomRay getAttenuationDistance_def lamp_committed_sel two_bounces_sel
      lamp_light_path)

lemma floor_isConnected: "isConnected floor_env (1 / 4, 1 / 4, 2) (1 / 4, 1 / 4, 0)"
  by (simp add: isConnected_def bdpt_eval floor_env_def)

lemma floor_connect_body:
  "connect_body floor_env two_bounces lamp_committed camera_vertices 0 (1 / 4, 1 / 4, 2) 1
     ((1 / 2, 1 / 2, 1 / 2), (100, 100, 100), []) =
   Inr ((51 / 2, 51 / 2, 51 / 2), (50, 50, 50), [(25, 25, 25)])"
  by (simp add: connect_body_def camera_vertices_def floor_isConnected at_index_def Let_def
      getRadianceAlongRay_def getAttenuationDistance_def lamp_committed_sel two_bounces_sel
      computeLightAttenuation_def floor_env_sel FLT_MAX_def normalize3_down
      del: normalize3.simps)

text \<open>
  C1. \<^verbatim>\<open>computePaths\<close> divides the accumulated radiance by \<^verbatim>\<open>totalPN\<close>, and the
  specification counts in that divisor every term that was accumulated: the background
  hit, the emissive surfaces of the camera path and every accepted connection of a light
  vertex with a camera vertex. The code increments \<^verbatim>\<open>totalPN\<close> for the background hit,
  or else for the emissive camera path, and never for a connection. Here a camera ray
  looks down at a triangle under a lamp: the path is reflected into the background,
  which adds the term \<open>(1/2, 1/2, 1/2)\<close>, and the hit point sees the lamp, which adds the
  connection term \<open>(25, 25, 25)\<close>. Two terms were accumulated and \<^verbatim>\<open>totalPN\<close> is 1, so
  the radiance returned is their sum \<open>(51/2, 51/2, 51/2)\<close>, where the average of the two
  terms is \<open>(51/4, 51/4, 51/4)\<close>.
\<close>

theorem computePaths_connection_not_counted:
  "\<exists>res. computePaths (commit_scene (commit_nolog lit_scene)) floor_env two_bounces
            (1 / 4, 1 / 4, 1) (0, 0, - 1) (replicate 3 BDPTPathPart_new)
            (replicate 3 BDPTPathPart_new) [0, 0, 3 / 5, 4 / 5] = Inr res \<and>
          res_emitted res = (0, 0, 0) \<and>
          res_background res = Some (1 / 2, 1 / 2, 1 / 2) \<and>
          res_connections res = [(25, 25, 25)] \<and>
          contributing_terms res = [(1 / 2, 1 / 2, 1 / 2), (25, 25, 25)] \<and>
          res_totalPN res = 1 \<and>
          res_radiance res = (51 / 2, 51 / 2, 51 / 2) \<and>
          averaged_radiance res = (51 / 4, 51 / 4, 51 / 4)"
proof -
  have "computePaths (commit_scene (commit_nolog lit_scene)) floor_env two_bounces
          (1 / 4, 1 / 4, 1) (0, 0, - 1) (replicate 3 BDPTPathPart_new)
          (replicate 3 BDPTPathPart_new) [0, 0, 3 / 5, 4 / 5] =
        Inr \<lparr>res_radiance = (51 / 2, 51 / 2, 51 / 2), res_camRay_O = (1 / 4, 1 / 4, 0),
             res_camRay_R = (0, 0, 1), res_totalPN = 1, res_emitted = (0, 0, 0),
             res_background = Some (1 / 2, 1 / 2, 1 / 2), res_connections = [(25, 25, 25)],
             res_CP = camera_vertices,
             res_LP = (replicate 3 BDPTPathPart_new)[0 := light_vertex], res_rs = []\<rparr>"
    unfolding computePaths_def lit_scene_lightsN lit_scene_background
    by (simp add: Let_def lit_scene_tryComputeLightPath two_bounces_sel floor_camera_path
        at_index_def floor_env_sel for_loop_step for_loop_empty connect_outer_body_def
        connect_inner.simps floor_connect_body [unfolded camera_vertices_def] light_vertex_def
        camera_vertices_def)
  then show ?thesis
    by (simp add: averaged_radiance_def contributing_terms_def fEpsilon_def)
qed


end
